theory Spec2Isabelle
  imports Complex_Main "HOL-Library.Char_ord" "HOL-Library.List_Lexorder"
    "HOL-Library.Product_Lexorder"
begin

section \<open>Cell values and their text\<close>

text \<open>
  The script \<^verbatim>\<open>join_csv_to_shp.py\<close> works on pandas tables. A cell of a table is a
  missing value (\<^verbatim>\<open>NaN\<close>/\<^verbatim>\<open>None\<close>), a text, an integer or a float. Texts are lists of
  code points below 256 (Latin-1, where Isabelle's \<open>char\<close> and Python's code points
  coincide; Portuguese municipality names live there). Floats are modelled by their exact
  rational value: rounding is not modelled.
\<close>

datatype cell = NaN | StrV string | IntV int | FltV rat

definition digit_char :: "nat \<Rightarrow> char" where
  "digit_char d = ''0123456789'' ! d"

fun str_of_nat :: "nat \<Rightarrow> string" where
  "str_of_nat n =
     (if n < 10 then [digit_char n] else str_of_nat (n div 10) @ [digit_char (n mod 10)])"

definition str_of_int :: "int \<Rightarrow> string" where
  "str_of_int i = (if i < 0 then CHR ''-'' # str_of_nat (nat (- i)) else str_of_nat (nat i))"

text \<open>
  Python's \<^verbatim>\<open>str(v)\<close>, which is also what \<^verbatim>\<open>Series.astype(str)\<close> applies to each cell.
  The text of a float is the shortest decimal that reads back as the same double; it is
  taken as the parameter \<open>fr\<close>. A missing value prints as \<^verbatim>\<open>nan\<close>.
\<close>

fun py_str :: "(rat \<Rightarrow> string) \<Rightarrow> cell \<Rightarrow> string" where
  "py_str fr NaN = ''nan''"
| "py_str fr (StrV s) = s"
| "py_str fr (IntV i) = str_of_int i"
| "py_str fr (FltV q) = fr q"

text \<open>
  The text of a float of integral value below \<open>10^16\<close> (\<^verbatim>\<open>str(310620.0) == '310620.0'\<close>);
  the instance of \<open>fr\<close> used where a concrete table is evaluated.
\<close>

definition repr_integral :: "rat \<Rightarrow> string" where
  "repr_integral q = str_of_int \<lfloor>q\<rfloor> @ ''.0''"

section \<open>Code normalization (\<^verbatim>\<open>preparar_codigos\<close>, lines 174--190)\<close>

text \<open>
  \<^verbatim>\<open>
  gdf["__shp_code_digits"] = (gdf[shp_code_col].astype(str)
      .str.replace(r"\D", "", regex=True).fillna("").str.zfill(7))
  gdf["__shp_code6"] = gdf["__shp_code_digits"].str[:6]
  df["__csv_code_digits"] = (df[csv_code_col].astype(str)
      .str.replace(r"\D", "", regex=True).fillna("").str.zfill(6))
  df["__csv_code6"] = df["__csv_code_digits"].str[:6]
  \<close>
  The \<^verbatim>\<open>.str\<close> methods work cell by cell and pass a missing text through, so a cell of
  the intermediate series is a \<open>string option\<close>. Below code point 256 the decimal digits
  that \<^verbatim>\<open>\D\<close> spares are exactly \<^verbatim>\<open>0\<close> to \<^verbatim>\<open>9\<close>.
\<close>

definition astype_str :: "(rat \<Rightarrow> string) \<Rightarrow> cell \<Rightarrow> string option" where
  "astype_str fr v = Some (py_str fr v)"

definition is_digit :: "char \<Rightarrow> bool" where
  "is_digit c = (CHR ''0'' \<le> c \<and> c \<le> CHR ''9'')"

definition str_replace_non_digits :: "string option \<Rightarrow> string option" where
  "str_replace_non_digits = map_option (filter is_digit)"

definition fillna_empty :: "string option \<Rightarrow> string" where
  "fillna_empty s = (case s of None \<Rightarrow> [] | Some t \<Rightarrow> t)"

text \<open>Python's \<^verbatim>\<open>str.zfill\<close>: zeros go on the left, after a leading sign.\<close>

definition zfill :: "nat \<Rightarrow> string \<Rightarrow> string" where
  "zfill w s =
     (if w \<le> length s then s
      else case s of
             c # cs \<Rightarrow>
               (if c = CHR ''+'' \<or> c = CHR ''-'' then c # replicate (w - length s) CHR ''0'' @ cs
                else replicate (w - length s) CHR ''0'' @ s)
           | [] \<Rightarrow> replicate w CHR ''0'')"

definition shp_code_digits :: "(rat \<Rightarrow> string) \<Rightarrow> cell \<Rightarrow> string" where
  "shp_code_digits fr v = zfill 7 (fillna_empty (str_replace_non_digits (astype_str fr v)))"

definition shp_code6 :: "(rat \<Rightarrow> string) \<Rightarrow> cell \<Rightarrow> string" where
  "shp_code6 fr v = take 6 (shp_code_digits fr v)"

definition csv_code_digits :: "(rat \<Rightarrow> string) \<Rightarrow> cell \<Rightarrow> string" where
  "csv_code_digits fr v = zfill 6 (fillna_empty (str_replace_non_digits (astype_str fr v)))"

definition csv_code6 :: "(rat \<Rightarrow> string) \<Rightarrow> cell \<Rightarrow> string" where
  "csv_code6 fr v = take 6 (csv_code_digits fr v)"

section \<open>Name normalization (\<^verbatim>\<open>normalizar_nome\<close>, lines 36--42)\<close>

text \<open>
  \<^verbatim>\<open>
  def normalizar_nome(valor):
      if pd.isna(valor):
          return ""
      valor = str(valor)
      valor = unicodedata.normalize("NFKD", valor).encode("ASCII", "ignore").decode("utf-8")
      return " ".join(p.title() for p in valor.split())
  \<close>
  \<open>latin1_decomposition\<close> lists the code points below 256 that have a compatibility
  decomposition in the Unicode character database, each with its full decomposition;
  every other code point below 256 (all those below 0xA0 among them) decomposes to
  itself. No code point below 256 is a
  combining mark, so the canonical reordering step of NFKD has nothing to reorder.
\<close>

definition latin1_decomposition :: "(nat \<times> nat list) list" where
  "latin1_decomposition =
    [(0xA0, [0x20]), (0xA8, [0x20, 0x308]), (0xAA, [0x61]), (0xAF, [0x20, 0x304]),
     (0xB2, [0x32]), (0xB3, [0x33]), (0xB4, [0x20, 0x301]), (0xB5, [0x3BC]),
     (0xB8, [0x20, 0x327]), (0xB9, [0x31]), (0xBA, [0x6F]), (0xBC, [0x31, 0x2044, 0x34]),
     (0xBD, [0x31, 0x2044, 0x32]), (0xBE, [0x33, 0x2044, 0x34]), (0xC0, [0x41, 0x300]),
     (0xC1, [0x41, 0x301]), (0xC2, [0x41, 0x302]), (0xC3, [0x41, 0x303]),
     (0xC4, [0x41, 0x308]), (0xC5, [0x41, 0x30A]), (0xC7, [0x43, 0x327]),
     (0xC8, [0x45, 0x300]), (0xC9, [0x45, 0x301]), (0xCA, [0x45, 0x302]),
     (0xCB, [0x45, 0x308]), (0xCC, [0x49, 0x300]), (0xCD, [0x49, 0x301]),
     (0xCE, [0x49, 0x302]), (0xCF, [0x49, 0x308]), (0xD1, [0x4E, 0x303]),
     (0xD2, [0x4F, 0x300]), (0xD3, [0x4F, 0x301]), (0xD4, [0x4F, 0x302]),
     (0xD5, [0x4F, 0x303]), (0xD6, [0x4F, 0x308]), (0xD9, [0x55, 0x300]),
     (0xDA, [0x55, 0x301]), (0xDB, [0x55, 0x302]), (0xDC, [0x55, 0x308]),
     (0xDD, [0x59, 0x301]), (0xE0, [0x61, 0x300]), (0xE1, [0x61, 0x301]),
     (0xE2, [0x61, 0x302]), (0xE3, [0x61, 0x303]), (0xE4, [0x61, 0x308]),
     (0xE5, [0x61, 0x30A]), (0xE7, [0x63, 0x327]), (0xE8, [0x65, 0x300]),
     (0xE9, [0x65, 0x301]), (0xEA, [0x65, 0x302]), (0xEB, [0x65, 0x308]),
     (0xEC, [0x69, 0x300]), (0xED, [0x69, 0x301]), (0xEE, [0x69, 0x302]),
     (0xEF, [0x69, 0x308]), (0xF1, [0x6E, 0x303]), (0xF2, [0x6F, 0x300]),
     (0xF3, [0x6F, 0x301]), (0xF4, [0x6F, 0x302]), (0xF5, [0x6F, 0x303]),
     (0xF6, [0x6F, 0x308]), (0xF9, [0x75, 0x300]), (0xFA, [0x75, 0x301]),
     (0xFB, [0x75, 0x302]), (0xFC, [0x75, 0x308]), (0xFD, [0x79, 0x301]),
     (0xFF, [0x79, 0x308])]"

definition nfkd_cp :: "nat \<Rightarrow> nat list" where
  "nfkd_cp n =
     (if n < 0xA0 then [n]
      else case map_of latin1_decomposition n of Some d \<Rightarrow> d | None \<Rightarrow> [n])"

definition nfkd :: "string \<Rightarrow> nat list" where
  "nfkd s = concat (map (\<lambda>c. nfkd_cp (of_char c)) s)"

definition encode_ascii_ignore :: "nat list \<Rightarrow> string" where
  "encode_ascii_ignore cps = map char_of (filter (\<lambda>n. n < 128) cps)"

text \<open>
  \<^verbatim>\<open>str.split()\<close> without argument cuts at runs of whitespace and returns no empty
  piece. The text is ASCII at this point; the ASCII whitespace of Python is 9 to 13, 28 to
  31 and 32.
\<close>

definition is_space :: "char \<Rightarrow> bool" where
  "is_space c = (let n = (of_char c :: nat) in (9 \<le> n \<and> n \<le> 13) \<or> (28 \<le> n \<and> n \<le> 32))"

fun split_from :: "string \<Rightarrow> string \<Rightarrow> string list" where
  "split_from cur [] = (if cur = [] then [] else [cur])"
| "split_from cur (c # cs) =
     (if is_space c then (if cur = [] then split_from [] cs else cur # split_from [] cs)
      else split_from (cur @ [c]) cs)"

definition py_split :: "string \<Rightarrow> string list" where
  "py_split s = split_from [] s"

text \<open>
  \<^verbatim>\<open>str.title()\<close>: a letter that follows a letter is lowered, any other letter is
  raised; characters that are not letters stay (ASCII only here).
\<close>

definition is_upper :: "char \<Rightarrow> bool" where
  "is_upper c = (CHR ''A'' \<le> c \<and> c \<le> CHR ''Z'')"

definition is_lower :: "char \<Rightarrow> bool" where
  "is_lower c = (CHR ''a'' \<le> c \<and> c \<le> CHR ''z'')"

definition ascii_lower :: "char \<Rightarrow> char" where
  "ascii_lower c = (if is_upper c then char_of (of_char c + 32 :: nat) else c)"

definition ascii_upper :: "char \<Rightarrow> char" where
  "ascii_upper c = (if is_lower c then char_of (of_char c - 32 :: nat) else c)"

fun title_from :: "bool \<Rightarrow> string \<Rightarrow> string" where
  "title_from previous_is_cased [] = []"
| "title_from previous_is_cased (c # cs) =
     (if previous_is_cased then ascii_lower c else ascii_upper c)
       # title_from (is_upper c \<or> is_lower c) cs"

definition py_title :: "string \<Rightarrow> string" where
  "py_title s = title_from False s"

fun py_join :: "string \<Rightarrow> string list \<Rightarrow> string" where
  "py_join sep [] = []"
| "py_join sep [p] = p"
| "py_join sep (p # q # ps) = p @ sep @ py_join sep (q # ps)"

definition normalizar_nome :: "(rat \<Rightarrow> string) \<Rightarrow> cell \<Rightarrow> string" where
  "normalizar_nome fr valor =
     (if valor = NaN then []
      else py_join '' '' (map py_title (py_split (encode_ascii_ignore (nfkd (py_str fr valor))))))"

section \<open>Column detection (\<^verbatim>\<open>detect_code_column\<close>, \<^verbatim>\<open>detect_name_column\<close>, lines 45--82)\<close>

text \<open>
  \<^verbatim>\<open>
  nomes = [c.lower() for c in colunas]
  for alvo in candidatos:
      for idx, nome in enumerate(nomes):
          if alvo in nome:
              return colunas[idx]
  return None
  \<close>
  Below code point 256 \<^verbatim>\<open>str.lower\<close> moves A to Z and the letters from 0xC0 to 0xDE
  (0xD7, the multiplication sign, apart) up by 32.
\<close>

definition py_lower_char :: "char \<Rightarrow> char" where
  "py_lower_char c =
     (let n = (of_char c :: nat)
      in if (65 \<le> n \<and> n \<le> 90) \<or> (192 \<le> n \<and> n \<le> 222 \<and> n \<noteq> 215) then char_of (n + 32)
         else c)"

definition py_lower :: "string \<Rightarrow> string" where
  "py_lower s = map py_lower_char s"

fun is_substring :: "string \<Rightarrow> string \<Rightarrow> bool" where
  "is_substring alvo [] = (alvo = [])"
| "is_substring alvo (c # cs) =
     (take (length alvo) (c # cs) = alvo \<or> is_substring alvo cs)"

fun detect_column :: "string list \<Rightarrow> string list \<Rightarrow> string option" where
  "detect_column [] colunas = None"
| "detect_column (alvo # candidatos) colunas =
     (case find (\<lambda>c. is_substring alvo (py_lower c)) colunas of
        Some c \<Rightarrow> Some c
      | None \<Rightarrow> detect_column candidatos colunas)"

definition code_candidates :: "string list" where
  "code_candidates =
     [''municipio_cod'', ''codigo_ibge'', ''cod_ibge'', ''cod_mun'', ''cd_mun'', ''cd_municip'',
      ''cd_ibge'', ''codigo'', ''ibge'', ''cod'']"

definition name_candidates :: "string list" where
  "name_candidates =
     [''municipio_nome'', ''nome'', ''municipio'', ''nm_mun'', ''nm_municip'', ''name'']"

definition detect_code_column :: "string list \<Rightarrow> string option" where
  "detect_code_column colunas = detect_column code_candidates colunas"

definition detect_name_column :: "string list \<Rightarrow> string option" where
  "detect_name_column colunas = detect_column name_candidates colunas"

section \<open>Tables\<close>

text \<open>
  A table (\<^verbatim>\<open>DataFrame\<close>, \<^verbatim>\<open>GeoDataFrame\<close>) is its list of column names and its list
  of rows; a row pairs each column name with the cell it holds, in column order. The
  geometry of a feature is one more column, which the script never looks into.
\<close>

type_synonym row = "(string \<times> cell) list"

record frame =
  columns :: "string list"
  rows :: "row list"

definition wf_frame :: "frame \<Rightarrow> bool" where
  "wf_frame df = (\<forall>r\<in>set (rows df). map fst r = columns df)"

datatype error = KeyError | TypeError | ValueError | SystemExit

definition cell_of :: "row \<Rightarrow> string \<Rightarrow> cell" where
  "cell_of r c = (case map_of r c of Some v \<Rightarrow> v | None \<Rightarrow> NaN)"

definition notna :: "cell \<Rightarrow> bool" where
  "notna v = (v \<noteq> NaN)"

text \<open>\<^verbatim>\<open>df[c] = ...\<close>: an existing column is overwritten in place, a new one goes last.\<close>

fun set_cell :: "string \<Rightarrow> cell \<Rightarrow> row \<Rightarrow> row" where
  "set_cell c v [] = [(c, v)]"
| "set_cell c v ((k, w) # r) = (if k = c then (c, v) # r else (k, w) # set_cell c v r)"

definition assign :: "string \<Rightarrow> (row \<Rightarrow> cell) \<Rightarrow> frame \<Rightarrow> frame" where
  "assign c f df =
     \<lparr>columns = (if c \<in> set (columns df) then columns df else columns df @ [c]),
      rows = map (\<lambda>r. set_cell c (f r) r) (rows df)\<rparr>"

text \<open>\<^verbatim>\<open>df.drop(columns=c)\<close>.\<close>

definition drop_column :: "string \<Rightarrow> frame \<Rightarrow> frame" where
  "drop_column c df =
     \<lparr>columns = removeAll c (columns df),
      rows = map (filter (\<lambda>kv. fst kv \<noteq> c)) (rows df)\<rparr>"

text \<open>
  \<^verbatim>\<open>left.merge(right, left_on=a, right_on=b, how="left")\<close>; \<^verbatim>\<open>on=k\<close> is
  \<^verbatim>\<open>left_on=k, right_on=k\<close>. Every left row comes out, in order, once for each right
  row with an equal key (in the order of the right table), or once with missing values
  in the right columns when no right row has its key. A column name that both tables have
  gets the suffix \<^verbatim>\<open>_x\<close> on the left and \<^verbatim>\<open>_y\<close> on the right; when the key has the
  same name on both sides it comes out once and takes no suffix.
\<close>

definition overlapping :: "frame \<Rightarrow> frame \<Rightarrow> string \<Rightarrow> string \<Rightarrow> string \<Rightarrow> bool" where
  "overlapping left right left_on right_on c =
     (c \<in> set (columns left) \<and> c \<in> set (columns right) \<and> \<not> (left_on = right_on \<and> c = left_on))"

definition suffix_x :: "frame \<Rightarrow> frame \<Rightarrow> string \<Rightarrow> string \<Rightarrow> string \<Rightarrow> string" where
  "suffix_x left right left_on right_on c =
     (if overlapping left right left_on right_on c then c @ ''_x'' else c)"

definition suffix_y :: "frame \<Rightarrow> frame \<Rightarrow> string \<Rightarrow> string \<Rightarrow> string \<Rightarrow> string" where
  "suffix_y left right left_on right_on c =
     (if overlapping left right left_on right_on c then c @ ''_y'' else c)"

definition kept :: "string \<Rightarrow> string \<Rightarrow> string \<Rightarrow> bool" where
  "kept left_on right_on c = (\<not> (left_on = right_on \<and> c = right_on))"

definition left_part :: "frame \<Rightarrow> frame \<Rightarrow> string \<Rightarrow> string \<Rightarrow> row \<Rightarrow> row" where
  "left_part left right left_on right_on l =
     map (\<lambda>kv. (suffix_x left right left_on right_on (fst kv), snd kv)) l"

definition right_part :: "frame \<Rightarrow> frame \<Rightarrow> string \<Rightarrow> string \<Rightarrow> row \<Rightarrow> row" where
  "right_part left right left_on right_on r =
     map (\<lambda>kv. (suffix_y left right left_on right_on (fst kv), snd kv))
       (filter (\<lambda>kv. kept left_on right_on (fst kv)) r)"

definition missing_part :: "frame \<Rightarrow> frame \<Rightarrow> string \<Rightarrow> string \<Rightarrow> row" where
  "missing_part left right left_on right_on =
     map (\<lambda>c. (suffix_y left right left_on right_on c, NaN))
       (filter (kept left_on right_on) (columns right))"

definition matching_rows :: "frame \<Rightarrow> string \<Rightarrow> cell \<Rightarrow> row list" where
  "matching_rows right right_on v = filter (\<lambda>r. cell_of r right_on = v) (rows right)"

definition merge_row :: "frame \<Rightarrow> frame \<Rightarrow> string \<Rightarrow> string \<Rightarrow> row \<Rightarrow> row list" where
  "merge_row left right left_on right_on l =
     (case matching_rows right right_on (cell_of l left_on) of
        [] \<Rightarrow> [left_part left right left_on right_on l @ missing_part left right left_on right_on]
      | ms \<Rightarrow> map (\<lambda>r. left_part left right left_on right_on l
                         @ right_part left right left_on right_on r) ms)"

definition merge_left :: "frame \<Rightarrow> frame \<Rightarrow> string \<Rightarrow> string \<Rightarrow> frame" where
  "merge_left left right left_on right_on =
     \<lparr>columns = map (suffix_x left right left_on right_on) (columns left)
                 @ map (suffix_y left right left_on right_on)
                     (filter (kept left_on right_on) (columns right)),
      rows = concat (map (merge_row left right left_on right_on) (rows left))\<rparr>"

section \<open>Join on the code (\<^verbatim>\<open>preparar_codigos\<close>, lines 169--204)\<close>

text \<open>
  \<^verbatim>\<open>.str[:6]\<close> on a column of texts; a cell that is no text gives a missing value.
\<close>

definition str_slice6 :: "cell \<Rightarrow> cell" where
  "str_slice6 v = (case v of StrV s \<Rightarrow> StrV (take 6 s) | _ \<Rightarrow> NaN)"

definition count_notna :: "frame \<Rightarrow> string \<Rightarrow> nat" where
  "count_notna df c = length (filter (\<lambda>r. notna (cell_of r c)) (rows df))"

definition drop_if_present :: "string \<Rightarrow> frame \<Rightarrow> frame" where
  "drop_if_present c df = (if c \<in> set (columns df) then drop_column c df else df)"

definition key_columns :: "string list" where
  "key_columns = [''__shp_code_digits'', ''__shp_code6'', ''__csv_code_digits'', ''__csv_code6'']"

text \<open>
  The function returns the joined table; the number it prints
  (\<^verbatim>\<open>Casamentos por codigo (6 digitos): {matches}\<close>) is the second component of the
  model's result. Reading a column that the table does not have raises \<^verbatim>\<open>KeyError\<close>.
\<close>

definition with_shp_keys :: "(rat \<Rightarrow> string) \<Rightarrow> frame \<Rightarrow> string \<Rightarrow> frame" where
  "with_shp_keys fr gdf shp_code_col =
     assign ''__shp_code6'' (\<lambda>r. str_slice6 (cell_of r ''__shp_code_digits''))
       (assign ''__shp_code_digits''
          (\<lambda>r. StrV (shp_code_digits fr (cell_of r shp_code_col))) gdf)"

definition with_csv_keys :: "(rat \<Rightarrow> string) \<Rightarrow> frame \<Rightarrow> string \<Rightarrow> frame" where
  "with_csv_keys fr df csv_code_col =
     assign ''__csv_code6'' (\<lambda>r. str_slice6 (cell_of r ''__csv_code_digits''))
       (assign ''__csv_code_digits''
          (\<lambda>r. StrV (csv_code_digits fr (cell_of r csv_code_col))) df)"

definition preparar_codigos ::
  "(rat \<Rightarrow> string) \<Rightarrow> frame \<Rightarrow> frame \<Rightarrow> string \<Rightarrow> string \<Rightarrow> error + (frame \<times> nat)" where
  "preparar_codigos fr gdf df shp_code_col csv_code_col =
     (if shp_code_col \<notin> set (columns gdf) \<or> csv_code_col \<notin> set (columns df) then Inl KeyError
      else
        let merged = merge_left (with_shp_keys fr gdf shp_code_col)
                       (with_csv_keys fr df csv_code_col) ''__shp_code6'' ''__csv_code6'';
            matches = (if ''total_violencia_domestica'' \<in> set (columns merged)
                       then count_notna merged ''total_violencia_domestica'' else 0)
        in Inr (fold drop_if_present key_columns merged, matches))"

section \<open>Join on the name (\<^verbatim>\<open>merge_por_nome\<close>, lines 207--215)\<close>

definition with_nome_norm :: "(rat \<Rightarrow> string) \<Rightarrow> frame \<Rightarrow> string \<Rightarrow> frame" where
  "with_nome_norm fr df name_col =
     assign ''__nome_norm'' (\<lambda>r. StrV (normalizar_nome fr (cell_of r name_col))) df"

definition merge_por_nome ::
  "(rat \<Rightarrow> string) \<Rightarrow> frame \<Rightarrow> frame \<Rightarrow> string \<Rightarrow> error + frame" where
  "merge_por_nome fr gdf df shp_name_col =
     (if shp_name_col \<notin> set (columns gdf) \<or> ''municipio_nome'' \<notin> set (columns df) then Inl KeyError
      else
        let gdf_aux = with_nome_norm fr gdf shp_name_col;
            df_aux = with_nome_norm fr df ''municipio_nome'';
            merged = merge_left gdf_aux df_aux ''__nome_norm'' ''__nome_norm''
        in Inr (drop_if_present ''__nome_norm'' merged))"

section \<open>Choice of the join (\<^verbatim>\<open>main\<close>, lines 229--255)\<close>

text \<open>
  \<^verbatim>\<open>
  shp_code_col = detect_code_column(gdf.columns)
  csv_code_col = "municipio_cod" if "municipio_cod" in df.columns else detect_code_column(df.columns)
  merged = None
  if shp_code_col and csv_code_col:
      merged = preparar_codigos(gdf, df, shp_code_col, csv_code_col)
  if merged is None:
      shp_name_col = detect_name_column(gdf.columns)
      if shp_name_col is None or "municipio_nome" not in df.columns:
          sys.exit(1)
      merged = merge_por_nome(gdf, df, shp_name_col)
  total = len(merged)
  with_data = (merged["total_violencia_domestica"].notna().sum()
               if "total_violencia_domestica" in merged.columns else 0)
  \<close>
  \<open>df\<close> is the table that \<^verbatim>\<open>pivotar_dados_por_ano\<close> returned. The result is the table
  that is written to the output file, with the two numbers of the last message
  (\<^verbatim>\<open>total\<close>, \<^verbatim>\<open>with_data\<close>); \<^verbatim>\<open>sys.exit(1)\<close> is the error \<open>SystemExit\<close>.
\<close>

datatype join_path = ByCode | ByName

definition truthy :: "string option \<Rightarrow> bool" where
  "truthy x = (case x of None \<Rightarrow> False | Some s \<Rightarrow> s \<noteq> [])"

definition csv_code_column :: "frame \<Rightarrow> string option" where
  "csv_code_column df =
     (if ''municipio_cod'' \<in> set (columns df) then Some ''municipio_cod''
      else detect_code_column (columns df))"

definition join_tables ::
  "(rat \<Rightarrow> string) \<Rightarrow> frame \<Rightarrow> frame \<Rightarrow> error + (join_path \<times> frame)" where
  "join_tables fr gdf df =
     (let shp_code_col = detect_code_column (columns gdf);
          csv_code_col = csv_code_column df
      in if truthy shp_code_col \<and> truthy csv_code_col
         then (case preparar_codigos fr gdf df (the shp_code_col) (the csv_code_col) of
                 Inl e \<Rightarrow> Inl e
               | Inr (merged, matches) \<Rightarrow> Inr (ByCode, merged))
         else (case detect_name_column (columns gdf) of
                 None \<Rightarrow> Inl SystemExit
               | Some shp_name_col \<Rightarrow>
                   if ''municipio_nome'' \<notin> set (columns df) then Inl SystemExit
                   else (case merge_por_nome fr gdf df shp_name_col of
                           Inl e \<Rightarrow> Inl e
                         | Inr merged \<Rightarrow> Inr (ByName, merged))))"

definition main_join ::
  "(rat \<Rightarrow> string) \<Rightarrow> frame \<Rightarrow> frame \<Rightarrow> error + (frame \<times> nat \<times> nat)" where
  "main_join fr gdf df =
     (case join_tables fr gdf df of
        Inl e \<Rightarrow> Inl e
      | Inr (path, merged) \<Rightarrow>
          Inr (merged, length (rows merged),
               (if ''total_violencia_domestica'' \<in> set (columns merged)
                then count_notna merged ''total_violencia_domestica'' else 0)))"

section \<open>Grouping and reducing (\<^verbatim>\<open>DataFrame.groupby(...).agg(...)\<close>)\<close>

text \<open>
  \<^verbatim>\<open>df.groupby(by, as_index=False).agg(agg_dict)\<close>: the rows in which a grouping cell
  is missing are left out; there is one output row for each distinct combination of the
  grouping cells, in ascending order; its columns are the grouping columns followed by the
  keys of \<^verbatim>\<open>agg_dict\<close>, each reduced over the rows of the group. The three reducers the
  script names skip missing values: \<^verbatim>\<open>"first"\<close> is the first cell that is not missing,
  \<^verbatim>\<open>"sum"\<close> adds (texts are concatenated, texts and numbers do not add), \<^verbatim>\<open>"mean"\<close>
  divides the sum of the numbers by their count and has no value for texts.

  Numbers sort by value and texts by code point; a column holds one kind of value.
\<close>

definition cell_sort_key :: "cell \<Rightarrow> nat \<times> rat \<times> string" where
  "cell_sort_key v =
     (case v of IntV i \<Rightarrow> (0, of_int i, []) | FltV q \<Rightarrow> (0, q, [])
              | StrV s \<Rightarrow> (1, 0, s) | NaN \<Rightarrow> (2, 0, []))"

definition is_text :: "cell \<Rightarrow> bool" where
  "is_text v = (case v of StrV s \<Rightarrow> True | _ \<Rightarrow> False)"

definition is_int :: "cell \<Rightarrow> bool" where
  "is_int v = (case v of IntV i \<Rightarrow> True | _ \<Rightarrow> False)"

definition text_of :: "cell \<Rightarrow> string" where
  "text_of v = (case v of StrV s \<Rightarrow> s | _ \<Rightarrow> [])"

definition int_of :: "cell \<Rightarrow> int" where
  "int_of v = (case v of IntV i \<Rightarrow> i | _ \<Rightarrow> 0)"

definition rat_of :: "cell \<Rightarrow> rat" where
  "rat_of v = (case v of IntV i \<Rightarrow> of_int i | FltV q \<Rightarrow> q | _ \<Rightarrow> 0)"

datatype reducer = First | Mean | Sum

definition reduce_first :: "cell list \<Rightarrow> cell" where
  "reduce_first cells = (case filter notna cells of [] \<Rightarrow> NaN | v # vs \<Rightarrow> v)"

definition reduce_sum :: "cell list \<Rightarrow> error + cell" where
  "reduce_sum cells =
     (let vs = filter notna cells
      in if vs \<noteq> [] \<and> list_all is_text vs then Inr (StrV (concat (map text_of vs)))
         else if list_ex is_text vs then Inl TypeError
         else if list_all is_int cells then Inr (IntV (sum_list (map int_of cells)))
         else Inr (FltV (sum_list (map rat_of vs))))"

definition reduce_mean :: "cell list \<Rightarrow> error + cell" where
  "reduce_mean cells =
     (let vs = filter notna cells
      in if list_ex is_text vs then Inl TypeError
         else if vs = [] then Inr NaN
         else Inr (FltV (sum_list (map rat_of vs) / of_nat (length vs))))"

definition agg_cell :: "reducer \<Rightarrow> cell list \<Rightarrow> error + cell" where
  "agg_cell f cells =
     (case f of First \<Rightarrow> Inr (reduce_first cells) | Mean \<Rightarrow> reduce_mean cells
              | Sum \<Rightarrow> reduce_sum cells)"

fun agg_row :: "(string \<times> reducer) list \<Rightarrow> row list \<Rightarrow> error + row" where
  "agg_row [] members = Inr []"
| "agg_row ((c, f) # agg_dict) members =
     (case agg_cell f (map (\<lambda>r. cell_of r c) members) of
        Inl e \<Rightarrow> Inl e
      | Inr v \<Rightarrow> (case agg_row agg_dict members of
                    Inl e \<Rightarrow> Inl e
                  | Inr vs \<Rightarrow> Inr ((c, v) # vs)))"

definition key_of :: "string list \<Rightarrow> row \<Rightarrow> cell list" where
  "key_of by r = map (cell_of r) by"

definition group_keys :: "string list \<Rightarrow> row list \<Rightarrow> cell list list" where
  "group_keys by rs =
     sort_key (map cell_sort_key) (remdups (filter (list_all notna) (map (key_of by) rs)))"

fun agg_groups ::
  "string list \<Rightarrow> (string \<times> reducer) list \<Rightarrow> row list \<Rightarrow> cell list list \<Rightarrow> error + row list" where
  "agg_groups by agg_dict rs [] = Inr []"
| "agg_groups by agg_dict rs (k # ks) =
     (case agg_row agg_dict (filter (\<lambda>r. key_of by r = k) rs) of
        Inl e \<Rightarrow> Inl e
      | Inr vs \<Rightarrow> (case agg_groups by agg_dict rs ks of
                     Inl e \<Rightarrow> Inl e
                   | Inr out \<Rightarrow> Inr ((zip by k @ vs) # out)))"

definition groupby_agg ::
  "string list \<Rightarrow> (string \<times> reducer) list \<Rightarrow> frame \<Rightarrow> error + frame" where
  "groupby_agg by agg_dict df =
     (case agg_groups by agg_dict (rows df) (group_keys by (rows df)) of
        Inl e \<Rightarrow> Inl e
      | Inr out \<Rightarrow> Inr \<lparr>columns = by @ map fst agg_dict, rows = out\<rparr>)"

section \<open>Aggregation of one year (\<^verbatim>\<open>agrupar_por_municipio\<close>, lines 149--166)\<close>

text \<open>
  \<^verbatim>\<open>
  if csv_code_col not in df.columns:
      return df.copy()
  agg_dict = {}
  for col in df.columns:
      if col in {csv_code_col, YEAR_COLUMN}:
          continue
      if col == "municipio_nome":
          agg_dict[col] = "first"
      elif pd.api.types.is_numeric_dtype(df[col]):
          agg_dict[col] = "mean" if col in METRIC_MEAN else "sum"
  if not agg_dict:
      return df.drop_duplicates(subset=[csv_code_col])
  return df.groupby(csv_code_col, as_index=False).agg(agg_dict)
  \<close>
  The type of a column is not part of the table model: \<open>numeric col\<close> is the answer of
  \<^verbatim>\<open>pd.api.types.is_numeric_dtype(df[col])\<close>.
\<close>

definition YEAR_COLUMN :: string where
  "YEAR_COLUMN = ''ano''"

definition METRIC_COLUMNS :: "string list" where
  "METRIC_COLUMNS = [''total_violencia_domestica'', ''feminicidios'', ''taxa_feminicidio'']"

definition METRIC_MEAN :: "string list" where
  "METRIC_MEAN = [''taxa_feminicidio'']"

fun agg_dict_of :: "(string \<Rightarrow> bool) \<Rightarrow> string \<Rightarrow> string list \<Rightarrow> (string \<times> reducer) list" where
  "agg_dict_of numeric csv_code_col [] = []"
| "agg_dict_of numeric csv_code_col (col # cols) =
     (if col = csv_code_col \<or> col = YEAR_COLUMN then agg_dict_of numeric csv_code_col cols
      else if col = ''municipio_nome''
        then (col, First) # agg_dict_of numeric csv_code_col cols
      else if numeric col
        then (col, if col \<in> set METRIC_MEAN then Mean else Sum)
               # agg_dict_of numeric csv_code_col cols
      else agg_dict_of numeric csv_code_col cols)"

text \<open>\<^verbatim>\<open>df.drop_duplicates(subset=[c])\<close>: of the rows with the same cell in \<open>c\<close> the first stays.\<close>

fun drop_duplicates_from :: "cell list \<Rightarrow> string \<Rightarrow> row list \<Rightarrow> row list" where
  "drop_duplicates_from seen c [] = []"
| "drop_duplicates_from seen c (r # rs) =
     (if cell_of r c \<in> set seen then drop_duplicates_from seen c rs
      else r # drop_duplicates_from (cell_of r c # seen) c rs)"

definition drop_duplicates :: "string \<Rightarrow> frame \<Rightarrow> frame" where
  "drop_duplicates c df = \<lparr>columns = columns df, rows = drop_duplicates_from [] c (rows df)\<rparr>"

definition agrupar_por_municipio :: "(string \<Rightarrow> bool) \<Rightarrow> frame \<Rightarrow> string \<Rightarrow> error + frame" where
  "agrupar_por_municipio numeric df csv_code_col =
     (if csv_code_col \<notin> set (columns df) then Inr df
      else let agg_dict = agg_dict_of numeric csv_code_col (columns df)
           in if agg_dict = [] then Inr (drop_duplicates csv_code_col df)
              else groupby_agg [csv_code_col] agg_dict df)"

text \<open>
  The aggregation in the words of the specification, for comparison with the loop above:
  the name column passes through by \<^verbatim>\<open>first\<close>, a metric of the mean set is reduced by
  its mean and any other column by its sum; the columns that are reduced are the name
  column and the numeric columns, the code and the year apart.
\<close>

definition configured_reducer :: "string \<Rightarrow> reducer" where
  "configured_reducer col =
     (if col = ''municipio_nome'' then First
      else if col \<in> set METRIC_MEAN then Mean else Sum)"

definition is_aggregated :: "(string \<Rightarrow> bool) \<Rightarrow> string \<Rightarrow> string \<Rightarrow> bool" where
  "is_aggregated numeric csv_code_col col =
     (col \<noteq> csv_code_col \<and> col \<noteq> YEAR_COLUMN \<and> (col = ''municipio_nome'' \<or> numeric col))"

section \<open>Wide table (\<^verbatim>\<open>pivotar_dados_por_ano\<close>, lines 108--146)\<close>

text \<open>
  \<^verbatim>\<open>
  if YEAR_COLUMN not in df.columns or "municipio_cod" not in df.columns:
      anos = sorted(df[YEAR_COLUMN].dropna().unique()) if YEAR_COLUMN in df.columns else None
      return df.copy(), anos
  metrics = [col for col in METRIC_COLUMNS if col in df.columns]
  if not metrics:
      anos = sorted(df[YEAR_COLUMN].dropna().unique())
      return df.copy(), anos
  index_cols = ["municipio_cod"]
  if "municipio_nome" in df.columns:
      index_cols.append("municipio_nome")
  agg_dict = {metric: ("mean" if metric in METRIC_MEAN else "sum") for metric in metrics}
  agrupado = df.groupby(index_cols + [YEAR_COLUMN], as_index=False).agg(agg_dict)
  pivot = (agrupado.pivot_table(index=index_cols, columns=YEAR_COLUMN, values=metrics,
                                aggfunc="first").sort_index(axis=1, level=1))
  pivot.columns = [f"{metric}_{int(year)}" for metric, year in pivot.columns]
  pivot = pivot.reset_index()
  anos_disponiveis = sorted(df[YEAR_COLUMN].dropna().unique())
  return pivot, anos_disponiveis
  \<close>
\<close>

definition sorted_years :: "frame \<Rightarrow> cell list" where
  "sorted_years df =
     sort_key cell_sort_key (remdups (filter notna (map (\<lambda>r. cell_of r YEAR_COLUMN) (rows df))))"

text \<open>
  \<^verbatim>\<open>pivot_table(index=..., columns=YEAR_COLUMN, values=metrics, aggfunc="first")\<close> with its
  default \<^verbatim>\<open>dropna=True\<close>: the entries are the rows in which some value is not missing;
  there is one output row for each distinct index of an entry, in ascending order, and one
  column for each pair of a value name and a year of an entry, unless the column would be
  missing in every row. \<^verbatim>\<open>sort_index(axis=1, level=1)\<close> orders the columns by year and,
  for one year, by value name.
\<close>

definition pivot_entries :: "string list \<Rightarrow> frame \<Rightarrow> row list" where
  "pivot_entries metrics agrupado =
     filter (\<lambda>r. list_ex (\<lambda>m. notna (cell_of r m)) metrics) (rows agrupado)"

definition pivot_value :: "string list \<Rightarrow> row list \<Rightarrow> cell list \<Rightarrow> cell \<Rightarrow> string \<Rightarrow> cell" where
  "pivot_value index_cols entries k year metric =
     reduce_first (map (\<lambda>r. cell_of r metric)
       (filter (\<lambda>r. key_of index_cols r = k \<and> cell_of r YEAR_COLUMN = year) entries))"

definition pivot_columns ::
  "string list \<Rightarrow> string list \<Rightarrow> row list \<Rightarrow> (string \<times> cell) list" where
  "pivot_columns index_cols metrics entries =
     concat (map (\<lambda>year.
         map (\<lambda>metric. (metric, year))
           (filter (\<lambda>metric. list_ex (\<lambda>k. notna (pivot_value index_cols entries k year metric))
                               (group_keys index_cols entries))
              (sort metrics)))
       (sort_key cell_sort_key (remdups (map (\<lambda>r. cell_of r YEAR_COLUMN) entries))))"

text \<open>
  Python's \<^verbatim>\<open>int(year)\<close>: a float is cut towards zero; a text must be an optional sign and
  decimal digits, between optional blanks (digits may be separated by single underscores).
\<close>

definition int_of_digits :: "string \<Rightarrow> int" where
  "int_of_digits ds = foldl (\<lambda>n c. 10 * n + (of_char c - 48)) 0 (filter is_digit ds)"

fun digits_with_underscores :: "bool \<Rightarrow> string \<Rightarrow> bool" where
  "digits_with_underscores after_digit [] = after_digit"
| "digits_with_underscores after_digit (c # cs) =
     (if is_digit c then digits_with_underscores True cs
      else c = CHR ''_'' \<and> after_digit \<and> digits_with_underscores False cs)"

definition is_blank :: "char \<Rightarrow> bool" where
  "is_blank c = (is_space c \<or> c = CHR 0x85 \<or> c = CHR 0xA0)"

definition py_strip :: "string \<Rightarrow> string" where
  "py_strip s = rev (dropWhile is_blank (rev (dropWhile is_blank s)))"

definition int_of_text :: "string \<Rightarrow> error + int" where
  "int_of_text s =
     (let t = py_strip s;
          negative = (t \<noteq> [] \<and> hd t = CHR ''-'');
          ds = (if t \<noteq> [] \<and> (hd t = CHR ''-'' \<or> hd t = CHR ''+'') then tl t else t)
      in if digits_with_underscores False ds
         then Inr (if negative then - int_of_digits ds else int_of_digits ds)
         else Inl ValueError)"

definition py_int :: "cell \<Rightarrow> error + int" where
  "py_int v =
     (case v of
        IntV i \<Rightarrow> Inr i
      | FltV q \<Rightarrow> Inr (if 0 \<le> q then \<lfloor>q\<rfloor> else \<lceil>q\<rceil>)
      | StrV s \<Rightarrow> int_of_text s
      | NaN \<Rightarrow> Inl ValueError)"

fun column_labels :: "(string \<times> cell) list \<Rightarrow> error + string list" where
  "column_labels [] = Inr []"
| "column_labels ((metric, year) # cols) =
     (case py_int year of
        Inl e \<Rightarrow> Inl e
      | Inr y \<Rightarrow> (case column_labels cols of
                    Inl e \<Rightarrow> Inl e
                  | Inr ls \<Rightarrow> Inr ((metric @ ''_'' @ str_of_int y) # ls)))"

definition pivot_table :: "string list \<Rightarrow> string list \<Rightarrow> frame \<Rightarrow> error + frame" where
  "pivot_table index_cols metrics agrupado =
     (let entries = pivot_entries metrics agrupado;
          cols = pivot_columns index_cols metrics entries
      in case column_labels cols of
           Inl e \<Rightarrow> Inl e
         | Inr labels \<Rightarrow>
             Inr \<lparr>columns = index_cols @ labels,
                  rows = map (\<lambda>k. zip index_cols k
                                  @ zip labels (map (\<lambda>(metric, year).
                                      pivot_value index_cols entries k year metric) cols))
                           (group_keys index_cols entries)\<rparr>)"

definition pivotar_dados_por_ano :: "frame \<Rightarrow> error + (frame \<times> cell list option)" where
  "pivotar_dados_por_ano df =
     (if YEAR_COLUMN \<notin> set (columns df) \<or> ''municipio_cod'' \<notin> set (columns df)
      then Inr (df, if YEAR_COLUMN \<in> set (columns df) then Some (sorted_years df) else None)
      else
        let metrics = filter (\<lambda>col. col \<in> set (columns df)) METRIC_COLUMNS
        in if metrics = [] then Inr (df, Some (sorted_years df))
           else
             let index_cols = [''municipio_cod'']
                   @ (if ''municipio_nome'' \<in> set (columns df) then [''municipio_nome''] else []);
                 agg_dict = map (\<lambda>metric. (metric, if metric \<in> set METRIC_MEAN then Mean else Sum))
                              metrics
             in case groupby_agg (index_cols @ [YEAR_COLUMN]) agg_dict df of
                  Inl e \<Rightarrow> Inl e
                | Inr agrupado \<Rightarrow>
                    (case pivot_table index_cols metrics agrupado of
                       Inl e \<Rightarrow> Inl e
                     | Inr pivot \<Rightarrow> Inr (pivot, Some (sorted_years df))))"

text \<open>A cell that holds a number.\<close>

definition is_number :: "cell \<Rightarrow> bool" where
  "is_number v = (case v of IntV i \<Rightarrow> True | FltV q \<Rightarrow> True | _ \<Rightarrow> False)"

section \<open>The left join of the specification\<close>

text \<open>
  The join as the specification describes it, for comparison with the code: every row
  of the left table, in order, followed by the cells of each right row whose key equals
  its own, or by missing values in the right columns when no right row has its key.
\<close>

definition reference_left_join ::
  "(row \<Rightarrow> string) \<Rightarrow> (row \<Rightarrow> string) \<Rightarrow> frame \<Rightarrow> frame \<Rightarrow> frame" where
  "reference_left_join left_key right_key left right =
     \<lparr>columns = columns left @ columns right,
      rows = concat (map (\<lambda>l.
               case filter (\<lambda>r. right_key r = left_key l) (rows right) of
                 [] \<Rightarrow> [l @ map (\<lambda>c. (c, NaN)) (columns right)]
               | ms \<Rightarrow> map (\<lambda>r. l @ r) ms) (rows left))\<rparr>"

section \<open>Example tables\<close>

text \<open>
  One feature and a table that reports its municipality twice (as a long table does, one
  row per year); a feature and a record whose code and name are both missing.
\<close>

definition feature_bh :: frame where
  "feature_bh =
     \<lparr>columns = [''CD_MUN'', ''NM_MUN'', ''geometry''],
      rows = [[(''CD_MUN'', StrV ''3106200''), (''NM_MUN'', StrV ''Belo Horizonte''),
               (''geometry'', StrV ''POLYGON 1'')]]\<rparr>"

definition table_bh_twice :: frame where
  "table_bh_twice =
     \<lparr>columns = [''municipio_cod'', ''municipio_nome'', ''total_violencia_domestica''],
      rows = [[(''municipio_cod'', IntV 310620), (''municipio_nome'', StrV ''BELO HORIZONTE''),
               (''total_violencia_domestica'', IntV 10)],
              [(''municipio_cod'', IntV 310620), (''municipio_nome'', StrV ''belo  horizonte''),
               (''total_violencia_domestica'', IntV 15)]]\<rparr>"

definition table_bh_once :: frame where
  "table_bh_once =
     \<lparr>columns = [''municipio_cod'', ''municipio_nome'', ''total_violencia_domestica''],
      rows = [[(''municipio_cod'', IntV 310620), (''municipio_nome'', StrV ''BELO HORIZONTE''),
               (''total_violencia_domestica'', IntV 10)]]\<rparr>"

definition feature_unknown :: frame where
  "feature_unknown =
     \<lparr>columns = [''CD_MUN'', ''NM_MUN'', ''geometry''],
      rows = [[(''CD_MUN'', NaN), (''NM_MUN'', NaN), (''geometry'', StrV ''POLYGON 2'')]]\<rparr>"

definition table_unknown :: frame where
  "table_unknown =
     \<lparr>columns = [''municipio_cod'', ''municipio_nome'', ''total_violencia_domestica''],
      rows = [[(''municipio_cod'', NaN), (''municipio_nome'', NaN),
               (''total_violencia_domestica'', IntV 7)]]\<rparr>"

text \<open>A feature collection without a code column, and one without code and name.\<close>

definition feature_names_only :: frame where
  "feature_names_only =
     \<lparr>columns = [''NM_MUN'', ''geometry''],
      rows = [[(''NM_MUN'', StrV ''Belo Horizonte''), (''geometry'', StrV ''POLYGON 1'')]]\<rparr>"

definition feature_bare :: frame where
  "feature_bare =
     \<lparr>columns = [''geometry''], rows = [[(''geometry'', StrV ''POLYGON 1'')]]\<rparr>"

text \<open>
  The three spellings of claim C4: \<^verbatim>\<open>Sao Joao del-Rei\<close> with a tilde on the \<^verbatim>\<open>a\<close> of
  \<^verbatim>\<open>Sao\<close> and on the \<^verbatim>\<open>a\<close> of \<^verbatim>\<open>Joao\<close> (a with tilde is code point 0xE3),
  \<^verbatim>\<open>sao joao del rei\<close>, and \<^verbatim>\<open>SAO JOAO DEL REI\<close> with the two tildes (A with tilde is
  code point 0xC3); and the first spelling without its hyphen.
\<close>

definition name_accented :: string where
  "name_accented = ''S'' @ [CHR 0xE3] @ ''o Jo'' @ [CHR 0xE3] @ ''o del-Rei''"

definition name_plain :: string where
  "name_plain = ''sao joao del rei''"

definition name_capitals :: string where
  "name_capitals = ''S'' @ [CHR 0xC3] @ ''O JO'' @ [CHR 0xC3] @ ''O DEL REI''"

definition name_accented_no_hyphen :: string where
  "name_accented_no_hyphen = ''S'' @ [CHR 0xE3] @ ''o Jo'' @ [CHR 0xE3] @ ''o del Rei''"

text \<open>
  Tables for the reshaper: a table without code column that holds the same row twice; a
  table with code and year and none of the three metrics.
\<close>

definition table_no_code :: frame where
  "table_no_code =
     \<lparr>columns = [''municipio_nome'', ''total_violencia_domestica''],
      rows = [[(''municipio_nome'', StrV ''Belo Horizonte''),
               (''total_violencia_domestica'', IntV 10)],
              [(''municipio_nome'', StrV ''Belo Horizonte''),
               (''total_violencia_domestica'', IntV 10)]]\<rparr>"

definition numeric_no_code :: "string \<Rightarrow> bool" where
  "numeric_no_code col = (col = ''total_violencia_domestica'')"

definition table_code_only :: frame where
  "table_code_only =
     \<lparr>columns = [''municipio_cod'', ''fonte''],
      rows = [[(''municipio_cod'', StrV ''310620''), (''fonte'', StrV ''SSP'')],
              [(''municipio_cod'', StrV ''317020''), (''fonte'', StrV ''SSP'')],
              [(''municipio_cod'', StrV ''310620''), (''fonte'', StrV ''PC'')]]\<rparr>"

definition numeric_none :: "string \<Rightarrow> bool" where
  "numeric_none col = False"

definition table_no_metrics :: frame where
  "table_no_metrics =
     \<lparr>columns = [''municipio_cod'', ''ano'', ''populacao''],
      rows = [[(''municipio_cod'', IntV 310620), (''ano'', IntV 2023), (''populacao'', IntV 2315560)],
              [(''municipio_cod'', IntV 310620), (''ano'', IntV 2022), (''populacao'', IntV 2315560)],
              [(''municipio_cod'', IntV 317020), (''ano'', IntV 2023), (''populacao'', IntV 713224)]]\<rparr>"

text \<open>
  Two rows for one municipality and one year (the rate 2.0 and 4.0, the count 10 and 15),
  with a text column that is not reduced.
\<close>

definition table_one_year :: frame where
  "table_one_year =
     \<lparr>columns = [''municipio_cod'', ''municipio_nome'', ''ano'', ''taxa_feminicidio'',
                 ''total_violencia_domestica'', ''fonte''],
      rows = [[(''municipio_cod'', IntV 310620), (''municipio_nome'', StrV ''Belo Horizonte''),
               (''ano'', IntV 2022), (''taxa_feminicidio'', FltV 2),
               (''total_violencia_domestica'', IntV 10), (''fonte'', StrV ''SSP'')],
              [(''municipio_cod'', IntV 310620), (''municipio_nome'', StrV ''BELO HORIZONTE''),
               (''ano'', IntV 2022), (''taxa_feminicidio'', FltV 4),
               (''total_violencia_domestica'', IntV 15), (''fonte'', StrV ''SSP'')]]\<rparr>"

definition numeric_one_year :: "string \<Rightarrow> bool" where
  "numeric_one_year col =
     (col \<in> set [''municipio_cod'', ''ano'', ''taxa_feminicidio'', ''total_violencia_domestica''])"

text \<open>
  Long tables for the wide reshaper: municipality 310620 with 3 \<^verbatim>\<open>feminicidios\<close> in 2022
  and 5 in 2023; the same municipality with two metrics, and a record of 2024 that has no
  code; two municipalities with their names; records in which the name is missing; and
  the first table with a name column in which the municipality is spelled in two ways.
\<close>

definition table_feminicidios :: frame where
  "table_feminicidios =
     \<lparr>columns = [''municipio_cod'', ''ano'', ''feminicidios''],
      rows = [[(''municipio_cod'', IntV 310620), (''ano'', IntV 2022), (''feminicidios'', IntV 3)],
              [(''municipio_cod'', IntV 310620), (''ano'', IntV 2023), (''feminicidios'', IntV 5)]]\<rparr>"

definition table_two_metrics :: frame where
  "table_two_metrics =
     \<lparr>columns = [''municipio_cod'', ''ano'', ''total_violencia_domestica'', ''feminicidios''],
      rows = [[(''municipio_cod'', IntV 310620), (''ano'', IntV 2022),
               (''total_violencia_domestica'', IntV 10), (''feminicidios'', IntV 3)],
              [(''municipio_cod'', IntV 310620), (''ano'', IntV 2023),
               (''total_violencia_domestica'', IntV 15), (''feminicidios'', IntV 5)],
              [(''municipio_cod'', NaN), (''ano'', IntV 2024),
               (''total_violencia_domestica'', IntV 1), (''feminicidios'', IntV 7)]]\<rparr>"

definition table_named :: frame where
  "table_named =
     \<lparr>columns = [''municipio_cod'', ''municipio_nome'', ''ano'', ''feminicidios''],
      rows = [[(''municipio_cod'', IntV 310620), (''municipio_nome'', StrV ''Belo Horizonte''),
               (''ano'', IntV 2022), (''feminicidios'', IntV 3)],
              [(''municipio_cod'', IntV 317020), (''municipio_nome'', StrV ''Uberlandia''),
               (''ano'', IntV 2022), (''feminicidios'', IntV 7)],
              [(''municipio_cod'', IntV 310620), (''municipio_nome'', StrV ''Belo Horizonte''),
               (''ano'', IntV 2023), (''feminicidios'', IntV 5)]]\<rparr>"

definition table_missing_name :: frame where
  "table_missing_name =
     \<lparr>columns = [''municipio_cod'', ''municipio_nome'', ''ano'', ''feminicidios''],
      rows = [[(''municipio_cod'', IntV 310620), (''municipio_nome'', StrV ''Belo Horizonte''),
               (''ano'', IntV 2022), (''feminicidios'', IntV 3)],
              [(''municipio_cod'', IntV 310620), (''municipio_nome'', NaN),
               (''ano'', IntV 2022), (''feminicidios'', IntV 5)],
              [(''municipio_cod'', IntV 317020), (''municipio_nome'', NaN),
               (''ano'', IntV 2022), (''feminicidios'', IntV 7)]]\<rparr>"

definition table_two_spellings :: frame where
  "table_two_spellings =
     \<lparr>columns = [''municipio_cod'', ''municipio_nome'', ''ano'', ''feminicidios''],
      rows = [[(''municipio_cod'', IntV 310620), (''municipio_nome'', StrV ''Belo Horizonte''),
               (''ano'', IntV 2022), (''feminicidios'', IntV 3)],
              [(''municipio_cod'', IntV 310620), (''municipio_nome'', StrV ''BELO HORIZONTE''),
               (''ano'', IntV 2023), (''feminicidios'', IntV 5)]]\<rparr>"

section \<open>Properties of code normalization\<close>

lemma zfill_digits:
  assumes "\<forall>c\<in>set s. is_digit c"
  shows "zfill w s = replicate (w - length s) CHR ''0'' @ s"
proof (cases s)
  case Nil
  then show ?thesis by (simp add: zfill_def)
next
  case (Cons c cs)
  with assms have "is_digit c" by simp
  then have "c \<noteq> CHR ''+''" "c \<noteq> CHR ''-''" by (auto simp: is_digit_def)
  with Cons show ?thesis by (simp add: zfill_def)
qed

lemma digits_only_filter: "\<forall>c\<in>set s. is_digit c \<Longrightarrow> filter is_digit s = s"
  by (induction s) auto

lemma shp_code_digits_of_digits:
  "\<forall>c\<in>set s. is_digit c \<Longrightarrow>
     shp_code_digits fr (StrV s) = replicate (7 - length s) CHR ''0'' @ s"
  by (simp add: shp_code_digits_def astype_str_def str_replace_non_digits_def
      fillna_empty_def digits_only_filter zfill_digits)

lemma csv_code_digits_of_digits:
  "\<forall>c\<in>set s. is_digit c \<Longrightarrow>
     csv_code_digits fr (StrV s) = replicate (6 - length s) CHR ''0'' @ s"
  by (simp add: csv_code_digits_def astype_str_def str_replace_non_digits_def
      fillna_empty_def digits_only_filter zfill_digits)

lemma code_digits_unfold:
  "shp_code_digits fr v = zfill 7 (filter is_digit (py_str fr v))"
  "csv_code_digits fr v = zfill 6 (filter is_digit (py_str fr v))"
  by (simp_all add: shp_code_digits_def csv_code_digits_def astype_str_def
      str_replace_non_digits_def fillna_empty_def)

lemma length_zfill: "w \<le> length (zfill w s)"
  by (auto simp: zfill_def split: list.splits)

lemma shp_code6_length: "length (shp_code6 fr v) = 6"
proof -
  have "7 \<le> length (shp_code_digits fr v)"
    unfolding code_digits_unfold by (rule length_zfill)
  then show ?thesis by (simp add: shp_code6_def)
qed

lemma csv_code6_length: "length (csv_code6 fr v) = 6"
proof -
  have "6 \<le> length (csv_code_digits fr v)"
    unfolding code_digits_unfold by (rule length_zfill)
  then show ?thesis by (simp add: csv_code6_def)
qed

lemma code6_of_missing:
  "shp_code6 fr NaN = ''000000''" "csv_code6 fr NaN = ''000000''"
  by (simp_all add: shp_code6_def csv_code6_def code_digits_unfold zfill_def is_digit_def
      eval_nat_numeral)

lemma code6_examples:
  "shp_code6 fr (StrV ''3106200'') = ''310620''"
  "csv_code6 fr (StrV ''310620'') = ''310620''"
  "csv_code6 fr (StrV ''31062'') = ''031062''"
  "shp_code6 fr (IntV 3106200) = ''310620''"
  "csv_code6 fr (IntV 310620) = ''310620''"
  "csv_code6 fr (IntV 31062) = ''031062''"
  by (simp_all add: shp_code6_def csv_code6_def code_digits_unfold zfill_def is_digit_def
      str_of_int_def digit_char_def)

text \<open>
  Claim C2, as the code has it. Both keys are the digits of the value, padded on the
  left with zeros (to 7 on the geometry side, to 6 on the tabular side) and cut after 6
  characters, so that each key has exactly 6 characters. A geometry code of 7 digits and a tabular code of digits with the same
  first 6 digits get the same key, whatever the 7th digit is: \<^verbatim>\<open>3106200\<close> and
  \<^verbatim>\<open>310620\<close> both give \<^verbatim>\<open>310620\<close>. The padding is on the left, so the 5-digit tabular
  code \<^verbatim>\<open>31062\<close> gives \<^verbatim>\<open>031062\<close>.
\<close>

theorem code_keys_agree_on_first_six:
  assumes "length g = 7" and "\<forall>c\<in>set g. is_digit c" and "\<forall>c\<in>set t. is_digit c"
    and "take 6 t = take 6 g"
  shows "shp_code6 fr v = take 6 (zfill 7 (filter is_digit (py_str fr v)))
       \<and> csv_code6 fr v = take 6 (zfill 6 (filter is_digit (py_str fr v)))
       \<and> length (shp_code6 fr v) = 6 \<and> length (csv_code6 fr v) = 6
       \<and> shp_code6 fr (StrV g) = take 6 g \<and> csv_code6 fr (StrV t) = take 6 g
       \<and> shp_code6 fr (StrV ''3106200'') = ''310620''
       \<and> csv_code6 fr (StrV ''310620'') = ''310620''
       \<and> csv_code6 fr (StrV ''31062'') = ''031062''"
proof -
  have "length (take 6 t) = length (take 6 g)"
    using assms(4) by simp
  with assms(1) have "6 \<le> length t"
    by simp
  with assms have "shp_code6 fr (StrV g) = take 6 g \<and> csv_code6 fr (StrV t) = take 6 g"
    by (simp add: shp_code6_def csv_code6_def shp_code_digits_of_digits
        csv_code_digits_of_digits)
  then show ?thesis
    by (simp add: code6_examples shp_code6_length csv_code6_length)
      (simp add: shp_code6_def csv_code6_def code_digits_unfold)
qed

theorem code_keys_agree_on_first_six_witness:
  "shp_code6 repr_integral (StrV ''3106207'') = ''310620''
   \<and> csv_code6 repr_integral (StrV ''3106201'') = ''310620''"
proof -
  have digits: "\<forall>c\<in>set ''3106207''. is_digit c" "\<forall>c\<in>set ''3106201''. is_digit c"
    by (simp_all add: is_digit_def)
  show ?thesis
    using code_keys_agree_on_first_six [of "''3106207''" "''3106201''" repr_integral NaN]
      digits by simp
qed

theorem short_tabular_code_pads_left:
  "csv_code6 repr_integral (StrV ''31062'') \<noteq> ''310620''
   \<and> csv_code6 repr_integral (StrV ''31062'') \<noteq> shp_code6 repr_integral (StrV ''3106200'')"
  by (simp add: code6_examples)

section \<open>Properties of the table operations\<close>

lemma cell_of_set_cell_same: "cell_of (set_cell c v r) c = v"
  by (induction r) (auto simp: cell_of_def)

lemma fst_set_cell:
  "map fst (set_cell c v r) = (if c \<in> set (map fst r) then map fst r else map fst r @ [c])"
  by (induction r) (auto split: if_splits)

lemma set_cell_fresh: "c \<notin> set (map fst r) \<Longrightarrow> set_cell c v r = r @ [(c, v)]"
  by (induction r) auto

lemma wf_assign: "wf_frame df \<Longrightarrow> wf_frame (assign c f df)"
  by (auto simp: wf_frame_def assign_def fst_set_cell)

lemma fst_filter_column: "map fst (filter (\<lambda>kv. fst kv \<noteq> c) r) = removeAll c (map fst r)"
  by (induction r) auto

lemma wf_drop_column: "wf_frame df \<Longrightarrow> wf_frame (drop_column c df)"
  by (auto simp: wf_frame_def drop_column_def fst_filter_column)

lemma wf_drop_if_present: "wf_frame df \<Longrightarrow> wf_frame (drop_if_present c df)"
  by (simp add: drop_if_present_def wf_drop_column)

lemma filter_absent_column: "c \<notin> set (map fst r) \<Longrightarrow> filter (\<lambda>kv. fst kv \<noteq> c) r = r"
  by (induction r) auto

lemma drop_if_present_wf:
  assumes "wf_frame df"
  shows "drop_if_present c df = drop_column c df"
proof (cases "c \<in> set (columns df)")
  case True
  then show ?thesis by (simp add: drop_if_present_def)
next
  case False
  have "map (filter (\<lambda>kv. fst kv \<noteq> c)) (rows df) = rows df"
  proof (rule map_idI)
    fix r assume "r \<in> set (rows df)"
    with assms have "map fst r = columns df" by (simp add: wf_frame_def)
    with False show "filter (\<lambda>kv. fst kv \<noteq> c) r = r"
      by (simp add: filter_absent_column)
  qed
  with False show ?thesis
    by (simp add: drop_if_present_def drop_column_def)
qed

lemma fold_drop_if_present:
  "wf_frame df \<Longrightarrow>
   fold drop_if_present cs df =
     \<lparr>columns = filter (\<lambda>c. c \<notin> set cs) (columns df),
      rows = map (filter (\<lambda>kv. fst kv \<notin> set cs)) (rows df)\<rparr>"
proof (induction cs arbitrary: df)
  case Nil
  then show ?case by simp
next
  case (Cons c cs)
  have "wf_frame (drop_column c df)" using Cons.prems by (rule wf_drop_column)
  then have "fold drop_if_present cs (drop_column c df) =
     \<lparr>columns = filter (\<lambda>c. c \<notin> set cs) (columns (drop_column c df)),
      rows = map (filter (\<lambda>kv. fst kv \<notin> set cs)) (rows (drop_column c df))\<rparr>"
    by (rule Cons.IH)
  then show ?case
    using Cons.prems
    by (auto simp: drop_if_present_wf drop_column_def removeAll_filter_not_eq
        intro!: filter_cong)
qed

lemma length_rows_fold_drop: "length (rows (fold drop_if_present cs df)) = length (rows df)"
  by (induction cs arbitrary: df) (auto simp: drop_if_present_def drop_column_def)

lemma length_merge_row:
  "length (merge_row L R a b l) = max 1 (length (matching_rows R b (cell_of l a)))"
  by (simp add: merge_row_def split: list.splits)

lemma length_rows_merge_left:
  "length (rows (merge_left L R a b)) =
     sum_list (map (\<lambda>l. max 1 (length (matching_rows R b (cell_of l a)))) (rows L))"
  by (simp add: merge_left_def length_concat comp_def length_merge_row)

lemma fst_left_part: "map fst (left_part L R a b l) = map (suffix_x L R a b) (map fst l)"
  by (simp add: left_part_def comp_def)

lemma fst_right_part:
  "map fst (right_part L R a b r) = map (suffix_y L R a b) (filter (kept a b) (map fst r))"
  by (simp add: right_part_def comp_def filter_map)

lemma fst_missing_part:
  "map fst (missing_part L R a b) = map (suffix_y L R a b) (filter (kept a b) (columns R))"
  by (simp add: missing_part_def comp_def)

lemma fst_merge_row:
  assumes "map fst l = columns L" and "\<forall>r\<in>set (rows R). map fst r = columns R"
    and "m \<in> set (merge_row L R a b l)"
  shows "map fst m = columns (merge_left L R a b)"
proof (cases "matching_rows R b (cell_of l a)")
  case Nil
  with assms(3) have "m = left_part L R a b l @ missing_part L R a b"
    by (simp add: merge_row_def)
  with assms(1) show ?thesis
    by (simp add: fst_left_part fst_missing_part merge_left_def)
next
  case (Cons x xs)
  with assms(3) obtain r where r: "r \<in> set (matching_rows R b (cell_of l a))"
    and m: "m = left_part L R a b l @ right_part L R a b r"
    by (auto simp: merge_row_def)
  from r assms(2) have "map fst r = columns R"
    by (simp add: matching_rows_def)
  with m assms(1) show ?thesis
    by (simp add: fst_left_part fst_right_part merge_left_def)
qed

lemma wf_merge_left:
  assumes "wf_frame L" and "wf_frame R"
  shows "wf_frame (merge_left L R a b)"
  unfolding wf_frame_def
proof
  fix m assume "m \<in> set (rows (merge_left L R a b))"
  then obtain l where "l \<in> set (rows L)" and "m \<in> set (merge_row L R a b l)"
    by (auto simp: merge_left_def)
  with assms show "map fst m = columns (merge_left L R a b)"
    by (intro fst_merge_row) (auto simp: wf_frame_def)
qed

section \<open>Row counts of the two joins\<close>

lemma rows_with_shp_keys:
  "rows (with_shp_keys fr gdf s) =
     map (\<lambda>l. set_cell ''__shp_code6'' (StrV (shp_code6 fr (cell_of l s)))
                (set_cell ''__shp_code_digits'' (StrV (shp_code_digits fr (cell_of l s))) l))
       (rows gdf)"
  by (simp add: with_shp_keys_def assign_def cell_of_set_cell_same str_slice6_def
      shp_code6_def comp_def)

lemma rows_with_csv_keys:
  "rows (with_csv_keys fr df c) =
     map (\<lambda>r. set_cell ''__csv_code6'' (StrV (csv_code6 fr (cell_of r c)))
                (set_cell ''__csv_code_digits'' (StrV (csv_code_digits fr (cell_of r c))) r))
       (rows df)"
  by (simp add: with_csv_keys_def assign_def cell_of_set_cell_same str_slice6_def
      csv_code6_def comp_def)

lemma rows_with_nome_norm:
  "rows (with_nome_norm fr df n) =
     map (\<lambda>r. set_cell ''__nome_norm'' (StrV (normalizar_nome fr (cell_of r n))) r) (rows df)"
  by (simp add: with_nome_norm_def assign_def)

lemma length_matching_csv_keys:
  "length (matching_rows (with_csv_keys fr df c) ''__csv_code6'' (StrV k)) =
     length (filter (\<lambda>r. csv_code6 fr (cell_of r c) = k) (rows df))"
  by (simp add: matching_rows_def rows_with_csv_keys filter_map comp_def cell_of_set_cell_same)

lemma length_matching_nome_norm:
  "length (matching_rows (with_nome_norm fr df n) ''__nome_norm'' (StrV k)) =
     length (filter (\<lambda>r. normalizar_nome fr (cell_of r n) = k) (rows df))"
  by (simp add: matching_rows_def rows_with_nome_norm filter_map comp_def cell_of_set_cell_same)

lemma length_rows_drop_if_present: "length (rows (drop_if_present c df)) = length (rows df)"
  by (simp add: drop_if_present_def drop_column_def)

lemma preparar_codigos_length:
  assumes "s \<in> set (columns gdf)" and "c \<in> set (columns df)"
  shows "\<exists>m k. preparar_codigos fr gdf df s c = Inr (m, k) \<and>
           length (rows m) =
             sum_list (map (\<lambda>l. max 1 (length (filter
                 (\<lambda>r. csv_code6 fr (cell_of r c) = shp_code6 fr (cell_of l s)) (rows df))))
               (rows gdf))"
  using assms
  by (simp add: preparar_codigos_def Let_def length_rows_fold_drop length_rows_merge_left
      rows_with_shp_keys comp_def cell_of_set_cell_same length_matching_csv_keys)

lemma merge_por_nome_length:
  assumes "n \<in> set (columns gdf)" and "''municipio_nome'' \<in> set (columns df)"
  shows "\<exists>m. merge_por_nome fr gdf df n = Inr m \<and>
           length (rows m) =
             sum_list (map (\<lambda>l. max 1 (length (filter
                 (\<lambda>r. normalizar_nome fr (cell_of r ''municipio_nome'')
                        = normalizar_nome fr (cell_of l n)) (rows df))))
               (rows gdf))"
  using assms
  by (simp add: merge_por_nome_def Let_def length_rows_drop_if_present length_rows_merge_left
      rows_with_nome_norm comp_def cell_of_set_cell_same length_matching_nome_norm)

lemma length_le_sum_max1: "length xs \<le> sum_list (map (\<lambda>x. max 1 (f x)) xs)"
  by (induction xs) auto

lemma distinct_key_filter_le1:
  "distinct (map g ys) \<Longrightarrow> length (filter (\<lambda>y. g y = k) ys) \<le> 1"
proof (induction ys)
  case Nil
  then show ?case by simp
next
  case (Cons y ys)
  show ?case
  proof (cases "g y = k")
    case True
    with Cons.prems have "k \<notin> g ` set ys" by simp
    then have "\<forall>z\<in>set ys. g z \<noteq> k" by blast
    then have "filter (\<lambda>y. g y = k) ys = []" by (simp add: filter_empty_conv)
    with True show ?thesis by simp
  next
    case False
    with Cons show ?thesis by simp
  qed
qed

lemma sum_max1_all_le1:
  "(\<And>x. x \<in> set xs \<Longrightarrow> f x \<le> (1::nat)) \<Longrightarrow> sum_list (map (\<lambda>x. max 1 (f x)) xs) = length xs"
proof (induction xs)
  case Nil
  then show ?case by simp
next
  case (Cons x xs)
  have "f x \<le> 1" using Cons.prems by simp
  then have "max 1 (f x) = 1" by simp
  moreover have "sum_list (map (\<lambda>x. max 1 (f x)) xs) = length xs"
    using Cons by simp
  ultimately show ?case by simp
qed

section \<open>The joins when no column name clashes\<close>

lemma merge_left_no_overlap:
  assumes "\<And>c. \<not> overlapping L R a b c"
  shows "merge_left L R a b =
    \<lparr>columns = columns L @ filter (kept a b) (columns R),
     rows = concat (map (\<lambda>l.
              case matching_rows R b (cell_of l a) of
                [] \<Rightarrow> [l @ map (\<lambda>c. (c, NaN)) (filter (kept a b) (columns R))]
              | ms \<Rightarrow> map (\<lambda>r. l @ filter (\<lambda>kv. kept a b (fst kv)) r) ms) (rows L))\<rparr>"
proof -
  have sx: "suffix_x L R a b = (\<lambda>c. c)" and sy: "suffix_y L R a b = (\<lambda>c. c)"
    using assms by (auto simp: suffix_x_def suffix_y_def)
  have "merge_row L R a b = (\<lambda>l.
              case matching_rows R b (cell_of l a) of
                [] \<Rightarrow> [l @ map (\<lambda>c. (c, NaN)) (filter (kept a b) (columns R))]
              | ms \<Rightarrow> map (\<lambda>r. l @ filter (\<lambda>kv. kept a b (fst kv)) r) ms)"
    by (rule ext) (simp add: merge_row_def left_part_def right_part_def missing_part_def sx sy
        cong: list.case_cong)
  then show ?thesis
    by (simp add: merge_left_def sx sy)
qed

lemma with_shp_keys_fresh:
  assumes "wf_frame gdf" and "''__shp_code_digits'' \<notin> set (columns gdf)"
    and "''__shp_code6'' \<notin> set (columns gdf)"
  shows "with_shp_keys fr gdf s =
    \<lparr>columns = columns gdf @ [''__shp_code_digits'', ''__shp_code6''],
     rows = map (\<lambda>l. l @ [(''__shp_code_digits'', StrV (shp_code_digits fr (cell_of l s))),
                            (''__shp_code6'', StrV (shp_code6 fr (cell_of l s)))]) (rows gdf)\<rparr>"
proof -
  have "\<And>l. l \<in> set (rows gdf) \<Longrightarrow>
      set_cell ''__shp_code6'' (StrV (shp_code6 fr (cell_of l s)))
                (set_cell ''__shp_code_digits'' (StrV (shp_code_digits fr (cell_of l s))) l)
      = l @ [(''__shp_code_digits'', StrV (shp_code_digits fr (cell_of l s))),
                            (''__shp_code6'', StrV (shp_code6 fr (cell_of l s)))]"
    using assms by (simp add: wf_frame_def set_cell_fresh)
  then have "rows (with_shp_keys fr gdf s) = map (\<lambda>l. l @ [(''__shp_code_digits'', StrV (shp_code_digits fr (cell_of l s))),
                            (''__shp_code6'', StrV (shp_code6 fr (cell_of l s)))]) (rows gdf)"
    by (simp add: rows_with_shp_keys)
  moreover have "columns (with_shp_keys fr gdf s) = columns gdf @ [''__shp_code_digits'', ''__shp_code6'']"
    using assms by (simp add: with_shp_keys_def assign_def)
  ultimately show ?thesis by simp
qed


lemma with_csv_keys_fresh:
  assumes "wf_frame df" and "''__csv_code_digits'' \<notin> set (columns df)"
    and "''__csv_code6'' \<notin> set (columns df)"
  shows "with_csv_keys fr df c =
    \<lparr>columns = columns df @ [''__csv_code_digits'', ''__csv_code6''],
     rows = map (\<lambda>r. r @ [(''__csv_code_digits'', StrV (csv_code_digits fr (cell_of r c))),
                            (''__csv_code6'', StrV (csv_code6 fr (cell_of r c)))]) (rows df)\<rparr>"
proof -
  have "\<And>r. r \<in> set (rows df) \<Longrightarrow>
      set_cell ''__csv_code6'' (StrV (csv_code6 fr (cell_of r c)))
                (set_cell ''__csv_code_digits'' (StrV (csv_code_digits fr (cell_of r c))) r)
      = r @ [(''__csv_code_digits'', StrV (csv_code_digits fr (cell_of r c))),
                            (''__csv_code6'', StrV (csv_code6 fr (cell_of r c)))]"
    using assms by (simp add: wf_frame_def set_cell_fresh)
  then have "rows (with_csv_keys fr df c) =
      map (\<lambda>r. r @ [(''__csv_code_digits'', StrV (csv_code_digits fr (cell_of r c))),
                            (''__csv_code6'', StrV (csv_code6 fr (cell_of r c)))]) (rows df)"
    by (simp add: rows_with_csv_keys)
  moreover have "columns (with_csv_keys fr df c) =
      columns df @ [''__csv_code_digits'', ''__csv_code6'']"
    using assms by (simp add: with_csv_keys_def assign_def)
  ultimately show ?thesis by simp
qed

lemma cell_of_filter_other:
  "c \<notin> S \<Longrightarrow> cell_of (filter (\<lambda>kv. fst kv \<notin> S) r) c = cell_of r c"
  by (induction r) (auto simp: cell_of_def)

lemma cell_of_absent: "c \<notin> set (map fst r) \<Longrightarrow> cell_of r c = NaN"
  by (induction r) (auto simp: cell_of_def)

lemma count_notna_absent:
  assumes "wf_frame df" and "c \<notin> set (columns df)"
  shows "count_notna df c = 0"
proof -
  have "\<And>r. r \<in> set (rows df) \<Longrightarrow> cell_of r c = NaN"
    using assms by (simp add: wf_frame_def cell_of_absent)
  then show ?thesis
    by (simp add: count_notna_def notna_def filter_empty_conv)
qed

lemma count_notna_fold_drop:
  assumes "wf_frame df" and "c \<notin> set cs"
  shows "count_notna (fold drop_if_present cs df) c = count_notna df c"
  using assms
  by (simp add: fold_drop_if_present count_notna_def filter_map comp_def cell_of_filter_other)

lemma wf_with_shp_keys: "wf_frame gdf \<Longrightarrow> wf_frame (with_shp_keys fr gdf s)"
  by (simp add: with_shp_keys_def wf_assign)

lemma wf_with_csv_keys: "wf_frame df \<Longrightarrow> wf_frame (with_csv_keys fr df c)"
  by (simp add: with_csv_keys_def wf_assign)

lemma wf_with_nome_norm: "wf_frame df \<Longrightarrow> wf_frame (with_nome_norm fr df c)"
  by (simp add: with_nome_norm_def wf_assign)

lemma preparar_codigos_result:
  assumes "wf_frame gdf" and "wf_frame df"
    and "s \<in> set (columns gdf)" and "c \<in> set (columns df)"
  shows "preparar_codigos fr gdf df s c =
     Inr (fold drop_if_present key_columns
            (merge_left (with_shp_keys fr gdf s) (with_csv_keys fr df c)
               ''__shp_code6'' ''__csv_code6''),
          count_notna (fold drop_if_present key_columns
            (merge_left (with_shp_keys fr gdf s) (with_csv_keys fr df c)
               ''__shp_code6'' ''__csv_code6'')) ''total_violencia_domestica'')"
proof -
  let ?merged = "merge_left (with_shp_keys fr gdf s) (with_csv_keys fr df c)
               ''__shp_code6'' ''__csv_code6''"
  have wf: "wf_frame ?merged"
    using assms by (simp add: wf_merge_left wf_with_shp_keys wf_with_csv_keys)
  have "''total_violencia_domestica'' \<notin> set key_columns"
    by (simp add: key_columns_def)
  with wf have "count_notna (fold drop_if_present key_columns ?merged) ''total_violencia_domestica''
      = count_notna ?merged ''total_violencia_domestica''"
    by (rule count_notna_fold_drop)
  moreover have "(if ''total_violencia_domestica'' \<in> set (columns ?merged)
                  then count_notna ?merged ''total_violencia_domestica'' else 0)
      = count_notna ?merged ''total_violencia_domestica''"
    using wf by (simp add: count_notna_absent)
  ultimately show ?thesis
    using assms(3,4) by (simp add: preparar_codigos_def Let_def)
qed

lemma cell_of_append_fresh: "c \<notin> set (map fst l) \<Longrightarrow> cell_of (l @ r) c = cell_of r c"
  by (induction l) (auto simp: cell_of_def)

lemma preparar_codigos_plain:
  assumes wf: "wf_frame gdf" "wf_frame df"
    and cols: "s \<in> set (columns gdf)" "c \<in> set (columns df)"
    and disj: "set (columns gdf) \<inter> set (columns df) = {}"
    and fresh: "set key_columns \<inter> (set (columns gdf) \<union> set (columns df)) = {}"
  shows "preparar_codigos fr gdf df s c =
     Inr (reference_left_join (\<lambda>l. shp_code6 fr (cell_of l s)) (\<lambda>r. csv_code6 fr (cell_of r c)) gdf df,
          count_notna (reference_left_join (\<lambda>l. shp_code6 fr (cell_of l s))
             (\<lambda>r. csv_code6 fr (cell_of r c)) gdf df) ''total_violencia_domestica'')"
proof -
  let ?G = "with_shp_keys fr gdf s" and ?D = "with_csv_keys fr df c"
  let ?M = "merge_left ?G ?D ''__shp_code6'' ''__csv_code6''"
  let ?kl = "\<lambda>l. [(''__shp_code_digits'', StrV (shp_code_digits fr (cell_of l s))),
                            (''__shp_code6'', StrV (shp_code6 fr (cell_of l s)))]"
  let ?kr = "\<lambda>r. [(''__csv_code_digits'', StrV (csv_code_digits fr (cell_of r c))),
                            (''__csv_code6'', StrV (csv_code6 fr (cell_of r c)))]"
  from fresh have fr1: "''__shp_code_digits'' \<notin> set (columns gdf)" "''__shp_code6'' \<notin> set (columns gdf)"
     "''__csv_code_digits'' \<notin> set (columns gdf)" "''__csv_code6'' \<notin> set (columns gdf)"
     "''__shp_code_digits'' \<notin> set (columns df)" "''__shp_code6'' \<notin> set (columns df)"
     "''__csv_code_digits'' \<notin> set (columns df)" "''__csv_code6'' \<notin> set (columns df)"
    by (auto simp: key_columns_def)
  have G: "?G = \<lparr>columns = columns gdf @ [''__shp_code_digits'', ''__shp_code6''],
     rows = map (\<lambda>l. l @ ?kl l) (rows gdf)\<rparr>"
    using wf(1) fr1 by (simp add: with_shp_keys_fresh)
  have D: "?D = \<lparr>columns = columns df @ [''__csv_code_digits'', ''__csv_code6''],
     rows = map (\<lambda>r. r @ ?kr r) (rows df)\<rparr>"
    using wf(2) fr1 by (simp add: with_csv_keys_fresh)
  have no: "\<And>x. \<not> overlapping ?G ?D ''__shp_code6'' ''__csv_code6'' x"
    using disj fr1 by (auto simp: overlapping_def G D)
  have kept: "kept ''__shp_code6'' ''__csv_code6'' = (\<lambda>c. True)"
    by (rule ext) (simp add: kept_def)
  have M: "?M = \<lparr>columns = columns ?G @ columns ?D,
     rows = concat (map (\<lambda>l.
              case matching_rows ?D ''__csv_code6'' (cell_of l ''__shp_code6'') of
                [] \<Rightarrow> [l @ map (\<lambda>c. (c, NaN)) (columns ?D)]
              | ms \<Rightarrow> map (\<lambda>r. l @ r) ms) (rows ?G))\<rparr>"
    by (simp add: merge_left_no_overlap [OF no] kept cong: list.case_cong)
  have wfM: "wf_frame ?M"
    using wf by (simp add: wf_merge_left wf_with_shp_keys wf_with_csv_keys)
  define K where "K = set key_columns"
  have inK: "''__shp_code_digits'' \<in> K" "''__shp_code6'' \<in> K"
    "''__csv_code_digits'' \<in> K" "''__csv_code6'' \<in> K"
    by (simp_all add: K_def key_columns_def)
  let ?F = "filter (\<lambda>kv. fst kv \<notin> K)"
  let ?lk = "\<lambda>l. shp_code6 fr (cell_of l s)" and ?rk = "\<lambda>r. csv_code6 fr (cell_of r c)"
  have FL: "?F l = l" if "l \<in> set (rows gdf)" for l
  proof -
    from that wf(1) have "fst ` set l = set (columns gdf)"
      by (metis wf_frame_def set_map)
    with fresh have "\<forall>kv\<in>set l. fst kv \<notin> K"
      by (auto simp: K_def)
    then show ?thesis by (simp add: filter_id_conv)
  qed
  have FR: "?F r = r" if "r \<in> set (rows df)" for r
  proof -
    from that wf(2) have "fst ` set r = set (columns df)"
      by (metis wf_frame_def set_map)
    with fresh have "\<forall>kv\<in>set r. fst kv \<notin> K"
      by (auto simp: K_def)
    then show ?thesis by (simp add: filter_id_conv)
  qed
  have FN: "?F (map (\<lambda>c. (c, NaN)) (columns df)) = map (\<lambda>c. (c, NaN)) (columns df)"
    using fresh by (auto simp: K_def filter_id_conv)
  have FC: "filter (\<lambda>c. c \<notin> K) (columns gdf) = columns gdf"
    "filter (\<lambda>c. c \<notin> K) (columns df) = columns df"
    using fresh by (auto simp: K_def filter_id_conv)
  have key_l: "\<And>l. l \<in> set (rows gdf) \<Longrightarrow> cell_of (l @ ?kl l) ''__shp_code6'' = StrV (?lk l)"
    using wf(1) fr1 by (simp add: wf_frame_def cell_of_append_fresh) (simp add: cell_of_def)
  have key_r: "\<And>r. r \<in> set (rows df) \<Longrightarrow> cell_of (r @ ?kr r) ''__csv_code6'' = StrV (?rk r)"
    using wf(2) fr1 by (simp add: wf_frame_def cell_of_append_fresh) (simp add: cell_of_def)
  have rowsD: "rows ?D = map (\<lambda>r. r @ ?kr r) (rows df)"
    and colsD: "columns ?D = columns df @ [''__csv_code_digits'', ''__csv_code6'']"
    by (simp_all add: D)
  have rowsG: "rows ?G = map (\<lambda>l. l @ ?kl l) (rows gdf)"
    and colsG: "columns ?G = columns gdf @ [''__shp_code_digits'', ''__shp_code6'']"
    by (simp_all add: G)
  have mr: "\<And>k. matching_rows ?D ''__csv_code6'' (StrV k) =
      map (\<lambda>r. r @ ?kr r) (filter (\<lambda>r. ?rk r = k) (rows df))"
    by (simp add: matching_rows_def rowsD filter_map comp_def key_r cong: filter_cong)
  let ?h = "\<lambda>l. case matching_rows ?D ''__csv_code6'' (cell_of (l @ ?kl l) ''__shp_code6'') of
                [] \<Rightarrow> [(l @ ?kl l) @ map (\<lambda>c. (c, NaN)) (columns ?D)]
              | ms \<Rightarrow> map (\<lambda>r. (l @ ?kl l) @ r) ms"
  let ?g = "\<lambda>l. case filter (\<lambda>r. ?rk r = ?lk l) (rows df) of
             [] \<Rightarrow> [l @ map (\<lambda>c. (c, NaN)) (columns df)]
           | ms \<Rightarrow> map (\<lambda>r. l @ r) ms"
  have pt: "map ?F (?h l) = ?g l" if l: "l \<in> set (rows gdf)" for l
  proof (cases "filter (\<lambda>r. ?rk r = ?lk l) (rows df)")
    case Nil
    then have "matching_rows ?D ''__csv_code6'' (cell_of (l @ ?kl l) ''__shp_code6'') = []"
      by (simp add: key_l [OF l] mr)
    then show ?thesis
      by (simp add: Nil colsD FL [OF l] FN inK)
  next
    case (Cons x xs)
    have "set (x # xs) \<subseteq> set (rows df)"
      unfolding Cons [symmetric] by (rule filter_is_subset)
    then have sub: "\<And>r. r \<in> set (x # xs) \<Longrightarrow> r \<in> set (rows df)"
      by blast
    have "matching_rows ?D ''__csv_code6'' (cell_of (l @ ?kl l) ''__shp_code6'')
        = map (\<lambda>r. r @ ?kr r) (x # xs)"
      using Cons by (simp add: key_l [OF l] mr)
    then show ?thesis
      using sub by (simp add: Cons FL [OF l] FR inK)
  qed
  have dropped: "fold drop_if_present key_columns ?M =
      \<lparr>columns = filter (\<lambda>c. c \<notin> K) (columns ?M), rows = map ?F (rows ?M)\<rparr>"
    using fold_drop_if_present [OF wfM] by (simp add: K_def)
  have rowsM: "rows ?M = concat (map ?h (rows gdf))"
    by (subst M) (simp add: rowsG comp_def)
  have colsM: "columns ?M = columns ?G @ columns ?D"
    by (subst M) simp
  have "map ?F (rows ?M) = concat (map (\<lambda>l. map ?F (?h l)) (rows gdf))"
    by (simp only: rowsM map_concat map_map comp_def)
  also have "map (\<lambda>l. map ?F (?h l)) (rows gdf) = map ?g (rows gdf)"
    by (rule map_cong [OF refl]) (rule pt)
  finally have "rows (fold drop_if_present key_columns ?M)
      = rows (reference_left_join ?lk ?rk gdf df)"
    by (simp add: dropped reference_left_join_def)
  moreover have "columns (fold drop_if_present key_columns ?M)
      = columns (reference_left_join ?lk ?rk gdf df)"
    by (simp add: dropped colsM colsG colsD reference_left_join_def FC inK)
  ultimately have "fold drop_if_present key_columns ?M = reference_left_join ?lk ?rk gdf df"
    by simp
  then show ?thesis
    by (simp add: preparar_codigos_result [OF wf cols])
qed


lemma with_nome_norm_fresh:
  assumes "wf_frame df" and "''__nome_norm'' \<notin> set (columns df)"
  shows "with_nome_norm fr df n =
    \<lparr>columns = columns df @ [''__nome_norm''],
     rows = map (\<lambda>r. r @ [(''__nome_norm'', StrV (normalizar_nome fr (cell_of r n)))]) (rows df)\<rparr>"
proof -
  have "\<And>r. r \<in> set (rows df) \<Longrightarrow>
      set_cell ''__nome_norm'' (StrV (normalizar_nome fr (cell_of r n))) r
      = r @ [(''__nome_norm'', StrV (normalizar_nome fr (cell_of r n)))]"
    using assms by (simp add: wf_frame_def set_cell_fresh)
  then have "rows (with_nome_norm fr df n) =
      map (\<lambda>r. r @ [(''__nome_norm'', StrV (normalizar_nome fr (cell_of r n)))]) (rows df)"
    by (simp add: rows_with_nome_norm)
  moreover have "columns (with_nome_norm fr df n) = columns df @ [''__nome_norm'']"
    using assms by (simp add: with_nome_norm_def assign_def)
  ultimately show ?thesis by simp
qed

lemma merge_por_nome_plain:
  assumes wf: "wf_frame gdf" "wf_frame df"
    and cols: "n \<in> set (columns gdf)" "''municipio_nome'' \<in> set (columns df)"
    and disj: "set (columns gdf) \<inter> set (columns df) = {}"
    and fresh: "''__nome_norm'' \<notin> set (columns gdf) \<union> set (columns df)"
  shows "merge_por_nome fr gdf df n =
     Inr (reference_left_join (\<lambda>l. normalizar_nome fr (cell_of l n))
            (\<lambda>r. normalizar_nome fr (cell_of r ''municipio_nome'')) gdf df)"
proof -
  let ?G = "with_nome_norm fr gdf n" and ?D = "with_nome_norm fr df ''municipio_nome''"
  let ?M = "merge_left ?G ?D ''__nome_norm'' ''__nome_norm''"
  let ?lk = "\<lambda>l. normalizar_nome fr (cell_of l n)"
  let ?rk = "\<lambda>r. normalizar_nome fr (cell_of r ''municipio_nome'')"
  let ?kl = "\<lambda>l. [(''__nome_norm'', StrV (?lk l))]"
  let ?kr = "\<lambda>r. [(''__nome_norm'', StrV (?rk r))]"
  let ?F = "filter (\<lambda>kv. fst kv \<noteq> ''__nome_norm'')"
  from fresh have fr1: "''__nome_norm'' \<notin> set (columns gdf)" "''__nome_norm'' \<notin> set (columns df)"
    by simp_all
  have G: "?G = \<lparr>columns = columns gdf @ [''__nome_norm''], rows = map (\<lambda>l. l @ ?kl l) (rows gdf)\<rparr>"
    using wf(1) fr1 by (simp add: with_nome_norm_fresh)
  have D: "?D = \<lparr>columns = columns df @ [''__nome_norm''], rows = map (\<lambda>r. r @ ?kr r) (rows df)\<rparr>"
    using wf(2) fr1 by (simp add: with_nome_norm_fresh)
  have rowsD: "rows ?D = map (\<lambda>r. r @ ?kr r) (rows df)"
    and colsD: "columns ?D = columns df @ [''__nome_norm'']"
    by (simp_all add: D)
  have rowsG: "rows ?G = map (\<lambda>l. l @ ?kl l) (rows gdf)"
    and colsG: "columns ?G = columns gdf @ [''__nome_norm'']"
    by (simp_all add: G)
  have no: "\<And>x. \<not> overlapping ?G ?D ''__nome_norm'' ''__nome_norm'' x"
    using disj by (auto simp: overlapping_def colsG colsD)
  have kept: "kept ''__nome_norm'' ''__nome_norm'' = (\<lambda>c. c \<noteq> ''__nome_norm'')"
    by (rule ext) (simp add: kept_def)
  have FL: "?F l = l" if "l \<in> set (rows gdf)" for l
  proof -
    from that wf(1) have "fst ` set l = set (columns gdf)"
      by (metis wf_frame_def set_map)
    with fr1 have "''__nome_norm'' \<notin> fst ` set l"
      by simp
    then have "\<forall>kv\<in>set l. fst kv \<noteq> ''__nome_norm''"
      by (metis imageI)
    then show ?thesis by (simp add: filter_id_conv)
  qed
  have FR: "?F r = r" if "r \<in> set (rows df)" for r
  proof -
    from that wf(2) have "fst ` set r = set (columns df)"
      by (metis wf_frame_def set_map)
    with fr1 have "''__nome_norm'' \<notin> fst ` set r"
      by simp
    then have "\<forall>kv\<in>set r. fst kv \<noteq> ''__nome_norm''"
      by (metis imageI)
    then show ?thesis by (simp add: filter_id_conv)
  qed
  have FN: "?F (map (\<lambda>c. (c, NaN)) (columns df)) = map (\<lambda>c. (c, NaN)) (columns df)"
    using fr1 by (auto simp: filter_id_conv)
  have FC: "filter (\<lambda>c. c \<noteq> ''__nome_norm'') (columns df) = columns df"
    "removeAll ''__nome_norm'' (columns gdf) = columns gdf"
    "removeAll ''__nome_norm'' (columns df) = columns df"
    using fr1 by (auto simp: filter_id_conv)
  have key_l: "\<And>l. l \<in> set (rows gdf) \<Longrightarrow> cell_of (l @ ?kl l) ''__nome_norm'' = StrV (?lk l)"
    using wf(1) fr1 by (simp add: wf_frame_def cell_of_append_fresh) (simp add: cell_of_def)
  have key_r: "\<And>r. r \<in> set (rows df) \<Longrightarrow> cell_of (r @ ?kr r) ''__nome_norm'' = StrV (?rk r)"
    using wf(2) fr1 by (simp add: wf_frame_def cell_of_append_fresh) (simp add: cell_of_def)
  have mr: "\<And>k. matching_rows ?D ''__nome_norm'' (StrV k) =
      map (\<lambda>r. r @ ?kr r) (filter (\<lambda>r. ?rk r = k) (rows df))"
    by (simp add: matching_rows_def rowsD filter_map comp_def key_r cong: filter_cong)
  let ?h = "\<lambda>l. case matching_rows ?D ''__nome_norm'' (cell_of (l @ ?kl l) ''__nome_norm'') of
                [] \<Rightarrow> [(l @ ?kl l) @ map (\<lambda>c. (c, NaN)) (filter (\<lambda>c. c \<noteq> ''__nome_norm'') (columns ?D))]
              | ms \<Rightarrow> map (\<lambda>r. (l @ ?kl l) @ ?F r) ms"
  let ?g = "\<lambda>l. case filter (\<lambda>r. ?rk r = ?lk l) (rows df) of
             [] \<Rightarrow> [l @ map (\<lambda>c. (c, NaN)) (columns df)]
           | ms \<Rightarrow> map (\<lambda>r. l @ r) ms"
  have M: "?M = \<lparr>columns = columns ?G @ filter (\<lambda>c. c \<noteq> ''__nome_norm'') (columns ?D),
                  rows = concat (map ?h (rows gdf))\<rparr>"
    by (simp add: merge_left_no_overlap [OF no] kept rowsG comp_def cong: list.case_cong)
  have pt: "map ?F (?h l) = ?g l" if l: "l \<in> set (rows gdf)" for l
  proof (cases "filter (\<lambda>r. ?rk r = ?lk l) (rows df)")
    case Nil
    then have "matching_rows ?D ''__nome_norm'' (cell_of (l @ ?kl l) ''__nome_norm'') = []"
      by (simp add: key_l [OF l] mr)
    then show ?thesis
      by (simp add: Nil colsD FL [OF l] FN FC)
  next
    case (Cons x xs)
    have "set (x # xs) \<subseteq> set (rows df)"
      unfolding Cons [symmetric] by (rule filter_is_subset)
    then have sub: "\<And>r. r \<in> set (x # xs) \<Longrightarrow> r \<in> set (rows df)"
      by blast
    have m: "matching_rows ?D ''__nome_norm'' (cell_of (l @ ?kl l) ''__nome_norm'')
        = map (\<lambda>r. r @ ?kr r) (x # xs)"
      using Cons by (simp add: key_l [OF l] mr)
    have "?F ((l @ ?kl l) @ ?F (r @ ?kr r)) = l @ r" if "r \<in> set (x # xs)" for r
      using FR [OF sub [OF that]] FL [OF l] by simp
    then have "map (\<lambda>r. ?F ((l @ ?kl l) @ ?F (r @ ?kr r))) (x # xs) = map (\<lambda>r. l @ r) (x # xs)"
      by (intro map_cong [OF refl])
    moreover have "map ?F (?h l) = map (\<lambda>r. ?F ((l @ ?kl l) @ ?F (r @ ?kr r))) (x # xs)"
      by (simp add: m comp_def)
    ultimately show ?thesis
      by (simp only: Cons list.case)
  qed
  have present: "''__nome_norm'' \<in> set (columns ?M)"
    by (subst M) (simp add: colsG)
  have dropped: "drop_if_present ''__nome_norm'' ?M =
      \<lparr>columns = removeAll ''__nome_norm'' (columns ?M), rows = map ?F (rows ?M)\<rparr>"
    using present by (simp add: drop_if_present_def drop_column_def)
  have rowsM: "rows ?M = concat (map ?h (rows gdf))"
    by (subst M) simp
  have colsM: "columns ?M = columns ?G @ filter (\<lambda>c. c \<noteq> ''__nome_norm'') (columns ?D)"
    by (subst M) simp
  have "map ?F (rows ?M) = concat (map (\<lambda>l. map ?F (?h l)) (rows gdf))"
    by (simp only: rowsM map_concat map_map comp_def)
  also have "map (\<lambda>l. map ?F (?h l)) (rows gdf) = map ?g (rows gdf)"
    by (rule map_cong [OF refl]) (rule pt)
  finally have "rows (drop_if_present ''__nome_norm'' ?M)
      = rows (reference_left_join ?lk ?rk gdf df)"
    by (simp add: dropped reference_left_join_def)
  moreover have "columns (drop_if_present ''__nome_norm'' ?M)
      = columns (reference_left_join ?lk ?rk gdf df)"
    by (simp add: dropped colsM colsG colsD reference_left_join_def FC)
  ultimately have "drop_if_present ''__nome_norm'' ?M = reference_left_join ?lk ?rk gdf df"
    by simp
  then show ?thesis
    using cols by (simp add: merge_por_nome_def Let_def)
qed

lemmas name_eval = normalizar_nome_def nfkd_def nfkd_cp_def latin1_decomposition_def
  encode_ascii_ignore_def py_split_def py_title_def is_space_def is_upper_def is_lower_def
  ascii_lower_def ascii_upper_def char_of_def bit_Suc_0_iff

lemma names_bh:
  "normalizar_nome fr (StrV ''Belo Horizonte'') = ''Belo Horizonte''"
  "normalizar_nome fr (StrV ''BELO HORIZONTE'') = ''Belo Horizonte''"
  "normalizar_nome fr (StrV ''belo  horizonte'') = ''Belo Horizonte''"
  by (simp_all add: name_eval)

lemma name_of_missing: "normalizar_nome fr NaN = []"
  by (simp add: normalizar_nome_def)

lemma example_tables_wf:
  "wf_frame feature_bh" "wf_frame table_bh_twice" "wf_frame table_bh_once"
  "wf_frame feature_unknown" "wf_frame table_unknown"
  by (simp_all add: wf_frame_def feature_bh_def table_bh_twice_def table_bh_once_def
      feature_unknown_def table_unknown_def)

lemma example_tables_columns:
  "columns feature_bh = [''CD_MUN'', ''NM_MUN'', ''geometry'']"
  "columns feature_unknown = [''CD_MUN'', ''NM_MUN'', ''geometry'']"
  "columns table_bh_twice = [''municipio_cod'', ''municipio_nome'', ''total_violencia_domestica'']"
  "columns table_bh_once = [''municipio_cod'', ''municipio_nome'', ''total_violencia_domestica'']"
  "columns table_unknown = [''municipio_cod'', ''municipio_nome'', ''total_violencia_domestica'']"
  by (simp_all add: feature_bh_def table_bh_twice_def table_bh_once_def
      feature_unknown_def table_unknown_def)

section \<open>Cardinality of the joins\<close>

text \<open>
  Claim C1, as the code has it. Both joins are left joins with the feature collection on
  the left and no check that the table's keys are unique. A feature comes out once for
  every table row with its key, or once with missing values when there is none: no
  feature is dropped, so the output has at least \<open>N\<close> rows, and it has exactly \<open>N\<close>
  rows when no two table rows have the same normalized key. This holds for the join on the
  code and for the join on the name.
\<close>

theorem joins_keep_every_feature:
  "(s \<in> set (columns gdf) \<and> c \<in> set (columns df) \<longrightarrow>
      (\<exists>m k. preparar_codigos fr gdf df s c = Inr (m, k)
         \<and> length (rows m) =
             sum_list (map (\<lambda>l. max 1 (length (filter
                 (\<lambda>r. csv_code6 fr (cell_of r c) = shp_code6 fr (cell_of l s)) (rows df))))
               (rows gdf))
         \<and> length (rows gdf) \<le> length (rows m)
         \<and> (distinct (map (\<lambda>r. csv_code6 fr (cell_of r c)) (rows df))
              \<longrightarrow> length (rows m) = length (rows gdf))))
   \<and> (n \<in> set (columns gdf) \<and> ''municipio_nome'' \<in> set (columns df) \<longrightarrow>
      (\<exists>m. merge_por_nome fr gdf df n = Inr m
         \<and> length (rows m) =
             sum_list (map (\<lambda>l. max 1 (length (filter
                 (\<lambda>r. normalizar_nome fr (cell_of r ''municipio_nome'')
                        = normalizar_nome fr (cell_of l n)) (rows df))))
               (rows gdf))
         \<and> length (rows gdf) \<le> length (rows m)
         \<and> (distinct (map (\<lambda>r. normalizar_nome fr (cell_of r ''municipio_nome'')) (rows df))
              \<longrightarrow> length (rows m) = length (rows gdf))))"
proof (intro conjI impI)
  assume "s \<in> set (columns gdf) \<and> c \<in> set (columns df)"
  then obtain m k where res: "preparar_codigos fr gdf df s c = Inr (m, k)"
    and len: "length (rows m) =
             sum_list (map (\<lambda>l. max 1 (length (filter
                 (\<lambda>r. csv_code6 fr (cell_of r c) = shp_code6 fr (cell_of l s)) (rows df))))
               (rows gdf))"
    using preparar_codigos_length [of s gdf c df fr] by blast
  have ge: "length (rows gdf) \<le> length (rows m)"
    unfolding len by (rule length_le_sum_max1)
  have "length (rows m) = length (rows gdf)"
    if "distinct (map (\<lambda>r. csv_code6 fr (cell_of r c)) (rows df))"
    unfolding len using that by (intro sum_max1_all_le1 distinct_key_filter_le1)
  with res len ge show "\<exists>m k. preparar_codigos fr gdf df s c = Inr (m, k)
         \<and> length (rows m) =
             sum_list (map (\<lambda>l. max 1 (length (filter
                 (\<lambda>r. csv_code6 fr (cell_of r c) = shp_code6 fr (cell_of l s)) (rows df))))
               (rows gdf))
         \<and> length (rows gdf) \<le> length (rows m)
         \<and> (distinct (map (\<lambda>r. csv_code6 fr (cell_of r c)) (rows df))
              \<longrightarrow> length (rows m) = length (rows gdf))"
    by blast
next
  assume "n \<in> set (columns gdf) \<and> ''municipio_nome'' \<in> set (columns df)"
  then obtain m where res: "merge_por_nome fr gdf df n = Inr m"
    and len: "length (rows m) =
             sum_list (map (\<lambda>l. max 1 (length (filter
                 (\<lambda>r. normalizar_nome fr (cell_of r ''municipio_nome'')
                        = normalizar_nome fr (cell_of l n)) (rows df))))
               (rows gdf))"
    using merge_por_nome_length [of n gdf df fr] by blast
  have ge: "length (rows gdf) \<le> length (rows m)"
    unfolding len by (rule length_le_sum_max1)
  have "length (rows m) = length (rows gdf)"
    if "distinct (map (\<lambda>r. normalizar_nome fr (cell_of r ''municipio_nome'')) (rows df))"
    unfolding len using that by (intro sum_max1_all_le1 distinct_key_filter_le1)
  with res len ge show "\<exists>m. merge_por_nome fr gdf df n = Inr m
         \<and> length (rows m) =
             sum_list (map (\<lambda>l. max 1 (length (filter
                 (\<lambda>r. normalizar_nome fr (cell_of r ''municipio_nome'')
                        = normalizar_nome fr (cell_of l n)) (rows df))))
               (rows gdf))
         \<and> length (rows gdf) \<le> length (rows m)
         \<and> (distinct (map (\<lambda>r. normalizar_nome fr (cell_of r ''municipio_nome'')) (rows df))
              \<longrightarrow> length (rows m) = length (rows gdf))"
    by blast
qed

theorem joins_keep_every_feature_witness:
  "(\<exists>m k. preparar_codigos repr_integral feature_bh table_bh_once ''CD_MUN'' ''municipio_cod''
             = Inr (m, k) \<and> length (rows m) = 1)
   \<and> (\<exists>m. merge_por_nome repr_integral feature_bh table_bh_once ''NM_MUN'' = Inr m
             \<and> length (rows m) = 1)"
proof -
  note both = joins_keep_every_feature [of "''CD_MUN''" feature_bh "''municipio_cod''"
      table_bh_once repr_integral "''NM_MUN''"]
  have c1: "''CD_MUN'' \<in> set (columns feature_bh)
      \<and> ''municipio_cod'' \<in> set (columns table_bh_once)"
    and c2: "''NM_MUN'' \<in> set (columns feature_bh)
      \<and> ''municipio_nome'' \<in> set (columns table_bh_once)"
    by (simp_all add: example_tables_columns)
  have d1: "distinct (map (\<lambda>r. csv_code6 repr_integral (cell_of r ''municipio_cod''))
      (rows table_bh_once))"
    and d2: "distinct (map (\<lambda>r. normalizar_nome repr_integral (cell_of r ''municipio_nome''))
      (rows table_bh_once))"
    and n: "length (rows feature_bh) = 1"
    by (simp_all add: table_bh_once_def feature_bh_def)
  from both [THEN conjunct1, rule_format, OF c1] d1 n
  have "\<exists>m k. preparar_codigos repr_integral feature_bh table_bh_once ''CD_MUN''
      ''municipio_cod'' = Inr (m, k) \<and> length (rows m) = 1"
    by auto
  moreover from both [THEN conjunct2, rule_format, OF c2] d2 n
  have "\<exists>m. merge_por_nome repr_integral feature_bh table_bh_once ''NM_MUN'' = Inr m
      \<and> length (rows m) = 1"
    by auto
  ultimately show ?thesis ..
qed

text \<open>
  The claim as stated fails: one feature, a table with two rows for its municipality, and
  the joined output has two rows, on either path.
\<close>

theorem duplicate_key_duplicates_feature:
  "preparar_codigos repr_integral feature_bh table_bh_twice ''CD_MUN'' ''municipio_cod'' =
     Inr (\<lparr>columns = [''CD_MUN'', ''NM_MUN'', ''geometry'',
                       ''municipio_cod'', ''municipio_nome'', ''total_violencia_domestica''],
           rows = [[(''CD_MUN'', StrV ''3106200''), (''NM_MUN'', StrV ''Belo Horizonte''),
                    (''geometry'', StrV ''POLYGON 1''), (''municipio_cod'', IntV 310620),
                    (''municipio_nome'', StrV ''BELO HORIZONTE''),
                    (''total_violencia_domestica'', IntV 10)],
                   [(''CD_MUN'', StrV ''3106200''), (''NM_MUN'', StrV ''Belo Horizonte''),
                    (''geometry'', StrV ''POLYGON 1''), (''municipio_cod'', IntV 310620),
                    (''municipio_nome'', StrV ''belo  horizonte''),
                    (''total_violencia_domestica'', IntV 15)]]\<rparr>, 2)
   \<and> merge_por_nome repr_integral feature_bh table_bh_twice ''NM_MUN'' =
     Inr \<lparr>columns = [''CD_MUN'', ''NM_MUN'', ''geometry'',
                       ''municipio_cod'', ''municipio_nome'', ''total_violencia_domestica''],
           rows = [[(''CD_MUN'', StrV ''3106200''), (''NM_MUN'', StrV ''Belo Horizonte''),
                    (''geometry'', StrV ''POLYGON 1''), (''municipio_cod'', IntV 310620),
                    (''municipio_nome'', StrV ''BELO HORIZONTE''),
                    (''total_violencia_domestica'', IntV 10)],
                   [(''CD_MUN'', StrV ''3106200''), (''NM_MUN'', StrV ''Belo Horizonte''),
                    (''geometry'', StrV ''POLYGON 1''), (''municipio_cod'', IntV 310620),
                    (''municipio_nome'', StrV ''belo  horizonte''),
                    (''total_violencia_domestica'', IntV 15)]]\<rparr>
   \<and> length (rows feature_bh) = 1"
proof -
  have "preparar_codigos repr_integral feature_bh table_bh_twice ''CD_MUN'' ''municipio_cod'' =
     Inr (reference_left_join (\<lambda>l. shp_code6 repr_integral (cell_of l ''CD_MUN''))
            (\<lambda>r. csv_code6 repr_integral (cell_of r ''municipio_cod'')) feature_bh table_bh_twice,
          count_notna (reference_left_join (\<lambda>l. shp_code6 repr_integral (cell_of l ''CD_MUN''))
            (\<lambda>r. csv_code6 repr_integral (cell_of r ''municipio_cod'')) feature_bh table_bh_twice)
            ''total_violencia_domestica'')"
    by (rule preparar_codigos_plain) (simp_all add: example_tables_wf example_tables_columns key_columns_def)
  moreover have "merge_por_nome repr_integral feature_bh table_bh_twice ''NM_MUN'' =
     Inr (reference_left_join (\<lambda>l. normalizar_nome repr_integral (cell_of l ''NM_MUN''))
            (\<lambda>r. normalizar_nome repr_integral (cell_of r ''municipio_nome'')) feature_bh table_bh_twice)"
    by (rule merge_por_nome_plain) (simp_all add: example_tables_wf example_tables_columns key_columns_def)
  ultimately show ?thesis
    by (simp add: reference_left_join_def feature_bh_def table_bh_twice_def cell_of_def
        code6_examples names_bh count_notna_def notna_def)
qed

section \<open>Keys of missing identifiers\<close>

lemma reference_left_join_pairs:
  assumes "l \<in> set (rows L)" and "r \<in> set (rows R)" and "rk r = lk l"
  shows "l @ r \<in> set (rows (reference_left_join lk rk L R))"
proof -
  from assms(2,3) have "r \<in> set (filter (\<lambda>r. rk r = lk l) (rows R))"
    by simp
  then have "l @ r \<in> set (case filter (\<lambda>r. rk r = lk l) (rows R) of
                 [] \<Rightarrow> [l @ map (\<lambda>c. (c, NaN)) (columns R)]
               | ms \<Rightarrow> map (\<lambda>r. l @ r) ms)"
    by (cases "filter (\<lambda>r. rk r = lk l) (rows R)") auto
  with assms(1) show ?thesis
    by (auto simp: reference_left_join_def)
qed

text \<open>
  Claim C3, as the code has it. The joins compare normalized keys and nothing else: there
  is no special case for an empty or all-zero key. A missing code normalizes to
  \<^verbatim>\<open>000000\<close> on both sides and a missing name to the empty text on both sides, so a
  feature with a missing identifier is paired with every record whose identifier is
  missing too. In general (stated for tables that share no column name, so that the
  joined row is the feature's row followed by the record's row): whenever the normalized
  key of a record equals that of a feature, the output holds the feature joined with that
  record.
\<close>

theorem equal_keys_are_paired:
  assumes "wf_frame gdf" and "wf_frame df"
    and "set (columns gdf) \<inter> set (columns df) = {}"
    and "l \<in> set (rows gdf)" and "r \<in> set (rows df)"
  shows "(s \<in> set (columns gdf) \<and> c \<in> set (columns df)
          \<and> set key_columns \<inter> (set (columns gdf) \<union> set (columns df)) = {}
          \<and> csv_code6 fr (cell_of r c) = shp_code6 fr (cell_of l s) \<longrightarrow>
            (\<exists>m k. preparar_codigos fr gdf df s c = Inr (m, k) \<and> l @ r \<in> set (rows m)))
       \<and> (n \<in> set (columns gdf) \<and> ''municipio_nome'' \<in> set (columns df)
          \<and> ''__nome_norm'' \<notin> set (columns gdf) \<union> set (columns df)
          \<and> normalizar_nome fr (cell_of r ''municipio_nome'') = normalizar_nome fr (cell_of l n) \<longrightarrow>
            (\<exists>m. merge_por_nome fr gdf df n = Inr m \<and> l @ r \<in> set (rows m)))
       \<and> shp_code6 fr NaN = ''000000'' \<and> csv_code6 fr NaN = ''000000''
       \<and> normalizar_nome fr NaN = []"
proof (intro conjI impI)
  assume a: "s \<in> set (columns gdf) \<and> c \<in> set (columns df)
          \<and> set key_columns \<inter> (set (columns gdf) \<union> set (columns df)) = {}
          \<and> csv_code6 fr (cell_of r c) = shp_code6 fr (cell_of l s)"
  with assms have "preparar_codigos fr gdf df s c =
     Inr (reference_left_join (\<lambda>l. shp_code6 fr (cell_of l s)) (\<lambda>r. csv_code6 fr (cell_of r c)) gdf df,
          count_notna (reference_left_join (\<lambda>l. shp_code6 fr (cell_of l s))
             (\<lambda>r. csv_code6 fr (cell_of r c)) gdf df) ''total_violencia_domestica'')"
    by (intro preparar_codigos_plain) simp_all
  moreover have "l @ r \<in> set (rows (reference_left_join (\<lambda>l. shp_code6 fr (cell_of l s))
      (\<lambda>r. csv_code6 fr (cell_of r c)) gdf df))"
    using assms(4,5) a by (intro reference_left_join_pairs) simp_all
  ultimately show "\<exists>m k. preparar_codigos fr gdf df s c = Inr (m, k) \<and> l @ r \<in> set (rows m)"
    by blast
next
  assume a: "n \<in> set (columns gdf) \<and> ''municipio_nome'' \<in> set (columns df)
          \<and> ''__nome_norm'' \<notin> set (columns gdf) \<union> set (columns df)
          \<and> normalizar_nome fr (cell_of r ''municipio_nome'') = normalizar_nome fr (cell_of l n)"
  with assms have "merge_por_nome fr gdf df n =
     Inr (reference_left_join (\<lambda>l. normalizar_nome fr (cell_of l n))
            (\<lambda>r. normalizar_nome fr (cell_of r ''municipio_nome'')) gdf df)"
    by (intro merge_por_nome_plain) simp_all
  moreover have "l @ r \<in> set (rows (reference_left_join (\<lambda>l. normalizar_nome fr (cell_of l n))
            (\<lambda>r. normalizar_nome fr (cell_of r ''municipio_nome'')) gdf df))"
    using assms(4,5) a by (intro reference_left_join_pairs) simp_all
  ultimately show "\<exists>m. merge_por_nome fr gdf df n = Inr m \<and> l @ r \<in> set (rows m)"
    by blast
qed (simp_all add: code6_of_missing name_of_missing)

text \<open>
  The claim as stated fails: a feature without code and name receives the data of the
  record without code and name, on either path.
\<close>

theorem missing_keys_are_paired:
  "preparar_codigos repr_integral feature_unknown table_unknown ''CD_MUN'' ''municipio_cod'' =
     Inr (\<lparr>columns = [''CD_MUN'', ''NM_MUN'', ''geometry'',
                       ''municipio_cod'', ''municipio_nome'', ''total_violencia_domestica''],
           rows = [[(''CD_MUN'', NaN), (''NM_MUN'', NaN), (''geometry'', StrV ''POLYGON 2''),
                    (''municipio_cod'', NaN), (''municipio_nome'', NaN),
                    (''total_violencia_domestica'', IntV 7)]]\<rparr>, 1)
   \<and> merge_por_nome repr_integral feature_unknown table_unknown ''NM_MUN'' =
     Inr \<lparr>columns = [''CD_MUN'', ''NM_MUN'', ''geometry'',
                       ''municipio_cod'', ''municipio_nome'', ''total_violencia_domestica''],
           rows = [[(''CD_MUN'', NaN), (''NM_MUN'', NaN), (''geometry'', StrV ''POLYGON 2''),
                    (''municipio_cod'', NaN), (''municipio_nome'', NaN),
                    (''total_violencia_domestica'', IntV 7)]]\<rparr>"
proof -
  have "preparar_codigos repr_integral feature_unknown table_unknown ''CD_MUN'' ''municipio_cod'' =
     Inr (reference_left_join (\<lambda>l. shp_code6 repr_integral (cell_of l ''CD_MUN''))
            (\<lambda>r. csv_code6 repr_integral (cell_of r ''municipio_cod'')) feature_unknown table_unknown,
          count_notna (reference_left_join (\<lambda>l. shp_code6 repr_integral (cell_of l ''CD_MUN''))
            (\<lambda>r. csv_code6 repr_integral (cell_of r ''municipio_cod'')) feature_unknown table_unknown)
            ''total_violencia_domestica'')"
    by (rule preparar_codigos_plain)
      (simp_all add: example_tables_wf example_tables_columns key_columns_def)
  moreover have "merge_por_nome repr_integral feature_unknown table_unknown ''NM_MUN'' =
     Inr (reference_left_join (\<lambda>l. normalizar_nome repr_integral (cell_of l ''NM_MUN''))
            (\<lambda>r. normalizar_nome repr_integral (cell_of r ''municipio_nome''))
            feature_unknown table_unknown)"
    by (rule merge_por_nome_plain)
      (simp_all add: example_tables_wf example_tables_columns key_columns_def)
  ultimately show ?thesis
    by (simp add: reference_left_join_def feature_unknown_def table_unknown_def cell_of_def
        code6_of_missing name_of_missing count_notna_def notna_def)
qed

theorem equal_keys_are_paired_witness:
  "(\<exists>m k. preparar_codigos repr_integral feature_unknown table_unknown ''CD_MUN'' ''municipio_cod''
       = Inr (m, k) \<and> hd (rows feature_unknown) @ hd (rows table_unknown) \<in> set (rows m))
   \<and> (\<exists>m. merge_por_nome repr_integral feature_unknown table_unknown ''NM_MUN'' = Inr m
       \<and> hd (rows feature_unknown) @ hd (rows table_unknown) \<in> set (rows m))"
proof -
  have l: "hd (rows feature_unknown) \<in> set (rows feature_unknown)"
    and r: "hd (rows table_unknown) \<in> set (rows table_unknown)"
    by (simp_all add: feature_unknown_def table_unknown_def)
  have disj: "set (columns feature_unknown) \<inter> set (columns table_unknown) = {}"
    by (simp add: example_tables_columns)
  note T = equal_keys_are_paired [OF example_tables_wf(4) example_tables_wf(5) disj l r,
      of "''CD_MUN''" "''municipio_cod''" repr_integral "''NM_MUN''"]
  have k1: "''CD_MUN'' \<in> set (columns feature_unknown) \<and> ''municipio_cod'' \<in> set (columns table_unknown)
          \<and> set key_columns \<inter> (set (columns feature_unknown) \<union> set (columns table_unknown)) = {}
          \<and> csv_code6 repr_integral (cell_of (hd (rows table_unknown)) ''municipio_cod'')
            = shp_code6 repr_integral (cell_of (hd (rows feature_unknown)) ''CD_MUN'')"
    by (simp add: example_tables_columns key_columns_def)
       (simp add: feature_unknown_def table_unknown_def cell_of_def code6_of_missing)
  have k2: "''NM_MUN'' \<in> set (columns feature_unknown) \<and> ''municipio_nome'' \<in> set (columns table_unknown)
          \<and> ''__nome_norm'' \<notin> set (columns feature_unknown) \<union> set (columns table_unknown)
          \<and> normalizar_nome repr_integral (cell_of (hd (rows table_unknown)) ''municipio_nome'')
            = normalizar_nome repr_integral (cell_of (hd (rows feature_unknown)) ''NM_MUN'')"
    by (simp add: example_tables_columns)
       (simp add: feature_unknown_def table_unknown_def cell_of_def name_of_missing)
  from T [THEN conjunct1, rule_format, OF k1] T [THEN conjunct2, THEN conjunct1, rule_format, OF k2]
  show ?thesis ..
qed

section \<open>Match count, key columns and the choice of the join\<close>

lemma wf_fold_drop_if_present: "wf_frame df \<Longrightarrow> wf_frame (fold drop_if_present cs df)"
  by (induction cs arbitrary: df) (simp_all add: wf_drop_if_present)

lemma wf_preparar_codigos:
  assumes "wf_frame gdf" and "wf_frame df" and "preparar_codigos fr gdf df s c = Inr (m, k)"
  shows "wf_frame m"
proof -
  from assms(3) have "m = fold drop_if_present key_columns
            (merge_left (with_shp_keys fr gdf s) (with_csv_keys fr df c)
               ''__shp_code6'' ''__csv_code6'')"
    by (auto simp: preparar_codigos_def Let_def split: if_splits)
  with assms(1,2) show ?thesis
    by (simp add: wf_fold_drop_if_present wf_merge_left wf_with_shp_keys wf_with_csv_keys)
qed

lemma wf_merge_por_nome:
  assumes "wf_frame gdf" and "wf_frame df" and "merge_por_nome fr gdf df n = Inr m"
  shows "wf_frame m"
proof -
  from assms(3) have "m = drop_if_present ''__nome_norm''
      (merge_left (with_nome_norm fr gdf n) (with_nome_norm fr df ''municipio_nome'')
         ''__nome_norm'' ''__nome_norm'')"
    by (auto simp: merge_por_nome_def Let_def split: if_splits)
  with assms(1,2) show ?thesis
    by (simp add: wf_drop_if_present wf_merge_left wf_with_nome_norm)
qed

lemma wf_join_tables:
  assumes "wf_frame gdf" and "wf_frame df" and "join_tables fr gdf df = Inr (p, m)"
  shows "wf_frame m"
  using assms
  by (auto simp: join_tables_def Let_def split: if_splits sum.splits option.splits
      dest: wf_preparar_codigos wf_merge_por_nome)

text \<open>
  Claim C7. The number that \<^verbatim>\<open>preparar_codigos\<close> reports is computed before the key
  columns are dropped; it is the number of rows of the table it returns whose
  \<^verbatim>\<open>total_violencia_domestica\<close> is present and not missing (none when the joined table
  has no column of that name, as when the table is the wide one, whose columns are
  \<^verbatim>\<open>total_violencia_domestica_2022\<close> and so on). The table it returns has none of the four key columns,
  neither in its column list nor in any row. The count that \<^verbatim>\<open>main\<close> reports for the
  table it writes is the same function of that table.
\<close>

theorem match_count_and_key_columns:
  assumes "wf_frame gdf" and "wf_frame df"
    and "s \<in> set (columns gdf)" and "c \<in> set (columns df)"
  shows "(\<exists>m k. preparar_codigos fr gdf df s c = Inr (m, k)
          \<and> k = length (filter (\<lambda>r. notna (cell_of r ''total_violencia_domestica'')) (rows m))
          \<and> set (columns m) \<inter> set key_columns = {}
          \<and> (\<forall>r\<in>set (rows m). set (map fst r) \<inter> set key_columns = {}))
       \<and> (\<forall>m t w. main_join fr gdf df = Inr (m, t, w) \<longrightarrow>
            t = length (rows m)
            \<and> w = length (filter (\<lambda>r. notna (cell_of r ''total_violencia_domestica'')) (rows m)))"
proof (intro conjI allI impI)
  let ?m = "fold drop_if_present key_columns
            (merge_left (with_shp_keys fr gdf s) (with_csv_keys fr df c)
               ''__shp_code6'' ''__csv_code6'')"
  have res: "preparar_codigos fr gdf df s c = Inr (?m, count_notna ?m ''total_violencia_domestica'')"
    using assms by (rule preparar_codigos_result)
  have wfM: "wf_frame (merge_left (with_shp_keys fr gdf s) (with_csv_keys fr df c)
               ''__shp_code6'' ''__csv_code6'')"
    using assms(1,2) by (simp add: wf_merge_left wf_with_shp_keys wf_with_csv_keys)
  have cols: "set (columns ?m) \<inter> set key_columns = {}"
    by (auto simp: fold_drop_if_present [OF wfM])
  have "wf_frame ?m"
    using wfM by (rule wf_fold_drop_if_present)
  with cols have "\<forall>r\<in>set (rows ?m). set (map fst r) \<inter> set key_columns = {}"
    by (simp add: wf_frame_def)
  with res cols show "\<exists>m k. preparar_codigos fr gdf df s c = Inr (m, k)
          \<and> k = length (filter (\<lambda>r. notna (cell_of r ''total_violencia_domestica'')) (rows m))
          \<and> set (columns m) \<inter> set key_columns = {}
          \<and> (\<forall>r\<in>set (rows m). set (map fst r) \<inter> set key_columns = {})"
    by (auto simp: count_notna_def)
next
  fix m t w assume mj: "main_join fr gdf df = Inr (m, t, w)"
  then obtain p where jt: "join_tables fr gdf df = Inr (p, m)"
    and t: "t = length (rows m)"
    and w: "w = (if ''total_violencia_domestica'' \<in> set (columns m)
                then count_notna m ''total_violencia_domestica'' else 0)"
    by (auto simp: main_join_def split: sum.splits)
  from assms(1,2) jt have "wf_frame m" by (rule wf_join_tables)
  then have "w = count_notna m ''total_violencia_domestica''"
    using w by (simp add: count_notna_absent)
  then show "w = length (filter (\<lambda>r. notna (cell_of r ''total_violencia_domestica'')) (rows m))"
    by (simp add: count_notna_def)
  from t show "t = length (rows m)" .
qed

lemma detect_column_member: "detect_column cands cols = Some c \<Longrightarrow> c \<in> set cols"
  by (induction cands) (auto split: option.splits simp: find_Some_iff)

text \<open>
  Claim C8. When no code column is detected among the feature attributes, or none in
  the table, nothing fails at that point and the join on the name is tried: if no name
  column is detected among the feature attributes, or the table has no column
  \<^verbatim>\<open>municipio_nome\<close>, the run ends with \<^verbatim>\<open>sys.exit(1)\<close> and no table is produced;
  otherwise \<^verbatim>\<open>merge_por_nome\<close> returns and its result is the joined table.
\<close>

theorem missing_code_column_falls_back_to_names:
  assumes "detect_code_column (columns gdf) = None \<or> csv_code_column df = None"
  shows "(detect_name_column (columns gdf) = None \<or> ''municipio_nome'' \<notin> set (columns df)
            \<longrightarrow> join_tables fr gdf df = Inl SystemExit \<and> main_join fr gdf df = Inl SystemExit)
       \<and> (\<forall>n. detect_name_column (columns gdf) = Some n \<and> ''municipio_nome'' \<in> set (columns df)
            \<longrightarrow> (\<exists>m. merge_por_nome fr gdf df n = Inr m
                   \<and> join_tables fr gdf df = Inr (ByName, m)))"
proof (intro conjI allI impI)
  from assms have code: "\<not> (truthy (detect_code_column (columns gdf)) \<and> truthy (csv_code_column df))"
    by (auto simp: truthy_def)
  {
    assume "detect_name_column (columns gdf) = None \<or> ''municipio_nome'' \<notin> set (columns df)"
    with code show "join_tables fr gdf df = Inl SystemExit"
      by (auto simp: join_tables_def Let_def split: option.splits)
    then show "main_join fr gdf df = Inl SystemExit"
      by (simp add: main_join_def)
  }
  fix n assume n: "detect_name_column (columns gdf) = Some n \<and> ''municipio_nome'' \<in> set (columns df)"
  then have "n \<in> set (columns gdf)"
    by (auto simp: detect_name_column_def dest: detect_column_member)
  with n obtain m where m: "merge_por_nome fr gdf df n = Inr m"
    using merge_por_nome_length [of n gdf df fr] by blast
  with code n show "\<exists>m. merge_por_nome fr gdf df n = Inr m
                   \<and> join_tables fr gdf df = Inr (ByName, m)"
    by (auto simp: join_tables_def Let_def)
qed


lemmas detect_eval = detect_code_column_def detect_name_column_def code_candidates_def
  name_candidates_def py_lower_def py_lower_char_def char_of_def bit_Suc_0_iff

lemma detect_examples:
  "detect_code_column [''NM_MUN'', ''geometry''] = None"
  "detect_name_column [''NM_MUN'', ''geometry''] = Some ''NM_MUN''"
  "detect_code_column [''geometry''] = None"
  "detect_name_column [''geometry''] = None"
  "detect_code_column [''CD_MUN'', ''NM_MUN'', ''geometry''] = Some ''CD_MUN''"
  by (simp_all add: detect_eval)

theorem match_count_and_key_columns_witness:
  "\<exists>m k. preparar_codigos repr_integral feature_bh table_bh_twice ''CD_MUN'' ''municipio_cod''
            = Inr (m, k)
          \<and> k = length (filter (\<lambda>r. notna (cell_of r ''total_violencia_domestica'')) (rows m))
          \<and> set (columns m) \<inter> set key_columns = {}
          \<and> (\<forall>r\<in>set (rows m). set (map fst r) \<inter> set key_columns = {})"
  using match_count_and_key_columns [OF example_tables_wf(1) example_tables_wf(2),
      of "''CD_MUN''" "''municipio_cod''" repr_integral]
  by (simp add: example_tables_columns)

theorem missing_code_column_falls_back_to_names_witness:
  "(\<exists>m. merge_por_nome repr_integral feature_names_only table_bh_once ''NM_MUN'' = Inr m
        \<and> join_tables repr_integral feature_names_only table_bh_once = Inr (ByName, m))
   \<and> join_tables repr_integral feature_bare table_bh_once = Inl SystemExit
   \<and> main_join repr_integral feature_bare table_bh_once = Inl SystemExit"
proof -
  have "detect_code_column (columns feature_names_only) = None \<or> csv_code_column table_bh_once = None"
    by (simp add: feature_names_only_def detect_examples)
  from missing_code_column_falls_back_to_names [OF this, of repr_integral]
  have "\<exists>m. merge_por_nome repr_integral feature_names_only table_bh_once ''NM_MUN'' = Inr m
        \<and> join_tables repr_integral feature_names_only table_bh_once = Inr (ByName, m)"
    by (simp add: feature_names_only_def detect_examples example_tables_columns)
  moreover
  have "detect_code_column (columns feature_bare) = None \<or> csv_code_column table_bh_once = None"
    by (simp add: feature_bare_def detect_examples)
  from missing_code_column_falls_back_to_names [OF this, of repr_integral]
  have "join_tables repr_integral feature_bare table_bh_once = Inl SystemExit
   \<and> main_join repr_integral feature_bare table_bh_once = Inl SystemExit"
    by (simp add: feature_bare_def detect_examples)
  ultimately show ?thesis by simp
qed

section \<open>Name tokens\<close>

lemma sao_joao_tokens:
  "normalizar_nome fr (StrV name_accented) = ''Sao Joao Del-Rei''"
  "normalizar_nome fr (StrV name_plain) = ''Sao Joao Del Rei''"
  "normalizar_nome fr (StrV name_capitals) = ''Sao Joao Del Rei''"
  "normalizar_nome fr (StrV name_accented_no_hyphen) = ''Sao Joao Del Rei''"
  by (simp_all add: name_eval name_accented_def name_plain_def name_capitals_def
      name_accented_no_hyphen_def)

text \<open>
  Claim C4, as the code has it. The normalization removes the accents and unifies the
  letter case, and it keeps every other ASCII character: the plain spelling, the spelling
  in capitals and the accented spelling without hyphen all give \<^verbatim>\<open>Sao Joao Del Rei\<close>;
  the hyphen of \<^verbatim>\<open>del-Rei\<close> stays, so the first spelling of the claim gives
  \<^verbatim>\<open>Sao Joao Del-Rei\<close>.
\<close>

theorem name_tokens_ignore_accents_and_case:
  "normalizar_nome fr (StrV name_plain) = ''Sao Joao Del Rei''
   \<and> normalizar_nome fr (StrV name_capitals) = ''Sao Joao Del Rei''
   \<and> normalizar_nome fr (StrV name_accented_no_hyphen) = ''Sao Joao Del Rei''
   \<and> normalizar_nome fr (StrV name_accented) = ''Sao Joao Del-Rei''"
proof -
  have ascii: "encode_ascii_ignore (nfkd name_plain) = ''sao joao del rei''"
    "encode_ascii_ignore (nfkd name_capitals) = ''SAO JOAO DEL REI''"
    "encode_ascii_ignore (nfkd name_accented_no_hyphen) = ''Sao Joao del Rei''"
    "encode_ascii_ignore (nfkd name_accented) = ''Sao Joao del-Rei''"
    by (simp_all add: encode_ascii_ignore_def nfkd_def nfkd_cp_def latin1_decomposition_def
        char_of_def bit_Suc_0_iff name_plain_def name_capitals_def
        name_accented_no_hyphen_def name_accented_def)
  have pieces: "py_split ''sao joao del rei'' = [''sao'', ''joao'', ''del'', ''rei'']"
    "py_split ''SAO JOAO DEL REI'' = [''SAO'', ''JOAO'', ''DEL'', ''REI'']"
    "py_split ''Sao Joao del Rei'' = [''Sao'', ''Joao'', ''del'', ''Rei'']"
    "py_split ''Sao Joao del-Rei'' = [''Sao'', ''Joao'', ''del-Rei'']"
    by (simp_all add: py_split_def is_space_def)
  have titles: "py_title ''sao'' = ''Sao''" "py_title ''joao'' = ''Joao''"
    "py_title ''del'' = ''Del''" "py_title ''rei'' = ''Rei''"
    "py_title ''SAO'' = ''Sao''" "py_title ''JOAO'' = ''Joao''"
    "py_title ''DEL'' = ''Del''" "py_title ''REI'' = ''Rei''"
    "py_title ''Sao'' = ''Sao''" "py_title ''Joao'' = ''Joao''"
    "py_title ''Rei'' = ''Rei''" "py_title ''del-Rei'' = ''Del-Rei''"
    by (simp_all add: py_title_def is_upper_def is_lower_def ascii_lower_def ascii_upper_def
        char_of_def bit_Suc_0_iff)
  show ?thesis
    by (simp add: normalizar_nome_def ascii pieces titles)
qed

text \<open>The claim as stated fails: the first and the second spelling get different tokens.\<close>

theorem hyphen_survives_name_normalization:
  "normalizar_nome repr_integral (StrV name_accented)
     \<noteq> normalizar_nome repr_integral (StrV name_plain)"
  by (simp add: sao_joao_tokens)

section \<open>Aggregation of one year without code column\<close>

lemma drop_duplicates_from_props:
  "distinct (map (\<lambda>r. cell_of r c) (drop_duplicates_from seen c rs))
   \<and> set (map (\<lambda>r. cell_of r c) (drop_duplicates_from seen c rs))
       = set (map (\<lambda>r. cell_of r c) rs) - set seen
   \<and> (\<forall>r\<in>set (drop_duplicates_from seen c rs).
         find (\<lambda>r'. cell_of r' c = cell_of r c) rs = Some r)"
proof (induction rs arbitrary: seen)
  case Nil
  then show ?case by simp
next
  case (Cons r rs)
  show ?case
  proof (cases "cell_of r c \<in> set seen")
    case True
    with Cons [of seen] show ?thesis by auto
  next
    case False
    with Cons [of "cell_of r c # seen"] show ?thesis by auto
  qed
qed

text \<open>
  Claim C9, as the code has it. Without the code column the aggregation does not fail:
  it returns the table as it is, duplicate rows included. Duplicates are removed in
  another case, when the code column is there and no column is left to reduce (no name
  column and no numeric column besides code and year): then the rows with a code already
  seen are dropped, so that each code keeps its first row, and all columns stay.
\<close>

theorem code_column_absent_returns_table:
  "(c \<notin> set (columns df) \<longrightarrow> agrupar_por_municipio numeric df c = Inr df)
   \<and> (c \<in> set (columns df) \<and> agg_dict_of numeric c (columns df) = [] \<longrightarrow>
        (\<exists>out. agrupar_por_municipio numeric df c = Inr out
           \<and> columns out = columns df
           \<and> distinct (map (\<lambda>r. cell_of r c) (rows out))
           \<and> set (map (\<lambda>r. cell_of r c) (rows out)) = set (map (\<lambda>r. cell_of r c) (rows df))
           \<and> (\<forall>r\<in>set (rows out). find (\<lambda>r'. cell_of r' c = cell_of r c) (rows df) = Some r)))"
  using drop_duplicates_from_props [of c "[]" "rows df"]
  by (simp add: agrupar_por_municipio_def drop_duplicates_def)

theorem code_column_absent_returns_table_witness:
  "agrupar_por_municipio numeric_no_code table_no_code ''municipio_cod'' = Inr table_no_code
   \<and> (\<exists>out. agrupar_por_municipio numeric_none table_code_only ''municipio_cod'' = Inr out
           \<and> columns out = columns table_code_only
           \<and> distinct (map (\<lambda>r. cell_of r ''municipio_cod'') (rows out)))"
proof -
  have a: "''municipio_cod'' \<notin> set (columns table_no_code)"
    by (simp add: table_no_code_def)
  have b: "''municipio_cod'' \<in> set (columns table_code_only)
      \<and> agg_dict_of numeric_none ''municipio_cod'' (columns table_code_only) = []"
    by (simp add: table_code_only_def numeric_none_def YEAR_COLUMN_def)
  from code_column_absent_returns_table [of "''municipio_cod''" table_no_code numeric_no_code,
      THEN conjunct1, rule_format, OF a]
    code_column_absent_returns_table [of "''municipio_cod''" table_code_only numeric_none,
      THEN conjunct2, rule_format, OF b]
  show ?thesis by blast
qed

text \<open>
  The claim as stated fails: a table without code column that holds one row twice comes
  back with both rows.
\<close>

theorem duplicates_stay_without_code_column:
  "agrupar_por_municipio numeric_no_code table_no_code ''municipio_cod'' =
     Inr \<lparr>columns = [''municipio_nome'', ''total_violencia_domestica''],
      rows = [[(''municipio_nome'', StrV ''Belo Horizonte''),
               (''total_violencia_domestica'', IntV 10)],
              [(''municipio_nome'', StrV ''Belo Horizonte''),
               (''total_violencia_domestica'', IntV 10)]]\<rparr>"
  by (simp add: agrupar_por_municipio_def table_no_code_def)

section \<open>The wide table when there is nothing to pivot\<close>

lemma sorted_years_props:
  "sorted (map cell_sort_key (sorted_years df))
   \<and> distinct (sorted_years df)
   \<and> set (sorted_years df) = {v. v \<noteq> NaN \<and> v \<in> (\<lambda>r. cell_of r YEAR_COLUMN) ` set (rows df)}"
  by (auto simp: sorted_years_def notna_def)

text \<open>
  Claim C10. A table with the columns \<^verbatim>\<open>ano\<close> and \<^verbatim>\<open>municipio_cod\<close> and none of the
  three metric columns is returned unchanged, with the list of its years: the distinct
  years that are not missing, in ascending order.
\<close>

theorem no_metric_column_returns_table:
  assumes "''ano'' \<in> set (columns df)" and "''municipio_cod'' \<in> set (columns df)"
    and "''total_violencia_domestica'' \<notin> set (columns df)"
    and "''feminicidios'' \<notin> set (columns df)"
    and "''taxa_feminicidio'' \<notin> set (columns df)"
  shows "\<exists>anos. pivotar_dados_por_ano df = Inr (df, Some anos)
           \<and> sorted (map cell_sort_key anos) \<and> distinct anos
           \<and> set anos = {v. v \<noteq> NaN \<and> v \<in> (\<lambda>r. cell_of r ''ano'') ` set (rows df)}"
  using assms sorted_years_props [of df]
  by (simp add: pivotar_dados_por_ano_def YEAR_COLUMN_def METRIC_COLUMNS_def)

theorem no_metric_column_returns_table_witness:
  "pivotar_dados_por_ano table_no_metrics = Inr (table_no_metrics, Some [IntV 2022, IntV 2023])"
proof -
  have "''ano'' \<in> set (columns table_no_metrics)"
    "''municipio_cod'' \<in> set (columns table_no_metrics)"
    "''total_violencia_domestica'' \<notin> set (columns table_no_metrics)"
    "''feminicidios'' \<notin> set (columns table_no_metrics)"
    "''taxa_feminicidio'' \<notin> set (columns table_no_metrics)"
    by (simp_all add: table_no_metrics_def)
  from no_metric_column_returns_table [OF this]
  obtain anos where "pivotar_dados_por_ano table_no_metrics = Inr (table_no_metrics, Some anos)"
    by blast
  moreover have "sorted_years table_no_metrics = [IntV 2022, IntV 2023]"
    by (simp add: sorted_years_def table_no_metrics_def cell_of_def YEAR_COLUMN_def notna_def
        cell_sort_key_def)
  moreover have "pivotar_dados_por_ano table_no_metrics
      = Inr (table_no_metrics, Some (sorted_years table_no_metrics))"
    by (simp add: pivotar_dados_por_ano_def table_no_metrics_def YEAR_COLUMN_def
        METRIC_COLUMNS_def)
  ultimately show ?thesis by simp
qed

section \<open>Aggregation of one year\<close>

lemma agg_dict_of_eq:
  "agg_dict_of numeric c cols =
     map (\<lambda>col. (col, configured_reducer col)) (filter (is_aggregated numeric c) cols)"
  by (induction cols) (auto simp: is_aggregated_def configured_reducer_def)

lemma agg_row_Inr:
  assumes "\<And>col f. (col, f) \<in> set agg_dict \<Longrightarrow>
             \<exists>v. agg_cell f (map (\<lambda>r. cell_of r col) members) = Inr v"
  shows "agg_row agg_dict members =
     Inr (map (\<lambda>(col, f). (col, projr (agg_cell f (map (\<lambda>r. cell_of r col) members)))) agg_dict)"
  using assms
proof (induction agg_dict)
  case Nil
  then show ?case by simp
next
  case (Cons a agg_dict)
  obtain col f where a: "a = (col, f)" by (cases a)
  from Cons.prems [of col f] a obtain v
    where v: "agg_cell f (map (\<lambda>r. cell_of r col) members) = Inr v"
    by auto
  have "agg_row agg_dict members =
     Inr (map (\<lambda>(col, f). (col, projr (agg_cell f (map (\<lambda>r. cell_of r col) members)))) agg_dict)"
    using Cons.prems by (intro Cons.IH) auto
  with a v show ?case by simp
qed

lemma agg_groups_Inr:
  assumes "\<And>k col f. k \<in> set ks \<Longrightarrow> (col, f) \<in> set agg_dict \<Longrightarrow>
             \<exists>v. agg_cell f (map (\<lambda>r. cell_of r col) (filter (\<lambda>r. key_of by r = k) rs)) = Inr v"
  shows "agg_groups by agg_dict rs ks =
     Inr (map (\<lambda>k. zip by k @ map (\<lambda>(col, f). (col, projr (agg_cell f
            (map (\<lambda>r. cell_of r col) (filter (\<lambda>r. key_of by r = k) rs))))) agg_dict) ks)"
  using assms
proof (induction ks)
  case Nil
  then show ?case by simp
next
  case (Cons k ks)
  have row: "agg_row agg_dict (filter (\<lambda>r. key_of by r = k) rs) =
     Inr (map (\<lambda>(col, f). (col, projr (agg_cell f
            (map (\<lambda>r. cell_of r col) (filter (\<lambda>r. key_of by r = k) rs))))) agg_dict)"
    using Cons.prems by (intro agg_row_Inr) auto
  have "agg_groups by agg_dict rs ks =
     Inr (map (\<lambda>k. zip by k @ map (\<lambda>(col, f). (col, projr (agg_cell f
            (map (\<lambda>r. cell_of r col) (filter (\<lambda>r. key_of by r = k) rs))))) agg_dict) ks)"
    using Cons.prems by (intro Cons.IH) auto
  with row show ?case by simp
qed

lemma reduce_sum_no_text:
  "\<not> list_ex is_text cells \<Longrightarrow> \<exists>v. reduce_sum cells = Inr v"
  by (auto simp: reduce_sum_def Let_def list_ex_iff list_all_iff)

lemma reduce_mean_no_text:
  "\<not> list_ex is_text cells \<Longrightarrow> \<exists>v. reduce_mean cells = Inr v"
  by (auto simp: reduce_mean_def Let_def list_ex_iff)

lemma agg_cell_no_text:
  "f = First \<or> \<not> list_ex is_text cells \<Longrightarrow> \<exists>v. agg_cell f cells = Inr v"
  using reduce_sum_no_text [of cells] reduce_mean_no_text [of cells]
  by (cases f) (auto simp: agg_cell_def)


lemma group_keys_props:
  "distinct (group_keys by rs)"
  "set (group_keys by rs) = {k. list_all notna k \<and> k \<in> key_of by ` set rs}"
  by (auto simp: group_keys_def)

lemma map_of_keyed:
  "map_of (map (\<lambda>k. (k, h k)) ks) k = (if k \<in> set ks then Some (h k) else None)"
  by (induction ks) auto

lemma one_year_example:
  "agrupar_por_municipio numeric_one_year table_one_year ''municipio_cod'' =
     Inr \<lparr>columns = [''municipio_cod'', ''municipio_nome'', ''taxa_feminicidio'',
                      ''total_violencia_domestica''],
          rows = [[(''municipio_cod'', IntV 310620), (''municipio_nome'', StrV ''Belo Horizonte''),
                   (''taxa_feminicidio'', FltV 3), (''total_violencia_domestica'', IntV 25)]]\<rparr>"
  by code_simp

text \<open>
  Claim C6. When the table has the code column and some column to reduce, and the columns
  of numeric type hold no text, the aggregation returns a table whose columns are the
  code column followed by the name column and the numeric columns (the year column and
  every other column that is not numeric are gone); it has one row for each code that
  is not missing; and the cell of a reduced column in the row of a code is the configured
  reducer (\<^verbatim>\<open>first\<close> for the name, the mean for a metric of the mean set, the sum
  otherwise) of that column over the input rows with that code. In particular the two
  rows with the rates 2.0 and 4.0 and the counts 10 and 15 give one row with the rate 3.0
  and the count 25.
\<close>

theorem single_year_aggregation:
  assumes "c \<in> set (columns df)"
    and "\<exists>col\<in>set (columns df). is_aggregated numeric c col"
    and dtype: "\<And>col r. numeric col \<Longrightarrow> r \<in> set (rows df) \<Longrightarrow> \<not> is_text (cell_of r col)"
  shows "(\<exists>out. agrupar_por_municipio numeric df c = Inr out
      \<and> columns out = c # filter (is_aggregated numeric c) (columns df)
      \<and> distinct (map (\<lambda>r. cell_of r c) (rows out))
      \<and> set (map (\<lambda>r. cell_of r c) (rows out))
           = {v. v \<noteq> NaN \<and> v \<in> (\<lambda>r. cell_of r c) ` set (rows df)}
      \<and> (\<forall>r\<in>set (rows out). \<forall>col\<in>set (columns out). col \<noteq> c \<longrightarrow>
           agg_cell (configured_reducer col)
             (map (\<lambda>r'. cell_of r' col) (filter (\<lambda>r'. cell_of r' c = cell_of r c) (rows df)))
           = Inr (cell_of r col)))
    \<and> agrupar_por_municipio numeric_one_year table_one_year ''municipio_cod'' =
        Inr \<lparr>columns = [''municipio_cod'', ''municipio_nome'', ''taxa_feminicidio'',
                      ''total_violencia_domestica''],
          rows = [[(''municipio_cod'', IntV 310620), (''municipio_nome'', StrV ''Belo Horizonte''),
                   (''taxa_feminicidio'', FltV 3), (''total_violencia_domestica'', IntV 25)]]\<rparr>"
proof -
  let ?cols = "filter (is_aggregated numeric c) (columns df)"
  let ?aggs = "map (\<lambda>col. (col, configured_reducer col)) ?cols"
  let ?K = "group_keys [c] (rows df)"
  let ?cells = "\<lambda>k col. map (\<lambda>r. cell_of r col) (filter (\<lambda>r. key_of [c] r = k) (rows df))"
  let ?h = "\<lambda>k col. projr (agg_cell (configured_reducer col) (?cells k col))"
  let ?row = "\<lambda>k. zip [c] k @ map (\<lambda>col. (col, ?h k col)) ?cols"
  have ne: "?aggs \<noteq> []"
    using assms(2) by (auto simp: filter_empty_conv)
  have ok: "\<exists>v. agg_cell f (?cells k col) = Inr v" if "(col, f) \<in> set ?aggs" for k col f
  proof -
    from that have f: "f = configured_reducer col" and agg: "is_aggregated numeric c col"
      by auto
    show ?thesis
    proof (cases "col = ''municipio_nome''")
      case True
      with f show ?thesis by (simp add: configured_reducer_def agg_cell_def)
    next
      case False
      with agg have "numeric col" by (simp add: is_aggregated_def)
      then have "\<not> list_ex is_text (?cells k col)"
        using dtype by (auto simp: list_ex_iff)
      then show ?thesis by (intro agg_cell_no_text) simp
    qed
  qed
  have groups: "agg_groups [c] ?aggs (rows df) ?K =
      Inr (map (\<lambda>k. zip [c] k @ map (\<lambda>(col, f). (col, projr (agg_cell f (?cells k col)))) ?aggs) ?K)"
    by (rule agg_groups_Inr) (rule ok)
  have rows_eq: "map (\<lambda>k. zip [c] k @ map (\<lambda>(col, f). (col, projr (agg_cell f (?cells k col)))) ?aggs) ?K
      = map ?row ?K"
    by (simp add: comp_def)
  let ?out = "\<lparr>columns = [c] @ map fst ?aggs, rows = map ?row ?K\<rparr>"
  have res: "agrupar_por_municipio numeric df c = Inr ?out"
    using assms(1) ne groups rows_eq
    by (simp add: agrupar_por_municipio_def agg_dict_of_eq groupby_agg_def Let_def)
  have cols: "columns ?out = c # ?cols"
    by (simp add: comp_def)
  have single: "\<exists>v. k = [v] \<and> v \<noteq> NaN \<and> v \<in> (\<lambda>r. cell_of r c) ` set (rows df)"
    if "k \<in> set ?K" for k
    using that by (auto simp: group_keys_props key_of_def notna_def)
  have code_of_row: "cell_of (?row k) c = hd k" if "k \<in> set ?K" for k
    using single [OF that] by (auto simp: cell_of_def)
  have codes: "map (\<lambda>r. cell_of r c) (rows ?out) = map hd ?K"
    using code_of_row by (simp add: comp_def)
  have inj: "inj_on hd (set ?K)"
  proof (rule inj_onI)
    fix x y assume "x \<in> set ?K" and "y \<in> set ?K" and "hd x = hd y"
    with single [of x] single [of y] show "x = y" by auto
  qed
  have d: "distinct (map (\<lambda>r. cell_of r c) (rows ?out))"
    unfolding codes using inj by (simp add: distinct_map group_keys_props)
  have st: "set (map (\<lambda>r. cell_of r c) (rows ?out))
           = {v. v \<noteq> NaN \<and> v \<in> (\<lambda>r. cell_of r c) ` set (rows df)}"
  proof -
    have "hd ` set ?K = {v. v \<noteq> NaN \<and> v \<in> (\<lambda>r. cell_of r c) ` set (rows df)}"
    proof (intro set_eqI iffI)
      fix v assume "v \<in> hd ` set ?K"
      then show "v \<in> {v. v \<noteq> NaN \<and> v \<in> (\<lambda>r. cell_of r c) ` set (rows df)}"
        using single by fastforce
    next
      fix v assume "v \<in> {v. v \<noteq> NaN \<and> v \<in> (\<lambda>r. cell_of r c) ` set (rows df)}"
      then have "[v] \<in> set ?K"
        by (auto simp: group_keys_props key_of_def notna_def)
      then show "v \<in> hd ` set ?K"
        by force
    qed
    then show ?thesis unfolding codes by simp
  qed
  have cells: "agg_cell (configured_reducer col)
             (map (\<lambda>r'. cell_of r' col) (filter (\<lambda>r'. cell_of r' c = cell_of r c) (rows df)))
           = Inr (cell_of r col)"
    if r: "r \<in> set (rows ?out)" and col: "col \<in> set (columns ?out)" and neq: "col \<noteq> c" for r col
  proof -
    from r obtain k where k: "k \<in> set ?K" and rk: "r = ?row k" by auto
    from single [OF k] obtain v where v: "k = [v]" by blast
    from col neq have col': "col \<in> set ?cols" by (simp add: comp_def)
    have "cell_of r c = v"
      using code_of_row [OF k] rk v by simp
    then have same: "filter (\<lambda>r'. cell_of r' c = cell_of r c) (rows df)
        = filter (\<lambda>r. key_of [c] r = k) (rows df)"
      using v by (simp add: key_of_def)
    have "cell_of r col = ?h k col"
      using rk v neq col' by (simp add: cell_of_def map_of_keyed)
    moreover from ok [of col "configured_reducer col" k] col'
    obtain w where "agg_cell (configured_reducer col) (?cells k col) = Inr w"
      by auto
    ultimately show ?thesis
      unfolding same by simp
  qed
  from res cols d st cells
  have "\<exists>out. agrupar_por_municipio numeric df c = Inr out
      \<and> columns out = c # filter (is_aggregated numeric c) (columns df)
      \<and> distinct (map (\<lambda>r. cell_of r c) (rows out))
      \<and> set (map (\<lambda>r. cell_of r c) (rows out))
           = {v. v \<noteq> NaN \<and> v \<in> (\<lambda>r. cell_of r c) ` set (rows df)}
      \<and> (\<forall>r\<in>set (rows out). \<forall>col\<in>set (columns out). col \<noteq> c \<longrightarrow>
           agg_cell (configured_reducer col)
             (map (\<lambda>r'. cell_of r' col) (filter (\<lambda>r'. cell_of r' c = cell_of r c) (rows df)))
           = Inr (cell_of r col))"
    by blast
  then show ?thesis
    using one_year_example by (rule conjI)
qed

theorem single_year_aggregation_witness:
  "\<exists>out. agrupar_por_municipio numeric_one_year table_one_year ''municipio_cod'' = Inr out
      \<and> columns out = [''municipio_cod'', ''municipio_nome'', ''taxa_feminicidio'',
                         ''total_violencia_domestica'']
      \<and> distinct (map (\<lambda>r. cell_of r ''municipio_cod'') (rows out))
      \<and> set (map (\<lambda>r. cell_of r ''municipio_cod'') (rows out)) = {IntV 310620}"
proof -
  have c: "''municipio_cod'' \<in> set (columns table_one_year)"
    by (simp add: table_one_year_def)
  have a: "\<exists>col\<in>set (columns table_one_year).
      is_aggregated numeric_one_year ''municipio_cod'' col"
    by (simp add: table_one_year_def is_aggregated_def YEAR_COLUMN_def)
  have t: "\<not> is_text (cell_of r col)"
    if "numeric_one_year col" and "r \<in> set (rows table_one_year)" for col r
    using that by (auto simp: numeric_one_year_def table_one_year_def cell_of_def is_text_def)
  have cols: "''municipio_cod'' # filter (is_aggregated numeric_one_year ''municipio_cod'')
      (columns table_one_year) = [''municipio_cod'', ''municipio_nome'', ''taxa_feminicidio'',
                         ''total_violencia_domestica'']"
    by (simp add: table_one_year_def is_aggregated_def numeric_one_year_def YEAR_COLUMN_def)
  have codes: "{v. v \<noteq> NaN \<and> v \<in> (\<lambda>r. cell_of r ''municipio_cod'') ` set (rows table_one_year)}
      = {IntV 310620}"
    by (auto simp: table_one_year_def cell_of_def)
  from single_year_aggregation [OF c a t, THEN conjunct1]
  show ?thesis
    unfolding cols codes by blast
qed

section \<open>The wide table\<close>

lemma cell_of_zip_key:
  assumes "distinct cs" and "length k = length cs"
  shows "map (cell_of (zip cs k @ rest)) cs = k"
  using assms
proof (induction cs arbitrary: k rest)
  case Nil
  then show ?case by simp
next
  case (Cons c cs)
  then obtain v vs where k: "k = v # vs" by (cases k) auto
  have "map (cell_of ((c, v) # zip cs vs @ rest)) cs = map (cell_of (zip cs vs @ rest)) cs"
    using Cons.prems(1) by (intro map_cong) (auto simp: cell_of_def)
  also have "\<dots> = vs"
    using Cons.prems k by (intro Cons.IH) auto
  finally have "map (cell_of ((c, v) # zip cs vs @ rest)) cs = vs" .
  moreover have "cell_of ((c, v) # zip cs vs @ rest) c = v"
    by (simp add: cell_of_def)
  ultimately show ?case
    using k by simp
qed

lemma length_group_key: "k \<in> set (group_keys by rs) \<Longrightarrow> length k = length by"
  by (auto simp: group_keys_def key_of_def)

lemma pivot_table_index:
  assumes "pivot_table index_cols metrics agrupado = Inr pivot" and "distinct index_cols"
  shows "map (key_of index_cols) (rows pivot)
           = group_keys index_cols (pivot_entries metrics agrupado)"
proof -
  let ?entries = "pivot_entries metrics agrupado"
  let ?cols = "pivot_columns index_cols metrics ?entries"
  from assms(1) obtain labels where "column_labels ?cols = Inr labels"
    and pivot: "pivot = \<lparr>columns = index_cols @ labels,
                  rows = map (\<lambda>k. zip index_cols k
                                  @ zip labels (map (\<lambda>(metric, year).
                                      pivot_value index_cols ?entries k year metric) ?cols))
                           (group_keys index_cols ?entries)\<rparr>"
    by (auto simp: pivot_table_def Let_def split: sum.splits)
  have "map (\<lambda>k. key_of index_cols (zip index_cols k
                                  @ zip labels (map (\<lambda>(metric, year).
                                      pivot_value index_cols ?entries k year metric) ?cols)))
          (group_keys index_cols ?entries) = map (\<lambda>k. k) (group_keys index_cols ?entries)"
  proof (rule map_cong [OF refl])
    fix k assume "k \<in> set (group_keys index_cols ?entries)"
    then have "length k = length index_cols" by (rule length_group_key)
    with assms(2) show "key_of index_cols (zip index_cols k
                                  @ zip labels (map (\<lambda>(metric, year).
                                      pivot_value index_cols ?entries k year metric) ?cols)) = k"
      unfolding key_of_def by (rule cell_of_zip_key)
  qed
  then show ?thesis
    unfolding pivot by (simp add: comp_def)
qed

text \<open>
  The rows of the wide table never repeat an index: the code when the long table has no
  name column, the pair of code and name when it has one.
\<close>

lemma wide_pivot_never_repeats_an_index:
  assumes "YEAR_COLUMN \<in> set (columns df)" and "''municipio_cod'' \<in> set (columns df)"
    and "\<exists>metric\<in>set METRIC_COLUMNS. metric \<in> set (columns df)"
    and "pivotar_dados_por_ano df = Inr (pivot, anos)"
  shows "''municipio_nome'' \<in> set (columns df) \<longrightarrow>
           distinct (map (key_of [''municipio_cod'', ''municipio_nome'']) (rows pivot))"
    and "''municipio_nome'' \<notin> set (columns df) \<longrightarrow>
           distinct (map (\<lambda>r. cell_of r ''municipio_cod'') (rows pivot))"
proof -
  let ?metrics = "filter (\<lambda>col. col \<in> set (columns df)) METRIC_COLUMNS"
  let ?idx = "[''municipio_cod'']
                   @ (if ''municipio_nome'' \<in> set (columns df) then [''municipio_nome''] else [])"
  have ne: "?metrics \<noteq> []"
    using assms(3) by (auto simp: filter_empty_conv)
  from assms(1,2,4) ne obtain agrupado where "pivot_table ?idx ?metrics agrupado = Inr pivot"
    by (auto simp: pivotar_dados_por_ano_def Let_def split: sum.splits if_splits)
  moreover have "distinct ?idx" by simp
  ultimately have idx: "map (key_of ?idx) (rows pivot)
      = group_keys ?idx (pivot_entries ?metrics agrupado)"
    by (rule pivot_table_index)
  then have d: "distinct (map (key_of ?idx) (rows pivot))"
    by (simp add: group_keys_props)
  show "''municipio_nome'' \<in> set (columns df) \<longrightarrow>
           distinct (map (key_of [''municipio_cod'', ''municipio_nome'']) (rows pivot))"
    using d by auto
  show "''municipio_nome'' \<notin> set (columns df) \<longrightarrow>
           distinct (map (\<lambda>r. cell_of r ''municipio_cod'') (rows pivot))"
  proof
    assume "''municipio_nome'' \<notin> set (columns df)"
    with d have "distinct (map (key_of [''municipio_cod'']) (rows pivot))" by simp
    then show "distinct (map (\<lambda>r. cell_of r ''municipio_cod'') (rows pivot))"
      by (simp add: key_of_def distinct_map inj_on_def)
  qed
qed


text \<open>
  Long tables whose metric cells are numbers: no group fails, every aggregate is present,
  and the pivot keeps every entry and every column.
\<close>

lemma number_notna: "is_number v \<Longrightarrow> notna v"
  by (cases v) (auto simp: is_number_def notna_def)

lemma number_not_text: "is_number v \<Longrightarrow> \<not> is_text v"
  by (cases v) (auto simp: is_number_def is_text_def)

lemma agg_cell_numbers:
  assumes "cells \<noteq> []" and "\<forall>v\<in>set cells. is_number v"
  shows "\<exists>v. agg_cell f cells = Inr v \<and> notna v"
proof -
  from assms obtain c cs where cells: "cells = c # cs" by (cases cells) auto
  have keep: "filter notna cells = cells"
    using assms(2) by (simp add: filter_id_conv number_notna)
  have c: "is_number c" using assms(2) cells by simp
  have no_text: "\<not> list_ex is_text cells"
    using assms(2) by (auto simp: list_ex_iff number_not_text)
  have not_all_text: "\<not> list_all is_text cells"
    using c cells by (simp add: number_not_text)
  show ?thesis
  proof (cases f)
    case First
    with keep cells c show ?thesis
      by (simp add: agg_cell_def reduce_first_def number_notna)
  next
    case Mean
    with keep no_text cells show ?thesis
      by (simp add: agg_cell_def reduce_mean_def notna_def)
  next
    case Sum
    with keep no_text not_all_text show ?thesis
      by (simp add: agg_cell_def reduce_sum_def notna_def)
  qed
qed

lemma group_key_has_row:
  assumes "k \<in> set (group_keys by rs)"
  shows "list_all notna k" and "\<exists>r\<in>set rs. key_of by r = k"
  using assms by (auto simp: group_keys_props)

lemma groupby_agg_numbers:
  assumes "\<And>r m. r \<in> set (rows df) \<Longrightarrow> list_all notna (key_of by r) \<Longrightarrow> m \<in> set ms
             \<Longrightarrow> is_number (cell_of r m)"
  shows "groupby_agg by (map (\<lambda>m. (m, red m)) ms) df =
     Inr \<lparr>columns = by @ ms,
          rows = map (\<lambda>k. zip by k @ map (\<lambda>m. (m, projr (agg_cell (red m)
                          (map (\<lambda>r. cell_of r m) (filter (\<lambda>r. key_of by r = k) (rows df))))))
                        ms)
                   (group_keys by (rows df))\<rparr>"
    and "\<And>k m. k \<in> set (group_keys by (rows df)) \<Longrightarrow> m \<in> set ms \<Longrightarrow>
           notna (projr (agg_cell (red m)
                          (map (\<lambda>r. cell_of r m) (filter (\<lambda>r. key_of by r = k) (rows df)))))"
proof -
  let ?cells = "\<lambda>k m. map (\<lambda>r. cell_of r m) (filter (\<lambda>r. key_of by r = k) (rows df))"
  have ok: "\<exists>v. agg_cell f (?cells k m) = Inr v \<and> notna v"
    if k: "k \<in> set (group_keys by (rows df))" and m: "m \<in> set ms" for k m f
  proof (rule agg_cell_numbers)
    from group_key_has_row(2) [OF k] show "?cells k m \<noteq> []"
      by (auto simp: filter_empty_conv)
    from group_key_has_row(1) [OF k] show "\<forall>v\<in>set (?cells k m). is_number v"
      using assms m by auto
  qed
  have "agg_groups by (map (\<lambda>m. (m, red m)) ms) (rows df) (group_keys by (rows df)) =
     Inr (map (\<lambda>k. zip by k @ map (\<lambda>(col, f). (col, projr (agg_cell f (?cells k col))))
                        (map (\<lambda>m. (m, red m)) ms)) (group_keys by (rows df)))"
  proof (rule agg_groups_Inr)
    fix k col f
    assume k: "k \<in> set (group_keys by (rows df))"
      and "(col, f) \<in> set (map (\<lambda>m. (m, red m)) ms)"
    then have "col \<in> set ms" by auto
    from ok [OF k this, of f]
    show "\<exists>v. agg_cell f (?cells k col) = Inr v" by blast
  qed
  then show "groupby_agg by (map (\<lambda>m. (m, red m)) ms) df =
     Inr \<lparr>columns = by @ ms,
          rows = map (\<lambda>k. zip by k @ map (\<lambda>m. (m, projr (agg_cell (red m) (?cells k m)))) ms)
                   (group_keys by (rows df))\<rparr>"
    by (simp add: groupby_agg_def comp_def)
  show "notna (projr (agg_cell (red m) (?cells k m)))"
    if "k \<in> set (group_keys by (rows df))" and "m \<in> set ms" for k m
    using ok [OF that, of "red m"] by auto
qed


lemma column_labels_ints:
  assumes "\<forall>(m, y)\<in>set cols. is_int y"
  shows "column_labels cols = Inr (map (\<lambda>(m, y). m @ ''_'' @ str_of_int (int_of y)) cols)"
  using assms
proof (induction cols)
  case Nil
  then show ?case by simp
next
  case (Cons a cols)
  obtain m y where a: "a = (m, y)" by (cases a)
  with Cons.prems obtain i where y: "y = IntV i"
    by (cases y) (auto simp: is_int_def)
  from Cons show ?case
    by (simp add: a y py_int_def int_of_def)
qed

lemma sort_key_unique:
  assumes "distinct xs" and "distinct ys" and "set xs = set ys" and "inj_on f (set xs)"
  shows "sort_key f xs = sort_key f ys"
proof -
  let ?a = "sort_key f xs" and ?b = "sort_key f ys"
  have "map f ?a = map f ?b"
  proof (rule sorted_distinct_set_unique)
    show "sorted (map f ?a)" "sorted (map f ?b)" by (rule sorted_sort_key)+
    show "distinct (map f ?a)" using assms by (simp add: distinct_map)
    show "distinct (map f ?b)" using assms by (simp add: distinct_map)
    show "set (map f ?a) = set (map f ?b)" using assms by simp
  qed
  moreover have "inj_on f (set ?a \<union> set ?b)" using assms by simp
  ultimately show ?thesis by (simp add: inj_on_map_eq_map)
qed

lemma inj_on_int_sort_key: "\<forall>v\<in>A. is_int v \<Longrightarrow> inj_on cell_sort_key A"
proof (rule inj_onI)
  fix x y
  assume ints: "\<forall>v\<in>A. is_int v" and "x \<in> A" "y \<in> A" "cell_sort_key x = cell_sort_key y"
  then show "x = y"
    by (cases x; cases y) (auto simp: is_int_def cell_sort_key_def)
qed

lemma pivot_table_full:
  assumes full: "\<forall>r\<in>set (rows agr). \<forall>m\<in>set metrics. notna (cell_of r m)"
    and keys: "\<forall>r\<in>set (rows agr). list_all notna (key_of index_cols r)"
    and ints: "\<forall>r\<in>set (rows agr). is_int (cell_of r YEAR_COLUMN)"
    and ne: "metrics \<noteq> []"
  shows "pivot_entries metrics agr = rows agr"
    and "pivot_columns index_cols metrics (rows agr) =
           concat (map (\<lambda>year. map (\<lambda>metric. (metric, year)) (sort metrics))
             (sort_key cell_sort_key (remdups (map (\<lambda>r. cell_of r YEAR_COLUMN) (rows agr)))))"
proof -
  from ne obtain m0 where m0: "m0 \<in> set metrics" by (cases metrics) auto
  show "pivot_entries metrics agr = rows agr"
    unfolding pivot_entries_def
    using full m0 by (auto simp: filter_id_conv list_ex_iff)
  let ?entries = "rows agr"
  have keep: "list_ex (\<lambda>k. notna (pivot_value index_cols ?entries k year metric))
                 (group_keys index_cols ?entries)"
    if year: "year \<in> set (map (\<lambda>r. cell_of r YEAR_COLUMN) ?entries)"
      and metric: "metric \<in> set metrics" for year metric
  proof -
    from year obtain r where r: "r \<in> set ?entries" "cell_of r YEAR_COLUMN = year" by auto
    let ?k = "key_of index_cols r"
    let ?sel = "filter (\<lambda>r. key_of index_cols r = ?k \<and> cell_of r YEAR_COLUMN = year) ?entries"
    have k: "?k \<in> set (group_keys index_cols ?entries)"
      using r keys by (auto simp: group_keys_props)
    have "r \<in> set ?sel" using r by simp
    then obtain s ss where sel: "?sel = s # ss" by (cases ?sel) auto
    have "s \<in> set ?sel" by (simp only: sel list.set insertI1)
    then have s: "s \<in> set ?entries" by simp
    have all: "filter notna (map (\<lambda>r. cell_of r metric) ?sel) = map (\<lambda>r. cell_of r metric) ?sel"
      using full metric by (auto simp: filter_id_conv)
    have "pivot_value index_cols ?entries ?k year metric = cell_of s metric"
      unfolding pivot_value_def reduce_first_def all by (simp only: sel list.map list.case)
    with full s metric have "notna (pivot_value index_cols ?entries ?k year metric)" by simp
    with k show ?thesis unfolding list_ex_iff by blast
  qed
  show "pivot_columns index_cols metrics ?entries =
           concat (map (\<lambda>year. map (\<lambda>metric. (metric, year)) (sort metrics))
             (sort_key cell_sort_key (remdups (map (\<lambda>r. cell_of r YEAR_COLUMN) ?entries))))"
    unfolding pivot_columns_def
    by (intro arg_cong [where f = concat] map_cong refl arg_cong [where f = "map _"])
       (use keep in \<open>auto simp: filter_id_conv\<close>)
qed


lemma groupby_row:
  assumes "distinct by" and "set ms \<inter> set by = {}" and "length k = length by"
  shows "key_of by (zip by k @ map (\<lambda>m. (m, h m)) ms) = k"
    and "m \<in> set ms \<Longrightarrow> cell_of (zip by k @ map (\<lambda>m. (m, h m)) ms) m = h m"
proof -
  show "key_of by (zip by k @ map (\<lambda>m. (m, h m)) ms) = k"
    unfolding key_of_def using assms(1,3) by (rule cell_of_zip_key)
  assume m: "m \<in> set ms"
  with assms(2) have "m \<notin> set by" by auto
  then have "m \<notin> set (map fst (zip by k))" using assms(3) by simp
  then have "cell_of (zip by k @ map (\<lambda>m. (m, h m)) ms) m = cell_of (map (\<lambda>m. (m, h m)) ms) m"
    by (rule cell_of_append_fresh)
  also have "\<dots> = h m" using m by (simp add: cell_of_def map_of_keyed)
  finally show "cell_of (zip by k @ map (\<lambda>m. (m, h m)) ms) m = h m" .
qed

lemma key_of_snoc: "key_of (cs @ [c]) r = key_of cs r @ [cell_of r c]"
  by (simp add: key_of_def)

lemma labels_2022_2023:
  "column_labels [(''feminicidios'', IntV 2022), (''feminicidios'', IntV 2023)]
     = Inr [''feminicidios_2022'', ''feminicidios_2023'']"
  by (simp add: py_int_def str_of_int_def digit_char_def)

text \<open>
  The records of municipality 310620, 3 \<^verbatim>\<open>feminicidios\<close> in 2022 and 5 in 2023, give one
  row with \<^verbatim>\<open>feminicidios_2022 = 3\<close> and \<^verbatim>\<open>feminicidios_2023 = 5\<close>.
\<close>

lemma wide_pivot_example:
  "pivotar_dados_por_ano table_feminicidios =
     Inr (\<lparr>columns = [''municipio_cod'', ''feminicidios_2022'', ''feminicidios_2023''],
           rows = [[(''municipio_cod'', IntV 310620), (''feminicidios_2022'', IntV 3),
                    (''feminicidios_2023'', IntV 5)]]\<rparr>,
          Some [IntV 2022, IntV 2023])"
proof -
  let ?agr = "\<lparr>columns = [''municipio_cod'', ''ano'', ''feminicidios''],
      rows = [[(''municipio_cod'', IntV 310620), (''ano'', IntV 2022), (''feminicidios'', IntV 3)],
              [(''municipio_cod'', IntV 310620), (''ano'', IntV 2023), (''feminicidios'', IntV 5)]]\<rparr>"
  have g: "groupby_agg [''municipio_cod'', ''ano''] [(''feminicidios'', Sum)] table_feminicidios
      = Inr ?agr"
    by code_simp
  have c: "pivot_columns [''municipio_cod''] [''feminicidios'']
        (pivot_entries [''feminicidios''] ?agr)
      = [(''feminicidios'', IntV 2022), (''feminicidios'', IntV 2023)]"
    by code_simp
  have r: "map (\<lambda>k. zip [''municipio_cod''] k
                @ zip [''feminicidios_2022'', ''feminicidios_2023'']
                    (map (\<lambda>(metric, year). pivot_value [''municipio_cod'']
                            (pivot_entries [''feminicidios''] ?agr) k year metric)
                       [(''feminicidios'', IntV 2022), (''feminicidios'', IntV 2023)]))
             (group_keys [''municipio_cod''] (pivot_entries [''feminicidios''] ?agr))
      = [[(''municipio_cod'', IntV 310620), (''feminicidios_2022'', IntV 3),
          (''feminicidios_2023'', IntV 5)]]"
    by code_simp
  have p: "pivot_table [''municipio_cod''] [''feminicidios''] ?agr =
     Inr \<lparr>columns = [''municipio_cod'', ''feminicidios_2022'', ''feminicidios_2023''],
           rows = [[(''municipio_cod'', IntV 310620), (''feminicidios_2022'', IntV 3),
                    (''feminicidios_2023'', IntV 5)]]\<rparr>"
    unfolding pivot_table_def Let_def c labels_2022_2023 sum.case r by simp
  have y: "sorted_years table_feminicidios = [IntV 2022, IntV 2023]"
    by code_simp
  have cols: "columns table_feminicidios = [''municipio_cod'', ''ano'', ''feminicidios'']"
    by (simp add: table_feminicidios_def)
  show ?thesis
    unfolding pivotar_dados_por_ano_def cols
    by (simp add: YEAR_COLUMN_def METRIC_COLUMNS_def METRIC_MEAN_def g p y)
qed


lemma labels_two_metrics:
  "column_labels [(''feminicidios'', IntV 2022), (''total_violencia_domestica'', IntV 2022),
                  (''feminicidios'', IntV 2023), (''total_violencia_domestica'', IntV 2023)]
     = Inr [''feminicidios_2022'', ''total_violencia_domestica_2022'',
            ''feminicidios_2023'', ''total_violencia_domestica_2023'']"
  by (simp add: py_int_def str_of_int_def digit_char_def)

text \<open>
  Claim C5, as the code has it. The grouping and the pivot leave out the records in which
  the code is missing. Take a table with the year column, the code column and some metric
  column, in which the other records have an integer year, numbers in the metric cells
  and, when the table has the column \<^verbatim>\<open>municipio_nome\<close>, a name, and in which no code
  comes with two names. Then the wide table has exactly one row for each code of these
  records, and its columns are the index columns and then one column \<^verbatim>\<open>metric_year\<close> for
  each year of these records and each metric column of the table: ordered by year and, for
  one year, by metric name. The list of years that comes with it holds every year of the
  table. In particular, the records of municipality 310620 with 3 \<^verbatim>\<open>feminicidios\<close> in
  2022 and 5 in 2023 give one row with \<^verbatim>\<open>feminicidios_2022 = 3\<close> and
  \<^verbatim>\<open>feminicidios_2023 = 5\<close>.
\<close>

theorem wide_pivot_one_row_per_code:
  fixes df :: frame
  defines "metrics \<equiv> filter (\<lambda>col. col \<in> set (columns df)) METRIC_COLUMNS"
    and "index_cols \<equiv> ''municipio_cod''
           # (if ''municipio_nome'' \<in> set (columns df) then [''municipio_nome''] else [])"
  defines "keyed \<equiv> filter (\<lambda>r. notna (cell_of r ''municipio_cod'')) (rows df)"
  assumes ano: "YEAR_COLUMN \<in> set (columns df)"
    and cod: "''municipio_cod'' \<in> set (columns df)"
    and ne: "metrics \<noteq> []"
    and numbers: "\<forall>r\<in>set keyed. \<forall>m\<in>set metrics. is_number (cell_of r m)"
    and ints: "\<forall>r\<in>set keyed. is_int (cell_of r YEAR_COLUMN)"
    and names: "''municipio_nome'' \<in> set (columns df)
        \<longrightarrow> (\<forall>r\<in>set keyed. notna (cell_of r ''municipio_nome''))"
    and one_name: "\<forall>r\<in>set keyed. \<forall>s\<in>set keyed.
        cell_of r ''municipio_cod'' = cell_of s ''municipio_cod''
          \<longrightarrow> key_of index_cols r = key_of index_cols s"
  shows "(\<exists>pivot. pivotar_dados_por_ano df = Inr (pivot, Some (sorted_years df))
      \<and> distinct (map (\<lambda>r. cell_of r ''municipio_cod'') (rows pivot))
      \<and> set (map (\<lambda>r. cell_of r ''municipio_cod'') (rows pivot))
          = (\<lambda>r. cell_of r ''municipio_cod'') ` set keyed
      \<and> columns pivot = index_cols
          @ concat (map (\<lambda>year. map (\<lambda>metric. metric @ ''_'' @ str_of_int (int_of year))
                                  (sort metrics))
              (sort_key cell_sort_key (remdups (map (\<lambda>r. cell_of r YEAR_COLUMN) keyed)))))
    \<and> pivotar_dados_por_ano table_feminicidios =
        Inr (\<lparr>columns = [''municipio_cod'', ''feminicidios_2022'', ''feminicidios_2023''],
              rows = [[(''municipio_cod'', IntV 310620), (''feminicidios_2022'', IntV 3),
                       (''feminicidios_2023'', IntV 5)]]\<rparr>,
             Some [IntV 2022, IntV 2023])"
proof -
  let ?by = "index_cols @ [YEAR_COLUMN]"
  let ?red = "\<lambda>m. if m \<in> set METRIC_MEAN then Mean else Sum"
  let ?K = "group_keys ?by (rows df)"
  let ?h = "\<lambda>k m. projr (agg_cell (?red m)
               (map (\<lambda>r. cell_of r m) (filter (\<lambda>r. key_of ?by r = k) (rows df))))"
  let ?arow = "\<lambda>k. zip ?by k @ map (\<lambda>m. (m, ?h k m)) metrics"
  define agr where "agr = \<lparr>columns = ?by @ metrics, rows = map ?arow ?K\<rparr>"
  have dist_by: "distinct ?by"
    by (simp add: index_cols_def YEAR_COLUMN_def)
  have dist_idx: "distinct index_cols"
    by (simp add: index_cols_def)
  have disj: "set metrics \<inter> set ?by = {}"
    by (auto simp: metrics_def index_cols_def YEAR_COLUMN_def METRIC_COLUMNS_def)
  have idx: "index_cols = ''municipio_cod'' # tl index_cols"
    by (simp add: index_cols_def)
  have year_present: "notna (cell_of r YEAR_COLUMN)" if "r \<in> set keyed" for r
    using ints that by (cases "cell_of r YEAR_COLUMN") (auto simp: is_int_def notna_def)
  have keyed: "set keyed = {r \<in> set (rows df). list_all notna (key_of ?by r)}"
  proof (intro equalityI subsetI)
    fix r assume r: "r \<in> set keyed"
    then have "r \<in> set (rows df)" and "notna (cell_of r ''municipio_cod'')"
      by (simp_all add: keyed_def)
    moreover have "notna (cell_of r ''municipio_nome'')"
      if "''municipio_nome'' \<in> set (columns df)"
      using names that r by blast
    ultimately show "r \<in> {r \<in> set (rows df). list_all notna (key_of ?by r)}"
      using year_present [OF r] by (simp add: index_cols_def key_of_def)
  next
    fix r assume "r \<in> {r \<in> set (rows df). list_all notna (key_of ?by r)}"
    then show "r \<in> set keyed"
      by (simp add: keyed_def index_cols_def key_of_def)
  qed
  have num: "is_number (cell_of r m)"
    if "r \<in> set (rows df)" "list_all notna (key_of ?by r)" "m \<in> set metrics" for r m
    using numbers that keyed by blast
  have grouped: "groupby_agg ?by (map (\<lambda>m. (m, ?red m)) metrics) df = Inr agr"
    unfolding agr_def by (rule groupby_agg_numbers(1) [where red = ?red, OF num])
  have present: "notna (?h k m)" if "k \<in> set ?K" "m \<in> set metrics" for k m
    using groupby_agg_numbers(2) [where red = ?red and ms = metrics, OF num that] by simp
  have key_arow: "key_of ?by (?arow k) = k" if "k \<in> set ?K" for k
    using groupby_row(1) [where h = "?h k", OF dist_by disj length_group_key [OF that]] by simp
  have cell_arow: "cell_of (?arow k) m = ?h k m" if "k \<in> set ?K" "m \<in> set metrics" for k m
    using groupby_row(2) [where h = "?h k", OF dist_by disj length_group_key [OF that(1)] that(2)]
    by simp
  have K: "set ?K = key_of ?by ` set keyed"
    by (auto simp: group_keys_props keyed)
  have rows_agr: "set (rows agr) = ?arow ` set ?K"
    by (simp add: agr_def)
  have keys_agr: "key_of ?by ` set (rows agr) = key_of ?by ` set keyed"
  proof -
    have "key_of ?by ` set (rows agr) = (\<lambda>k. key_of ?by (?arow k)) ` set ?K"
      by (simp add: rows_agr image_image)
    also have "\<dots> = (\<lambda>k. k) ` set ?K"
      by (rule image_cong [OF refl]) (rule key_arow)
    finally show ?thesis by (simp add: K)
  qed
  have from_keyed: "\<exists>s\<in>set keyed. key_of ?by r = key_of ?by s" if "r \<in> set (rows agr)" for r
    using keys_agr that by (metis (no_types, lifting) imageE imageI)
  have to_agr: "\<exists>r\<in>set (rows agr). key_of ?by r = key_of ?by s" if "s \<in> set keyed" for s
    using keys_agr that by (metis (no_types, lifting) imageE imageI)
  have idx_agr: "key_of index_cols ` set (rows agr) = key_of index_cols ` set keyed"
  proof (intro equalityI subsetI)
    fix k assume "k \<in> key_of index_cols ` set (rows agr)"
    then obtain r where r: "r \<in> set (rows agr)" "k = key_of index_cols r" by auto
    from from_keyed [OF r(1)] obtain s where "s \<in> set keyed" "key_of ?by r = key_of ?by s"
      by auto
    with r show "k \<in> key_of index_cols ` set keyed" by (metis (no_types, lifting) key_of_snoc append1_eq_conv imageI)
  next
    fix k assume "k \<in> key_of index_cols ` set keyed"
    then obtain s where s: "s \<in> set keyed" "k = key_of index_cols s" by auto
    from to_agr [OF s(1)] obtain r where "r \<in> set (rows agr)" "key_of ?by r = key_of ?by s"
      by auto
    with s show "k \<in> key_of index_cols ` set (rows agr)" by (metis (no_types, lifting) key_of_snoc append1_eq_conv imageI)
  qed
  have year_agr: "(\<lambda>r. cell_of r YEAR_COLUMN) ` set (rows agr)
                    = (\<lambda>r. cell_of r YEAR_COLUMN) ` set keyed"
  proof (intro equalityI subsetI)
    fix y assume "y \<in> (\<lambda>r. cell_of r YEAR_COLUMN) ` set (rows agr)"
    then obtain r where r: "r \<in> set (rows agr)" "y = cell_of r YEAR_COLUMN" by auto
    from from_keyed [OF r(1)] obtain s where "s \<in> set keyed" "key_of ?by r = key_of ?by s"
      by auto
    with r show "y \<in> (\<lambda>r. cell_of r YEAR_COLUMN) ` set keyed" by (metis (no_types, lifting) key_of_snoc append1_eq_conv imageI)
  next
    fix y assume "y \<in> (\<lambda>r. cell_of r YEAR_COLUMN) ` set keyed"
    then obtain s where s: "s \<in> set keyed" "y = cell_of s YEAR_COLUMN" by auto
    from to_agr [OF s(1)] obtain r where "r \<in> set (rows agr)" "key_of ?by r = key_of ?by s"
      by auto
    with s show "y \<in> (\<lambda>r. cell_of r YEAR_COLUMN) ` set (rows agr)" by (metis (no_types, lifting) key_of_snoc append1_eq_conv imageI)
  qed
  have keyed_idx: "list_all notna (key_of index_cols s)" if "s \<in> set keyed" for s
    using that by (simp add: keyed key_of_snoc)
  have full: "\<forall>r\<in>set (rows agr). \<forall>m\<in>set metrics. notna (cell_of r m)"
    using present cell_arow by (auto simp: rows_agr)
  have keys: "\<forall>r\<in>set (rows agr). list_all notna (key_of index_cols r)"
  proof
    fix r assume "r \<in> set (rows agr)"
    then have "key_of index_cols r \<in> key_of index_cols ` set keyed"
      unfolding idx_agr [symmetric] by (rule imageI)
    then show "list_all notna (key_of index_cols r)" using keyed_idx by auto
  qed
  have ints_agr: "\<forall>r\<in>set (rows agr). is_int (cell_of r YEAR_COLUMN)"
  proof
    fix r assume "r \<in> set (rows agr)"
    then have "cell_of r YEAR_COLUMN \<in> (\<lambda>r. cell_of r YEAR_COLUMN) ` set keyed"
      unfolding year_agr [symmetric] by (rule imageI)
    then show "is_int (cell_of r YEAR_COLUMN)" using ints by auto
  qed
  let ?years' = "sort_key cell_sort_key (remdups (map (\<lambda>r. cell_of r YEAR_COLUMN) (rows agr)))"
  let ?years = "sort_key cell_sort_key (remdups (map (\<lambda>r. cell_of r YEAR_COLUMN) keyed))"
  let ?cols = "concat (map (\<lambda>year. map (\<lambda>metric. (metric, year)) (sort metrics)) ?years)"
  let ?labels = "map (\<lambda>(m, y). m @ ''_'' @ str_of_int (int_of y)) ?cols"
  have entries: "pivot_entries metrics agr = rows agr"
    by (rule pivot_table_full(1) [OF full keys ints_agr ne])
  have years: "?years' = ?years"
  proof (rule sort_key_unique)
    show "set (remdups (map (\<lambda>r. cell_of r YEAR_COLUMN) (rows agr)))
            = set (remdups (map (\<lambda>r. cell_of r YEAR_COLUMN) keyed))"
      using year_agr by simp
    show "inj_on cell_sort_key (set (remdups (map (\<lambda>r. cell_of r YEAR_COLUMN) (rows agr))))"
      by (rule inj_on_int_sort_key) (use ints_agr in auto)
  qed simp_all
  have cols: "pivot_columns index_cols metrics (rows agr) = ?cols"
    unfolding pivot_table_full(2) [OF full keys ints_agr ne] years ..
  have "\<forall>(m, y)\<in>set ?cols. is_int y"
    using ints by auto
  then have labels: "column_labels ?cols = Inr ?labels"
    by (rule column_labels_ints)
  define pivot where "pivot = \<lparr>columns = index_cols @ ?labels,
      rows = map (\<lambda>k. zip index_cols k
                        @ zip ?labels (map (\<lambda>(metric, year).
                            pivot_value index_cols (rows agr) k year metric) ?cols))
                 (group_keys index_cols (rows agr))\<rparr>"
  have table: "pivot_table index_cols metrics agr = Inr pivot"
    unfolding pivot_table_def Let_def entries cols labels pivot_def by simp
  have result: "pivotar_dados_por_ano df = Inr (pivot, Some (sorted_years df))"
    using ano cod ne grouped table
    by (simp add: pivotar_dados_por_ano_def metrics_def [symmetric] index_cols_def [symmetric])
  have index: "map (key_of index_cols) (rows pivot) = group_keys index_cols (rows agr)"
    using pivot_table_index [OF table dist_idx] by (simp add: entries)
  have index_set: "set (group_keys index_cols (rows agr)) = key_of index_cols ` set keyed"
    using keyed_idx by (auto simp: group_keys_props idx_agr)
  have code: "cell_of r ''municipio_cod'' = hd (key_of index_cols r)" for r
    by (subst idx) (simp add: key_of_def)
  have codes: "map (\<lambda>r. cell_of r ''municipio_cod'') (rows pivot)
                 = map hd (group_keys index_cols (rows agr))"
    unfolding index [symmetric] by (simp add: code)
  have "inj_on hd (key_of index_cols ` set keyed)"
  proof (rule inj_onI)
    fix a b
    assume "a \<in> key_of index_cols ` set keyed" "b \<in> key_of index_cols ` set keyed"
      and eq: "hd a = hd b"
    then obtain r s where rs: "r \<in> set keyed" "s \<in> set keyed"
      and ab: "a = key_of index_cols r" "b = key_of index_cols s" by auto
    from eq have "cell_of r ''municipio_cod'' = cell_of s ''municipio_cod''"
      by (simp add: code ab)
    with one_name rs show "a = b" unfolding ab by blast
  qed
  then have "distinct (map (\<lambda>r. cell_of r ''municipio_cod'') (rows pivot))"
    unfolding codes by (simp add: distinct_map group_keys_props(1) index_set)
  moreover have "set (map (\<lambda>r. cell_of r ''municipio_cod'') (rows pivot))
          = (\<lambda>r. cell_of r ''municipio_cod'') ` set keyed"
    unfolding codes by (simp add: index_set image_image code)
  moreover have "columns pivot = index_cols
          @ concat (map (\<lambda>year. map (\<lambda>metric. metric @ ''_'' @ str_of_int (int_of year))
                                  (sort metrics)) ?years)"
    by (simp add: pivot_def map_concat comp_def)
  ultimately have "\<exists>pivot. pivotar_dados_por_ano df = Inr (pivot, Some (sorted_years df))
      \<and> distinct (map (\<lambda>r. cell_of r ''municipio_cod'') (rows pivot))
      \<and> set (map (\<lambda>r. cell_of r ''municipio_cod'') (rows pivot))
          = (\<lambda>r. cell_of r ''municipio_cod'') ` set keyed
      \<and> columns pivot = index_cols
          @ concat (map (\<lambda>year. map (\<lambda>metric. metric @ ''_'' @ str_of_int (int_of year))
                                  (sort metrics)) ?years)"
    using result by blast
  then show ?thesis using wide_pivot_example by (rule conjI)
qed

theorem wide_pivot_one_row_per_code_witness:
  "(\<exists>pivot. pivotar_dados_por_ano table_two_metrics
              = Inr (pivot, Some (sorted_years table_two_metrics))
     \<and> distinct (map (\<lambda>r. cell_of r ''municipio_cod'') (rows pivot))
     \<and> set (map (\<lambda>r. cell_of r ''municipio_cod'') (rows pivot)) = {IntV 310620}
     \<and> columns pivot = [''municipio_cod'', ''feminicidios_2022'', ''total_violencia_domestica_2022'',
                         ''feminicidios_2023'', ''total_violencia_domestica_2023''])
   \<and> (\<exists>pivot. pivotar_dados_por_ano table_named = Inr (pivot, Some (sorted_years table_named))
     \<and> distinct (map (\<lambda>r. cell_of r ''municipio_cod'') (rows pivot))
     \<and> set (map (\<lambda>r. cell_of r ''municipio_cod'') (rows pivot)) = {IntV 310620, IntV 317020}
     \<and> columns pivot = [''municipio_cod'', ''municipio_nome'',
                         ''feminicidios_2022'', ''feminicidios_2023''])"
proof (rule conjI)
  let ?r1 = "[(''municipio_cod'', IntV 310620), (''ano'', IntV 2022),
              (''total_violencia_domestica'', IntV 10), (''feminicidios'', IntV 3)]"
  let ?r2 = "[(''municipio_cod'', IntV 310620), (''ano'', IntV 2023),
              (''total_violencia_domestica'', IntV 15), (''feminicidios'', IntV 5)]"
  have metrics: "filter (\<lambda>col. col \<in> set (columns table_two_metrics)) METRIC_COLUMNS
      = [''total_violencia_domestica'', ''feminicidios'']"
    by (simp add: table_two_metrics_def METRIC_COLUMNS_def)
  have idx: "''municipio_cod'' # (if ''municipio_nome'' \<in> set (columns table_two_metrics)
                 then [''municipio_nome''] else []) = [''municipio_cod'']"
    by (simp add: table_two_metrics_def)
  have keyed: "filter (\<lambda>r. notna (cell_of r ''municipio_cod'')) (rows table_two_metrics)
      = [?r1, ?r2]"
    by code_simp
  have sorted_metrics: "sort [''total_violencia_domestica'', ''feminicidios'']
      = [''feminicidios'', ''total_violencia_domestica'']"
    by code_simp
  have years: "sort_key cell_sort_key (remdups (map (\<lambda>r. cell_of r YEAR_COLUMN) [?r1, ?r2]))
      = [IntV 2022, IntV 2023]"
    by code_simp
  note shape = wide_pivot_one_row_per_code [of table_two_metrics, unfolded metrics idx keyed
      sorted_metrics years, THEN conjunct1]
  have "\<exists>pivot. pivotar_dados_por_ano table_two_metrics
              = Inr (pivot, Some (sorted_years table_two_metrics))
     \<and> distinct (map (\<lambda>r. cell_of r ''municipio_cod'') (rows pivot))
     \<and> set (map (\<lambda>r. cell_of r ''municipio_cod'') (rows pivot))
          = (\<lambda>r. cell_of r ''municipio_cod'') ` set [?r1, ?r2]
     \<and> columns pivot = [''municipio_cod'']
          @ concat (map (\<lambda>year. map (\<lambda>metric. metric @ ''_'' @ str_of_int (int_of year))
                                  [''feminicidios'', ''total_violencia_domestica''])
              [IntV 2022, IntV 2023])"
    by (rule shape)
       (simp_all add: table_two_metrics_def YEAR_COLUMN_def cell_of_def key_of_def
          is_number_def is_int_def)
  then show "\<exists>pivot. pivotar_dados_por_ano table_two_metrics
              = Inr (pivot, Some (sorted_years table_two_metrics))
     \<and> distinct (map (\<lambda>r. cell_of r ''municipio_cod'') (rows pivot))
     \<and> set (map (\<lambda>r. cell_of r ''municipio_cod'') (rows pivot)) = {IntV 310620}
     \<and> columns pivot = [''municipio_cod'', ''feminicidios_2022'', ''total_violencia_domestica_2022'',
                         ''feminicidios_2023'', ''total_violencia_domestica_2023'']"
    by (simp add: cell_of_def int_of_def str_of_int_def digit_char_def)
next
  let ?r1 = "[(''municipio_cod'', IntV 310620), (''municipio_nome'', StrV ''Belo Horizonte''),
              (''ano'', IntV 2022), (''feminicidios'', IntV 3)]"
  let ?r2 = "[(''municipio_cod'', IntV 317020), (''municipio_nome'', StrV ''Uberlandia''),
              (''ano'', IntV 2022), (''feminicidios'', IntV 7)]"
  let ?r3 = "[(''municipio_cod'', IntV 310620), (''municipio_nome'', StrV ''Belo Horizonte''),
              (''ano'', IntV 2023), (''feminicidios'', IntV 5)]"
  have metrics: "filter (\<lambda>col. col \<in> set (columns table_named)) METRIC_COLUMNS
      = [''feminicidios'']"
    by (simp add: table_named_def METRIC_COLUMNS_def)
  have idx: "''municipio_cod'' # (if ''municipio_nome'' \<in> set (columns table_named)
                 then [''municipio_nome''] else []) = [''municipio_cod'', ''municipio_nome'']"
    by (simp add: table_named_def)
  have keyed: "filter (\<lambda>r. notna (cell_of r ''municipio_cod'')) (rows table_named)
      = [?r1, ?r2, ?r3]"
    by code_simp
  have sorted_metrics: "sort [''feminicidios''] = [''feminicidios'']"
    by simp
  have years: "sort_key cell_sort_key
        (remdups (map (\<lambda>r. cell_of r YEAR_COLUMN) [?r1, ?r2, ?r3]))
      = [IntV 2022, IntV 2023]"
    by code_simp
  note shape = wide_pivot_one_row_per_code [of table_named, unfolded metrics idx keyed
      sorted_metrics years, THEN conjunct1]
  have "\<exists>pivot. pivotar_dados_por_ano table_named = Inr (pivot, Some (sorted_years table_named))
     \<and> distinct (map (\<lambda>r. cell_of r ''municipio_cod'') (rows pivot))
     \<and> set (map (\<lambda>r. cell_of r ''municipio_cod'') (rows pivot))
          = (\<lambda>r. cell_of r ''municipio_cod'') ` set [?r1, ?r2, ?r3]
     \<and> columns pivot = [''municipio_cod'', ''municipio_nome'']
          @ concat (map (\<lambda>year. map (\<lambda>metric. metric @ ''_'' @ str_of_int (int_of year))
                                  [''feminicidios''])
              [IntV 2022, IntV 2023])"
    by (rule shape)
       (simp_all add: table_named_def YEAR_COLUMN_def cell_of_def key_of_def
          is_number_def is_int_def notna_def)
  then show "\<exists>pivot. pivotar_dados_por_ano table_named
              = Inr (pivot, Some (sorted_years table_named))
     \<and> distinct (map (\<lambda>r. cell_of r ''municipio_cod'') (rows pivot))
     \<and> set (map (\<lambda>r. cell_of r ''municipio_cod'') (rows pivot)) = {IntV 310620, IntV 317020}
     \<and> columns pivot = [''municipio_cod'', ''municipio_nome'',
                         ''feminicidios_2022'', ''feminicidios_2023'']"
    by (simp add: cell_of_def int_of_def str_of_int_def digit_char_def insert_commute)
qed

text \<open>
  The claim as stated fails. With two metrics the columns of one metric are not side by
  side: the columns of 2022 come first, then those of 2023. And the record of 2024 has no
  code, so that the table has no column for 2024, a year of the input (it is in the list
  of years).
\<close>

theorem wide_pivot_orders_columns_by_year_first:
  "pivotar_dados_por_ano table_two_metrics =
     Inr (\<lparr>columns = [''municipio_cod'', ''feminicidios_2022'', ''total_violencia_domestica_2022'',
                       ''feminicidios_2023'', ''total_violencia_domestica_2023''],
           rows = [[(''municipio_cod'', IntV 310620),
                    (''feminicidios_2022'', IntV 3), (''total_violencia_domestica_2022'', IntV 10),
                    (''feminicidios_2023'', IntV 5), (''total_violencia_domestica_2023'', IntV 15)]]\<rparr>,
          Some [IntV 2022, IntV 2023, IntV 2024])"
proof -
  let ?agr = "\<lparr>columns = [''municipio_cod'', ''ano'', ''total_violencia_domestica'', ''feminicidios''],
      rows = [[(''municipio_cod'', IntV 310620), (''ano'', IntV 2022),
               (''total_violencia_domestica'', IntV 10), (''feminicidios'', IntV 3)],
              [(''municipio_cod'', IntV 310620), (''ano'', IntV 2023),
               (''total_violencia_domestica'', IntV 15), (''feminicidios'', IntV 5)]]\<rparr>"
  let ?metrics = "[''total_violencia_domestica'', ''feminicidios'']"
  let ?cols = "[(''feminicidios'', IntV 2022), (''total_violencia_domestica'', IntV 2022),
                (''feminicidios'', IntV 2023), (''total_violencia_domestica'', IntV 2023)]"
  have g: "groupby_agg [''municipio_cod'', ''ano'']
        [(''total_violencia_domestica'', Sum), (''feminicidios'', Sum)] table_two_metrics
      = Inr ?agr"
    by code_simp
  have c: "pivot_columns [''municipio_cod''] ?metrics (pivot_entries ?metrics ?agr) = ?cols"
    by code_simp
  have r: "map (\<lambda>k. zip [''municipio_cod''] k
                @ zip [''feminicidios_2022'', ''total_violencia_domestica_2022'',
                       ''feminicidios_2023'', ''total_violencia_domestica_2023'']
                    (map (\<lambda>(metric, year). pivot_value [''municipio_cod'']
                            (pivot_entries ?metrics ?agr) k year metric) ?cols))
             (group_keys [''municipio_cod''] (pivot_entries ?metrics ?agr))
      = [[(''municipio_cod'', IntV 310620),
          (''feminicidios_2022'', IntV 3), (''total_violencia_domestica_2022'', IntV 10),
          (''feminicidios_2023'', IntV 5), (''total_violencia_domestica_2023'', IntV 15)]]"
    by code_simp
  have p: "pivot_table [''municipio_cod''] ?metrics ?agr =
     Inr \<lparr>columns = [''municipio_cod'', ''feminicidios_2022'', ''total_violencia_domestica_2022'',
                       ''feminicidios_2023'', ''total_violencia_domestica_2023''],
           rows = [[(''municipio_cod'', IntV 310620),
                    (''feminicidios_2022'', IntV 3), (''total_violencia_domestica_2022'', IntV 10),
                    (''feminicidios_2023'', IntV 5), (''total_violencia_domestica_2023'', IntV 15)]]\<rparr>"
    unfolding pivot_table_def Let_def c labels_two_metrics sum.case r by simp
  have y: "sorted_years table_two_metrics = [IntV 2022, IntV 2023, IntV 2024]"
    by code_simp
  have cols: "columns table_two_metrics
      = [''municipio_cod'', ''ano'', ''total_violencia_domestica'', ''feminicidios'']"
    by (simp add: table_two_metrics_def)
  show ?thesis
    unfolding pivotar_dados_por_ano_def cols
    by (simp add: YEAR_COLUMN_def METRIC_COLUMNS_def METRIC_MEAN_def g p y)
qed

text \<open>
  The theorem says nothing about a table in which one code comes with two names, or in
  which a record with a code has no name. There the code does not keep to its docstring
  (one row per municipality): \<^verbatim>\<open>municipio_nome\<close> is in the index of the grouping and of
  the pivot, next to \<^verbatim>\<open>municipio_cod\<close>, so that the wide table has a row for each
  spelling, with the years of that spelling, and loses the records without a name.
  (\<^verbatim>\<open>agrupar_por_municipio\<close> groups by the code alone and takes the first name.)
\<close>

lemma two_spellings_give_two_rows:
  "pivotar_dados_por_ano table_two_spellings =
     Inr (\<lparr>columns = [''municipio_cod'', ''municipio_nome'',
                       ''feminicidios_2022'', ''feminicidios_2023''],
           rows = [[(''municipio_cod'', IntV 310620), (''municipio_nome'', StrV ''BELO HORIZONTE''),
                    (''feminicidios_2022'', NaN), (''feminicidios_2023'', IntV 5)],
                   [(''municipio_cod'', IntV 310620), (''municipio_nome'', StrV ''Belo Horizonte''),
                    (''feminicidios_2022'', IntV 3), (''feminicidios_2023'', NaN)]]\<rparr>,
          Some [IntV 2022, IntV 2023])"
proof -
  let ?agr = "\<lparr>columns = [''municipio_cod'', ''municipio_nome'', ''ano'', ''feminicidios''],
      rows = [[(''municipio_cod'', IntV 310620), (''municipio_nome'', StrV ''BELO HORIZONTE''),
               (''ano'', IntV 2023), (''feminicidios'', IntV 5)],
              [(''municipio_cod'', IntV 310620), (''municipio_nome'', StrV ''Belo Horizonte''),
               (''ano'', IntV 2022), (''feminicidios'', IntV 3)]]\<rparr>"
  have g: "groupby_agg [''municipio_cod'', ''municipio_nome'', ''ano''] [(''feminicidios'', Sum)]
        table_two_spellings = Inr ?agr"
    by code_simp
  have c: "pivot_columns [''municipio_cod'', ''municipio_nome''] [''feminicidios'']
        (pivot_entries [''feminicidios''] ?agr)
      = [(''feminicidios'', IntV 2022), (''feminicidios'', IntV 2023)]"
    by code_simp
  have r: "map (\<lambda>k. zip [''municipio_cod'', ''municipio_nome''] k
                @ zip [''feminicidios_2022'', ''feminicidios_2023'']
                    (map (\<lambda>(metric, year). pivot_value [''municipio_cod'', ''municipio_nome'']
                            (pivot_entries [''feminicidios''] ?agr) k year metric)
                       [(''feminicidios'', IntV 2022), (''feminicidios'', IntV 2023)]))
             (group_keys [''municipio_cod'', ''municipio_nome'']
                (pivot_entries [''feminicidios''] ?agr))
      = [[(''municipio_cod'', IntV 310620), (''municipio_nome'', StrV ''BELO HORIZONTE''),
          (''feminicidios_2022'', NaN), (''feminicidios_2023'', IntV 5)],
         [(''municipio_cod'', IntV 310620), (''municipio_nome'', StrV ''Belo Horizonte''),
          (''feminicidios_2022'', IntV 3), (''feminicidios_2023'', NaN)]]"
    by code_simp
  have p: "pivot_table [''municipio_cod'', ''municipio_nome''] [''feminicidios''] ?agr =
     Inr \<lparr>columns = [''municipio_cod'', ''municipio_nome'',
                       ''feminicidios_2022'', ''feminicidios_2023''],
           rows = [[(''municipio_cod'', IntV 310620), (''municipio_nome'', StrV ''BELO HORIZONTE''),
                    (''feminicidios_2022'', NaN), (''feminicidios_2023'', IntV 5)],
                   [(''municipio_cod'', IntV 310620), (''municipio_nome'', StrV ''Belo Horizonte''),
                    (''feminicidios_2022'', IntV 3), (''feminicidios_2023'', NaN)]]\<rparr>"
    unfolding pivot_table_def Let_def c labels_2022_2023 sum.case r by simp
  have y: "sorted_years table_two_spellings = [IntV 2022, IntV 2023]"
    by code_simp
  have cols: "columns table_two_spellings
      = [''municipio_cod'', ''municipio_nome'', ''ano'', ''feminicidios'']"
    by (simp add: table_two_spellings_def)
  show ?thesis
    unfolding pivotar_dados_por_ano_def cols
    by (simp add: YEAR_COLUMN_def METRIC_COLUMNS_def METRIC_MEAN_def g p y)
qed

lemma missing_name_loses_records:
  "pivotar_dados_por_ano table_missing_name =
     Inr (\<lparr>columns = [''municipio_cod'', ''municipio_nome'', ''feminicidios_2022''],
           rows = [[(''municipio_cod'', IntV 310620), (''municipio_nome'', StrV ''Belo Horizonte''),
                    (''feminicidios_2022'', IntV 3)]]\<rparr>,
          Some [IntV 2022])"
proof -
  let ?agr = "\<lparr>columns = [''municipio_cod'', ''municipio_nome'', ''ano'', ''feminicidios''],
      rows = [[(''municipio_cod'', IntV 310620), (''municipio_nome'', StrV ''Belo Horizonte''),
               (''ano'', IntV 2022), (''feminicidios'', IntV 3)]]\<rparr>"
  have g: "groupby_agg [''municipio_cod'', ''municipio_nome'', ''ano''] [(''feminicidios'', Sum)]
        table_missing_name = Inr ?agr"
    by code_simp
  have c: "pivot_columns [''municipio_cod'', ''municipio_nome''] [''feminicidios'']
        (pivot_entries [''feminicidios''] ?agr)
      = [(''feminicidios'', IntV 2022)]"
    by code_simp
  have l: "column_labels [(''feminicidios'', IntV 2022)] = Inr [''feminicidios_2022'']"
    by (simp add: py_int_def str_of_int_def digit_char_def)
  have r: "map (\<lambda>k. zip [''municipio_cod'', ''municipio_nome''] k
                @ zip [''feminicidios_2022'']
                    (map (\<lambda>(metric, year). pivot_value [''municipio_cod'', ''municipio_nome'']
                            (pivot_entries [''feminicidios''] ?agr) k year metric)
                       [(''feminicidios'', IntV 2022)]))
             (group_keys [''municipio_cod'', ''municipio_nome'']
                (pivot_entries [''feminicidios''] ?agr))
      = [[(''municipio_cod'', IntV 310620), (''municipio_nome'', StrV ''Belo Horizonte''),
          (''feminicidios_2022'', IntV 3)]]"
    by code_simp
  have p: "pivot_table [''municipio_cod'', ''municipio_nome''] [''feminicidios''] ?agr =
     Inr \<lparr>columns = [''municipio_cod'', ''municipio_nome'', ''feminicidios_2022''],
           rows = [[(''municipio_cod'', IntV 310620), (''municipio_nome'', StrV ''Belo Horizonte''),
                    (''feminicidios_2022'', IntV 3)]]\<rparr>"
    unfolding pivot_table_def Let_def c l sum.case r by simp
  have y: "sorted_years table_missing_name = [IntV 2022]"
    by code_simp
  have cols: "columns table_missing_name
      = [''municipio_cod'', ''municipio_nome'', ''ano'', ''feminicidios'']"
    by (simp add: table_missing_name_def)
  show ?thesis
    unfolding pivotar_dados_por_ano_def cols
    by (simp add: YEAR_COLUMN_def METRIC_COLUMNS_def METRIC_MEAN_def g p y)
qed

end
